(* ===== verification/Prelude.thy ===== *)
theory Prelude
  imports Complex_Main "HOL-Library.Word" "HOL-Library.Product_Lexorder"
begin

text \<open>
  Shared by the whole development: the collection \<open>float_eval\<close> of rules that evaluate closed
  float64 terms, list lemmas about nested folds, and two small contracts on accumulating loops
  that several components instantiate.
\<close>

named_theorems float_eval "evaluation of float64 terms on numerals"

lemma foldl_foldl: "foldl (foldl f) a xss = foldl f a (concat xss)"
  by (induction xss arbitrary: a) auto

section \<open>A loop that leaves a field alone\<close>

locale untouched =
  fixes get :: "'a \<Rightarrow> 'b" and step :: "'a \<Rightarrow> 'c \<Rightarrow> 'a"
  assumes get_step: "get (step a i) = get a"
begin

lemma get_foldl [simp]: "get (foldl step a xs) = get a"
  by (induction xs arbitrary: a) (simp_all add: get_step)

end

section \<open>A loop that keeps the best value seen\<close>

text \<open>
  \<open>get\<close> reads the running value out of the accumulator, \<open>val\<close> the value an item offers (if it
  offers one); the step replaces the running value by a strictly better one.
\<close>

locale extremum_scan =
  fixes get :: "'a \<Rightarrow> 'v" and step :: "'a \<Rightarrow> 'c \<Rightarrow> 'a" and val :: "'c \<Rightarrow> 'v option"
    and better :: "'v \<Rightarrow> 'v \<Rightarrow> bool"
  assumes scan_step: "get (step a i) =
      (case val i of None \<Rightarrow> get a | Some v \<Rightarrow> if better v (get a) then v else get a)"
    and better_irrefl: "\<not> better x x"
    and better_trans: "better x y \<Longrightarrow> better y z \<Longrightarrow> better x z"
begin

lemma scan_keeps: "\<not> better x (get a) \<Longrightarrow> \<not> better x (get (foldl step a xs))"
proof (induction xs arbitrary: a)
  case (Cons i xs)
  have "\<not> better x (get (step a i))"
    using Cons.prems better_trans by (auto simp: scan_step split: option.splits)
  then show ?case by (simp add: Cons.IH)
qed simp

lemma scan_best: "i \<in> set xs \<Longrightarrow> val i = Some v \<Longrightarrow> \<not> better v (get (foldl step a xs))"
proof (induction xs arbitrary: a)
  case (Cons j xs)
  show ?case
  proof (cases "i = j")
    case True
    have "\<not> better v (get (step a j))"
      using Cons.prems True better_irrefl by (auto simp: scan_step)
    then show ?thesis by (simp add: scan_keeps)
  next
    case False
    with Cons show ?thesis by simp
  qed
qed simp

lemma scan_init: "\<not> better (get a) (get (foldl step a xs))"
  using better_irrefl by (rule scan_keeps)

lemma scan_attained:
  "get (foldl step a xs) = get a \<or>
   better (get (foldl step a xs)) (get a) \<and> (\<exists>i\<in>set xs. val i = Some (get (foldl step a xs)))"
proof (induction xs arbitrary: a)
  case (Cons i xs)
  let ?x = "get (foldl step (step a i) xs)"
  have "?x = get (step a i) \<or> better ?x (get (step a i)) \<and> (\<exists>j\<in>set xs. val j = Some ?x)"
    by (rule Cons.IH)
  moreover have "get (step a i) = get a \<or> better (get (step a i)) (get a) \<and> val i = Some (get (step a i))"
    by (auto simp: scan_step split: option.splits)
  ultimately show ?case using better_trans by auto
qed simp

end

end
