(* ===== verification/Rounding.thy ===== *)
theory Rounding
  imports Prelude
begin

text \<open>
  Rounding of non-negative rationals to the 53-bit significands of an IEEE 754 double
  (round to nearest, ties to even, gradual underflow below 2^-1022, no upper bound on the
  exponent).  \<open>rn\<close> is executable; \<open>GoFloat\<close> builds Go's \<^verbatim>\<open>float64\<close> on it.  The
  lemmas say that rounding is monotone, keeps every value of the grid, and errs by at most
  half a unit in the last place.
\<close>

section \<open>Binary magnitude of a rational\<close>

function blen :: "int \<Rightarrow> nat" where
  "blen n = (if n \<le> 0 then 0 else Suc (blen (n div 2)))"
  by pat_completeness auto
termination
  by (relation "measure nat") auto

declare blen.simps [simp del]

definition ilog2 :: "rat \<Rightarrow> int" where
  "ilog2 q = (if 1 \<le> q then int (blen \<lfloor>q\<rfloor>) - 1 else - int (blen (\<lceil>1 / q\<rceil> - 1)))"

definition uexp :: "rat \<Rightarrow> int" where
  "uexp q = (if q = 0 then - 1074 else max (- 1074) (ilog2 q - 52))"

section \<open>Rounding to nearest, ties to even\<close>

definition rhe :: "rat \<Rightarrow> int" where
  "rhe q = (let f = \<lfloor>q\<rfloor>; r = q - of_int f in
     if r < 1 / 2 then f else if 1 / 2 < r then f + 1 else if even f then f else f + 1)"

definition rn :: "rat \<Rightarrow> rat" where
  "rn q = (let e = uexp q in of_int (rhe (q / 2 powi e)) * 2 powi e)"

lemma blen_upper: "n < 2 ^ blen n"
proof (induction n rule: blen.induct)
  case (1 n)
  show ?case
  proof (cases "n \<le> 0")
    case True
    then show ?thesis by (simp add: blen.simps[of n])
  next
    case False
    with 1 have "n div 2 < 2 ^ blen (n div 2)" by simp
    then have "n < 2 * 2 ^ blen (n div 2)" by linarith
    with False show ?thesis by (simp add: blen.simps[of n])
  qed
qed

lemma blen_lower: "0 < n \<Longrightarrow> 2 ^ blen n \<le> 2 * n"
proof (induction n rule: blen.induct)
  case (1 n)
  show ?case
  proof (cases "n div 2 = 0")
    case True
    with 1 show ?thesis by (simp add: blen.simps[of n] blen.simps[of 0])
  next
    case False
    with 1 have "2 ^ blen (n div 2) \<le> 2 * (n div 2)" by simp
    with 1 show ?thesis by (simp add: blen.simps[of n])
  qed
qed

lemma ilog2_bounds:
  assumes "0 < q"
  shows "2 powi ilog2 q \<le> q" and "q < 2 powi (ilog2 q + 1)"
proof -
  have "2 powi ilog2 q \<le> q \<and> q < 2 powi (ilog2 q + 1)"
  proof (cases "1 \<le> q")
    case True
    define n where "n = \<lfloor>q\<rfloor>"
    have n: "0 < n" using True unfolding n_def by linarith
    have l: "ilog2 q = int (blen n) - 1" using True by (simp add: ilog2_def n_def)
    have "rat_of_int (2 ^ blen n) \<le> of_int (2 * n)" using blen_lower[OF n] by (simp only: of_int_le_iff)
    then have a: "2 ^ blen n \<le> 2 * rat_of_int n" by simp
    have "n + 1 \<le> 2 ^ blen n" using blen_upper[of n] by simp
    then have "rat_of_int (n + 1) \<le> of_int (2 ^ blen n)" by (simp only: of_int_le_iff)
    then have b: "rat_of_int n + 1 \<le> 2 ^ blen n" by simp
    have "of_int n \<le> q" "q < of_int n + 1" unfolding n_def by linarith+
    with a b show ?thesis by (simp add: l power_int_diff)
  next
    case False
    define n where "n = \<lceil>1 / q\<rceil> - 1"
    have "1 < 1 / q" using False assms by simp
    then have n: "0 < n" unfolding n_def by linarith
    have l: "ilog2 q = - int (blen n)" using False by (simp add: ilog2_def n_def)
    have "rat_of_int (2 ^ blen n) \<le> of_int (2 * n)" using blen_lower[OF n] by (simp only: of_int_le_iff)
    then have a: "2 ^ blen n \<le> 2 * rat_of_int n" by simp
    have "n + 1 \<le> 2 ^ blen n" using blen_upper[of n] by simp
    then have "rat_of_int (n + 1) \<le> of_int (2 ^ blen n)" by (simp only: of_int_le_iff)
    then have b: "rat_of_int n + 1 \<le> 2 ^ blen n" by simp
    have c: "of_int n < 1 / q" "1 / q \<le> of_int n + 1" unfolding n_def by linarith+
    have "1 / q \<le> 2 ^ blen n" "2 ^ blen n < 2 * (1 / q)" using a b c by linarith+
    then have "1 / 2 ^ blen n \<le> q" "q < 2 / 2 ^ blen n"
      using assms by (simp_all add: field_simps)
    then show ?thesis by (simp add: l power_int_minus power_int_diff field_simps)
  qed
  then show "2 powi ilog2 q \<le> q" and "q < 2 powi (ilog2 q + 1)" by auto
qed

section \<open>The exponent of the last place\<close>

lemma powi_pos [simp]: "(0::rat) < 2 powi e"
  by simp

lemma powi_mono: "a \<le> b \<Longrightarrow> (2::rat) powi a \<le> 2 powi b"
  by (simp add: power_int_increasing)

lemma uexp_ge: "- 1074 \<le> uexp q"
  by (simp add: uexp_def)

lemma uexp_upper: "0 \<le> q \<Longrightarrow> q < 2 powi (uexp q + 53)"
proof (cases "q = 0")
  case False
  assume "0 \<le> q"
  with False have "q < 2 powi (ilog2 q + 1)" using ilog2_bounds(2)[of q] by simp
  also have "\<dots> \<le> 2 powi (uexp q + 53)" by (rule powi_mono) (simp add: uexp_def False)
  finally show ?thesis .
qed simp

lemma uexp_lower: "- 1074 < uexp q \<Longrightarrow> 0 \<le> q \<Longrightarrow> 2 powi (uexp q + 52) \<le> q"
  using ilog2_bounds(1)[of q] by (auto simp: uexp_def split: if_splits)

lemma uexp_unique:
  assumes "0 \<le> q" "q < 2 powi (e + 53)" "- 1074 \<le> e" "- 1074 < e \<Longrightarrow> 2 powi (e + 52) \<le> q"
  shows "uexp q = e"
proof (rule antisym; rule ccontr)
  assume "\<not> uexp q \<le> e"
  then have u: "e + 1 \<le> uexp q" by simp
  with assms(3) have "2 powi (uexp q + 52) \<le> q" using assms(1) by (intro uexp_lower) auto
  with assms(2) have "(2::rat) powi (uexp q + 52) < 2 powi (e + 53)" by simp
  moreover have "(2::rat) powi (e + 53) \<le> 2 powi (uexp q + 52)" using u by (intro powi_mono) simp
  ultimately show False by simp
next
  assume "\<not> e \<le> uexp q"
  then have u: "uexp q + 1 \<le> e" by simp
  then have "2 powi (e + 52) \<le> q" using assms(4) uexp_ge[of q] by simp
  moreover have "q < 2 powi (uexp q + 53)" using assms(1) by (rule uexp_upper)
  moreover have "(2::rat) powi (uexp q + 53) \<le> 2 powi (e + 52)" using u by (intro powi_mono) simp
  ultimately show False by simp
qed

lemma uexp_mono: "0 \<le> p \<Longrightarrow> p \<le> q \<Longrightarrow> uexp p \<le> uexp q"
proof (rule ccontr)
  assume a: "0 \<le> p" "p \<le> q" "\<not> uexp p \<le> uexp q"
  then have "2 powi (uexp p + 52) \<le> p" using uexp_ge[of q] by (intro uexp_lower) auto
  moreover have "q < 2 powi (uexp q + 53)" using a by (intro uexp_upper) auto
  moreover have "(2::rat) powi (uexp q + 53) \<le> 2 powi (uexp p + 52)" using a(3) by (intro powi_mono) simp
  ultimately show False using a(2) by simp
qed

lemma rhe_of_int [simp]: "rhe (of_int n) = n"
  by (simp add: rhe_def)

lemma rhe_err: "\<bar>of_int (rhe q) - q\<bar> \<le> 1 / 2"
proof -
  define f where "f = \<lfloor>q\<rfloor>"
  have f: "of_int f \<le> q" "q < of_int f + 1" unfolding f_def by linarith+
  have "rhe q = f \<and> q - of_int f \<le> 1 / 2 \<or> rhe q = f + 1 \<and> 1 / 2 \<le> q - of_int f"
    unfolding rhe_def Let_def f_def by auto
  then show ?thesis
  proof (elim disjE conjE)
    assume "rhe q = f" "q - of_int f \<le> 1 / 2"
    with f show ?thesis by (simp add: abs_le_iff)
  next
    assume "rhe q = f + 1" "1 / 2 \<le> q - of_int f"
    with f show ?thesis by (simp add: abs_le_iff)
  qed
qed

lemma rhe_mono:
  assumes "p \<le> q"
  shows "rhe p \<le> rhe q"
proof (cases "\<lfloor>p\<rfloor> = \<lfloor>q\<rfloor>")
  case True
  with assms show ?thesis unfolding rhe_def Let_def by auto
next
  case False
  with assms have "\<lfloor>p\<rfloor> + 1 \<le> \<lfloor>q\<rfloor>" using floor_mono[OF assms] by linarith
  then show ?thesis unfolding rhe_def Let_def by auto
qed

lemma rhe_le: "q \<le> of_int n \<Longrightarrow> rhe q \<le> n"
  using rhe_mono[of q "of_int n"] by simp

lemma rhe_ge: "of_int n \<le> q \<Longrightarrow> n \<le> rhe q"
  using rhe_mono[of "of_int n" q] by simp

lemma rn_nonneg: "0 \<le> q \<Longrightarrow> 0 \<le> rn q"
  using rhe_ge[of 0 "q / 2 powi uexp q"] by (simp add: rn_def Let_def)

lemma rn_0 [simp]: "rn 0 = 0"
  using rhe_of_int[of 0] by (simp add: rn_def Let_def del: rhe_of_int)

lemma rn_upper: "0 \<le> q \<Longrightarrow> rn q \<le> 2 powi (uexp q + 53)"
proof -
  assume "0 \<le> q"
  then have "q < 2 powi (uexp q + 53)" by (rule uexp_upper)
  then have "q / 2 powi uexp q \<le> of_int (2 ^ 53)" by (simp add: power_int_add field_simps)
  then have "rhe (q / 2 powi uexp q) \<le> 2 ^ 53" by (rule rhe_le)
  then have "rat_of_int (rhe (q / 2 powi uexp q)) \<le> of_int (2 ^ 53)" by (simp only: of_int_le_iff)
  then show ?thesis by (simp add: rn_def Let_def power_int_add mult.commute)
qed

lemma rn_lower: "0 \<le> q \<Longrightarrow> - 1074 < uexp q \<Longrightarrow> 2 powi (uexp q + 52) \<le> rn q"
proof -
  assume "0 \<le> q" "- 1074 < uexp q"
  then have "2 powi (uexp q + 52) \<le> q" by (intro uexp_lower)
  then have "of_int (2 ^ 52) \<le> q / 2 powi uexp q" by (simp add: power_int_add field_simps)
  then have "2 ^ 52 \<le> rhe (q / 2 powi uexp q)" by (rule rhe_ge)
  then have "of_int (2 ^ 52) \<le> rat_of_int (rhe (q / 2 powi uexp q))" by (simp only: of_int_le_iff)
  then show ?thesis by (simp add: rn_def Let_def power_int_add mult.commute)
qed

lemma rn_mono:
  assumes "0 \<le> p" "p \<le> q"
  shows "rn p \<le> rn q"
proof (cases "uexp p = uexp q")
  case True
  have "rhe (p / 2 powi uexp p) \<le> rhe (q / 2 powi uexp p)"
    by (rule rhe_mono) (simp add: divide_right_mono assms(2))
  with True show ?thesis by (simp add: rn_def Let_def)
next
  case False
  with uexp_mono[OF assms] have u: "uexp p + 1 \<le> uexp q" by simp
  have "rn p \<le> 2 powi (uexp p + 53)" using assms(1) by (rule rn_upper)
  also have "\<dots> \<le> 2 powi (uexp q + 52)" using u by (intro powi_mono) simp
  also have "\<dots> \<le> rn q" using u uexp_ge[of p] assms by (intro rn_lower) auto
  finally show ?thesis .
qed

lemma rn_dyadic:
  assumes "0 \<le> m" "m \<le> 2 ^ 53" "- 1074 \<le> e"
  shows "rn (of_int m * 2 powi e) = of_int m * 2 powi e"
proof -
  define q where "q = rat_of_int m * 2 powi e"
  have q0: "0 \<le> q" using assms by (simp add: q_def)
  have "\<exists>n::int. q / 2 powi uexp q = of_int n"
  proof (cases "uexp q \<le> e")
    case True
    have "q / 2 powi uexp q = of_int m * 2 powi (e - uexp q)"
      by (simp add: power_int_diff q_def)
    also have "(2::rat) powi (e - uexp q) = of_int (2 ^ nat (e - uexp q))"
      using True by (simp add: power_int_def)
    finally show ?thesis by (metis of_int_mult)
  next
    case False
    then have "2 powi (uexp q + 52) \<le> q" using assms(3) q0 by (intro uexp_lower) auto
    moreover have "(2::rat) powi (e + 53) \<le> 2 powi (uexp q + 52)" using False by (intro powi_mono) simp
    moreover have "rat_of_int m \<le> of_int (2 ^ 53)" using assms(2) by (simp only: of_int_le_iff)
    then have "q \<le> 2 powi (e + 53)" by (simp add: q_def power_int_add)
    ultimately have "q = 2 powi (uexp q + 52)" by simp
    then have "q / 2 powi uexp q = of_int (2 ^ 52)"
      by (metis divide_eq_eq mult.commute of_int_numeral of_int_power power_int_add power_int_numeral
          power_int_not_zero zero_neq_numeral)
    then show ?thesis by blast
  qed
  then obtain n :: int where n: "q / 2 powi uexp q = of_int n" by blast
  then have "rn q = of_int n * 2 powi uexp q" by (simp add: rn_def Let_def)
  also have "\<dots> = q" by (simp flip: n)
  finally show ?thesis by (simp add: q_def)
qed

lemma rn_idem: "0 \<le> q \<Longrightarrow> rn (rn q) = rn q"
proof -
  assume q: "0 \<le> q"
  have "0 \<le> rhe (q / 2 powi uexp q)" using q by (intro rhe_ge) simp
  moreover have "q / 2 powi uexp q \<le> of_int (2 ^ 53)"
    using uexp_upper[OF q] by (simp add: power_int_add field_simps)
  then have "rhe (q / 2 powi uexp q) \<le> 2 ^ 53" by (rule rhe_le)
  ultimately show ?thesis using uexp_ge[of q] by (simp add: rn_def[of q] Let_def rn_dyadic)
qed

lemma rn_int: "0 \<le> m \<Longrightarrow> m \<le> 2 ^ 53 \<Longrightarrow> rn (of_int m) = of_int m"
  using rn_dyadic[of m 0] by simp

lemma rn_err: "\<bar>rn q - q\<bar> \<le> 2 powi uexp q / 2"
proof -
  define u where "u = (2::rat) powi uexp q"
  have u: "0 < u" by (simp add: u_def)
  have "rn q - q = (of_int (rhe (q / u)) - q / u) * u"
    using u by (simp add: rn_def Let_def u_def left_diff_distrib)
  then have "\<bar>rn q - q\<bar> = \<bar>of_int (rhe (q / u)) - q / u\<bar> * u" using u by (simp add: abs_mult)
  also have "\<dots> \<le> 1 / 2 * u" using rhe_err[of "q / u"] u by (intro mult_right_mono) auto
  finally show ?thesis by (simp add: u_def)
qed

lemma rn_rel_err:
  assumes "2 powi (- 1022) \<le> q"
  shows "\<bar>rn q - q\<bar> \<le> q * 2 powi (- 53)"
proof -
  have q: "0 < q" using assms powi_pos[of "- 1022"] by linarith
  have "2 powi (uexp q + 52) \<le> q"
  proof (cases "- 1074 < uexp q")
    case False
    with uexp_ge[of q] have "uexp q = - 1074" by simp
    with assms show ?thesis by simp
  qed (use q uexp_lower in auto)
  then have "2 powi uexp q / 2 \<le> q * 2 powi (- 53)"
    by (simp add: power_int_add power_int_minus field_simps)
  with rn_err[of q] show ?thesis by linarith
qed

section \<open>Evaluation on numerals\<close>

text \<open>
  On a quotient of integers the rounding is integer arithmetic: the bit lengths give the
  exponent and one division with remainder gives the significand.  Used to evaluate closed
  terms with the simplifier.
\<close>

definition il2 :: "int \<Rightarrow> int \<Rightarrow> int" where
  "il2 a b = (if b \<le> a then int (blen (a div b)) - 1 else - int (blen ((b - 1) div a)))"
definition scaled :: "int \<Rightarrow> int \<Rightarrow> int \<Rightarrow> int" where
  "scaled a b e = (let n = (if e < 0 then a * 2 ^ nat (- e) else a); d = (if e < 0 then b else b * 2 ^ nat e);
     f = n div d; r = 2 * (n mod d) in if r < d then f else if d < r then f + 1 else if even f then f else f + 1)"

lemma blen_Bit0 [float_eval]: "blen (numeral (num.Bit0 n)) = Suc (blen (numeral n))"
  by (subst blen.simps) simp
lemma blen_Bit1 [float_eval]: "blen (numeral (num.Bit1 n)) = Suc (blen (numeral n))"
  by (subst blen.simps) (simp add: numeral_Bit1_div_2)
lemma blen_1 [float_eval]: "blen 1 = 1" by (subst blen.simps) (simp add: blen.simps)
lemma blen_0 [float_eval]: "blen 0 = 0" by (simp add: blen.simps)

lemma ilog2_frac: "0 < a \<Longrightarrow> 0 < b \<Longrightarrow> ilog2 (of_int a / of_int b) = il2 a b"
proof -
  assume ab: "0 < a" "0 < b"
  define k where "k = (b - 1) div a"
  have "b - 1 = a * k + (b - 1) mod a" "0 \<le> (b - 1) mod a" "(b - 1) mod a < a"
    using ab(1) by (simp_all add: k_def)
  moreover have "(k + 1) * a = a * k + a" "k * a = a * k" by (simp_all add: algebra_simps)
  ultimately have "k * a \<le> b - 1" "b - 1 < (k + 1) * a" by linarith+
  then have "k * a < b" "b \<le> (k + 1) * a" by linarith+
  then have "rat_of_int (k * a) < of_int b" "rat_of_int b \<le> of_int ((k + 1) * a)"
    by (simp_all only: of_int_less_iff of_int_le_iff)
  then have "rat_of_int k < of_int b / of_int a" "rat_of_int b / of_int a \<le> of_int k + 1"
    using ab by (simp_all add: field_simps)
  then have c: "\<lceil>rat_of_int b / of_int a\<rceil> - 1 = (b - 1) div a"
    unfolding k_def[symmetric] by linarith
  show ?thesis using ab c
    by (simp add: ilog2_def il2_def floor_divide_of_int_eq)
qed
lemma rhe_frac: "0 < d \<Longrightarrow> rhe (of_int n / of_int d) = (let f = n div d; r = 2 * (n mod d) in if r < d then f else if d < r then f + 1 else if even f then f else f + 1)"
proof -
  assume d: "0 < d"
  have "rat_of_int n = of_int (d * (n div d) + n mod d)" by simp
  then have "rat_of_int n = of_int d * of_int (n div d) + of_int (n mod d)" by (simp only: of_int_add of_int_mult)
  then have "rat_of_int n / of_int d - of_int (n div d) = of_int (n mod d) / of_int d"
    using d by (simp add: field_simps)
  moreover have "rat_of_int (n mod d) / of_int d < 1 / 2 \<longleftrightarrow> rat_of_int (2 * (n mod d)) < of_int d"
    using d by (simp add: field_simps)
  moreover have "1 / 2 < rat_of_int (n mod d) / of_int d \<longleftrightarrow> rat_of_int d < of_int (2 * (n mod d))"
    using d by (simp add: field_simps)
  ultimately show ?thesis by (simp only: rhe_def Let_def floor_divide_of_int_eq of_int_less_iff)
qed
lemma rn_frac: "0 < a \<Longrightarrow> 0 < b \<Longrightarrow> rn (of_int a / of_int b) =
   (let e = max (- 1074) (il2 a b - 52) in of_int (scaled a b e) * 2 powi e)"
proof -
  assume ab: "0 < a" "0 < b"
  define e where "e = max (- 1074) (il2 a b - 52)"
  have u: "uexp (of_int a / of_int b) = e" using ab by (simp add: uexp_def ilog2_frac e_def)
  have "rhe (of_int a / of_int b / 2 powi e) = scaled a b e"
  proof (cases "e < 0")
    case True
    then have "rat_of_int a / of_int b / 2 powi e = of_int (a * 2 ^ nat (- e)) / of_int b"
      by (simp add: power_int_def field_simps)
    then show ?thesis using True rhe_frac[OF ab(2), of "a * 2 ^ nat (- e)"] by (simp add: scaled_def Let_def)
  next
    case False
    then have "rat_of_int a / of_int b / 2 powi e = of_int a / of_int (b * 2 ^ nat e)"
      by (simp add: power_int_def field_simps)
    then show ?thesis using False rhe_frac[of "b * 2 ^ nat e" a] ab by (simp add: scaled_def Let_def)
  qed
  with u show ?thesis by (simp add: rn_def Let_def e_def[symmetric])
qed
lemma rn_eval [float_eval]:
  "rn (numeral a / numeral b) = (let e = max (- 1074) (il2 (numeral a) (numeral b) - 52) in of_int (scaled (numeral a) (numeral b) e) * 2 powi e)"
  "rn (1 / numeral b) = (let e = max (- 1074) (il2 1 (numeral b) - 52) in of_int (scaled 1 (numeral b) e) * 2 powi e)"
  "rn (numeral a) = (let e = max (- 1074) (il2 (numeral a) 1 - 52) in of_int (scaled (numeral a) 1 e) * 2 powi e)"
  "rn 1 = 1"
  using rn_frac[of "numeral a" "numeral b"] rn_frac[of 1 "numeral b"] rn_frac[of "numeral a" 1] rn_int[of 1] by auto
lemma floor_eval [float_eval]:
  "\<lfloor>numeral a / (numeral b :: rat)\<rfloor> = numeral a div numeral b"
  "\<lfloor>1 / (numeral b :: rat)\<rfloor> = 1 div numeral b"
  using floor_divide_of_int_eq[of "numeral a" "numeral b", where 'a = rat]
    floor_divide_of_int_eq[of 1 "numeral b", where 'a = rat] by simp_all

lemma rhe_numeral_frac:
  "rhe (numeral a / numeral b) =
     (let f = numeral a div numeral b :: int; r = 2 * (numeral a mod numeral b) :: int
      in if r < numeral b then f else if numeral b < r then f + 1 else if even f then f else f + 1)"
  using rhe_frac[of "numeral b" "numeral a"] by simp

lemma rhe_1_frac:
  "rhe (1 / numeral b) =
     (let f = 1 div numeral b :: int; r = 2 * (1 mod numeral b) :: int
      in if r < numeral b then f else if numeral b < r then f + 1 else if even f then f else f + 1)"
  using rhe_frac[of "numeral b" 1] by simp

lemma rhe_whole: "rhe (numeral a) = numeral a" "rhe 1 = 1" "rhe 0 = 0"
  using rhe_of_int[of "numeral a"] rhe_of_int[of 1] rhe_of_int[of 0] by (simp_all del: rhe_of_int)

lemmas [float_eval] = Let_def il2_def scaled_def rhe_numeral_frac rhe_1_frac rhe_whole

section \<open>Laws of a monotone rounding\<close>

text \<open>
  What the float operations rely on: a rounding is monotone and leaves the values of its
  grid alone.  Everything the program's bounds need follows from the two laws.
\<close>

locale monotone_rounding =
  fixes R :: "rat \<Rightarrow> rat" and grid :: "rat \<Rightarrow> bool"
  assumes R_mono: "0 \<le> p \<Longrightarrow> p \<le> q \<Longrightarrow> R p \<le> R q"
    and R_grid: "grid q \<Longrightarrow> R q = q"
    and grid_nonneg: "grid q \<Longrightarrow> 0 \<le> q"
    and grid_0: "grid 0"
begin

lemma R_ge: "grid lo \<Longrightarrow> lo \<le> q \<Longrightarrow> lo \<le> R q"
  using R_mono[of lo q] R_grid grid_nonneg by auto

lemma R_le: "grid hi \<Longrightarrow> 0 \<le> q \<Longrightarrow> q \<le> hi \<Longrightarrow> R q \<le> hi"
  using R_mono[of q hi] R_grid by auto

lemma R_nonneg: "0 \<le> q \<Longrightarrow> 0 \<le> R q"
  using R_ge[of 0 q] grid_0 by simp

lemma R_scale_up: "grid x \<Longrightarrow> 1 \<le> c \<Longrightarrow> x \<le> R (x * c)"
  using grid_nonneg mult_left_mono[of 1 c x] by (intro R_ge) auto

lemma R_scale_down: "grid x \<Longrightarrow> 0 \<le> c \<Longrightarrow> c \<le> 1 \<Longrightarrow> R (x * c) \<le> x"
  using grid_nonneg mult_left_mono[of c 1 x] by (intro R_le) auto

end

definition on_grid :: "rat \<Rightarrow> bool" where
  "on_grid q \<longleftrightarrow> 0 \<le> q \<and> rn q = q"

interpretation rne: monotone_rounding rn on_grid
  by unfold_locales (auto simp: on_grid_def rn_mono)

lemma on_grid_rn: "0 \<le> q \<Longrightarrow> on_grid (rn q)"
  by (simp add: on_grid_def rn_nonneg rn_idem)

lemma on_grid_dyadic: "0 \<le> m \<Longrightarrow> m \<le> 2 ^ 53 \<Longrightarrow> - 1074 \<le> e \<Longrightarrow> on_grid (of_int m * 2 powi e)"
  by (simp add: on_grid_def rn_dyadic)

lemma on_grid_int: "0 \<le> m \<Longrightarrow> m \<le> 2 ^ 53 \<Longrightarrow> on_grid (of_int m)"
  by (simp add: on_grid_def rn_int)

end
