(* ===== verification/GoFloat.thy ===== *)
theory GoFloat
  imports Rounding
begin

text \<open>
  Go's \<^verbatim>\<open>float64\<close>: NaN, the infinities and the finite values by sign and magnitude (so the
  two zeros are distinct).  The operators are IEEE 754's with the default rounding, one rounding
  per operation; the order relations are false on NaN.
\<close>

datatype float64 = NaN | Inf bool | Fin bool rat

definition float_limit :: rat where
  "float_limit = 2 ^ 1024"

lemma float_limit_pos [simp]: "0 < float_limit" "1 < float_limit" "\<not> float_limit \<le> 0" "\<not> float_limit \<le> 1"
  by (simp_all add: float_limit_def)

definition is_f64 :: "float64 \<Rightarrow> bool" where
  "is_f64 x = (case x of Fin s q \<Rightarrow> on_grid q \<and> q < float_limit | _ \<Rightarrow> True)"

definition rnd :: "bool \<Rightarrow> rat \<Rightarrow> float64" where
  "rnd s q = (let r = rn q in if float_limit \<le> r then Inf s else Fin s r)"

definition sval :: "bool \<Rightarrow> rat \<Rightarrow> rat" where
  "sval s q = (if s then - q else q)"

definition fkey :: "float64 \<Rightarrow> int \<times> rat" where
  "fkey x = (case x of NaN \<Rightarrow> (0, 0) | Inf s \<Rightarrow> (if s then - 1 else 1, 0) | Fin s q \<Rightarrow> (0, sval s q))"

fun fadd :: "float64 \<Rightarrow> float64 \<Rightarrow> float64" where
  "fadd (Fin s a) (Fin t b) =
     (let v = sval s a + sval t b in if v = 0 then Fin (s \<and> t) 0 else rnd (v < 0) \<bar>v\<bar>)"
| "fadd (Inf s) (Inf t) = (if s = t then Inf s else NaN)"
| "fadd (Inf s) (Fin _ _) = Inf s"
| "fadd (Fin _ _) (Inf t) = Inf t"
| "fadd _ _ = NaN"

fun fneg :: "float64 \<Rightarrow> float64" where
  "fneg NaN = NaN"
| "fneg (Inf s) = Inf (\<not> s)"
| "fneg (Fin s q) = Fin (\<not> s) q"

fun fabs :: "float64 \<Rightarrow> float64" where
  "fabs NaN = NaN"
| "fabs (Inf s) = Inf False"
| "fabs (Fin s q) = Fin False q"

fun fmul :: "float64 \<Rightarrow> float64 \<Rightarrow> float64" where
  "fmul (Fin s a) (Fin t b) = rnd (s \<noteq> t) (a * b)"
| "fmul (Inf s) (Inf t) = Inf (s \<noteq> t)"
| "fmul (Inf s) (Fin t b) = (if b = 0 then NaN else Inf (s \<noteq> t))"
| "fmul (Fin s a) (Inf t) = (if a = 0 then NaN else Inf (s \<noteq> t))"
| "fmul _ _ = NaN"

fun fdiv :: "float64 \<Rightarrow> float64 \<Rightarrow> float64" where
  "fdiv (Fin s a) (Fin t b) =
     (if b = 0 then (if a = 0 then NaN else Inf (s \<noteq> t)) else rnd (s \<noteq> t) (a / b))"
| "fdiv (Inf s) (Fin t b) = Inf (s \<noteq> t)"
| "fdiv (Fin s a) (Inf t) = Fin (s \<noteq> t) 0"
| "fdiv _ _ = NaN"

instantiation float64 :: "{zero, one, ord, plus, minus, times, inverse, uminus, abs}"
begin

definition zero_float64 :: float64 where "0 = Fin False 0"
definition one_float64 :: float64 where "1 = Fin False 1"
definition less_float64 :: "float64 \<Rightarrow> float64 \<Rightarrow> bool" where
  "x < y \<longleftrightarrow> x \<noteq> NaN \<and> y \<noteq> NaN \<and> fkey x < fkey y"
definition less_eq_float64 :: "float64 \<Rightarrow> float64 \<Rightarrow> bool" where
  "x \<le> y \<longleftrightarrow> x \<noteq> NaN \<and> y \<noteq> NaN \<and> fkey x \<le> fkey y"
definition plus_float64 :: "float64 \<Rightarrow> float64 \<Rightarrow> float64" where "x + y = fadd x y"
definition uminus_float64 :: "float64 \<Rightarrow> float64" where "- x = fneg x"
definition minus_float64 :: "float64 \<Rightarrow> float64 \<Rightarrow> float64" where "x - y = fadd x (fneg y)"
definition times_float64 :: "float64 \<Rightarrow> float64 \<Rightarrow> float64" where "x * y = fmul x y"
definition divide_float64 :: "float64 \<Rightarrow> float64 \<Rightarrow> float64" where "divide x y = fdiv x y"
definition inverse_float64 :: "float64 \<Rightarrow> float64" where "inverse x = fdiv (Fin False 1) x"
definition abs_float64 :: "float64 \<Rightarrow> float64" where "\<bar>x\<bar> = fabs x"

instance ..

end

definition feq :: "float64 \<Rightarrow> float64 \<Rightarrow> bool" where
  "feq x y \<longleftrightarrow> x \<noteq> NaN \<and> y \<noteq> NaN \<and> fkey x = fkey y"

definition lit :: "rat \<Rightarrow> float64" where
  "lit r = (if r = 0 then 0 else rnd (r < 0) \<bar>r\<bar>)"

definition fmax :: "float64 \<Rightarrow> float64 \<Rightarrow> float64" where
  "fmax x y =
     (if x = Inf False \<or> y = Inf False then Inf False
      else if x = NaN \<or> y = NaN then NaN
      else if feq x 0 \<and> feq x y then (if x = Fin True 0 then y else x)
      else if y < x then x else y)"

definition MaxFloat64 :: float64 where
  "MaxFloat64 = Fin False ((2 ^ 53 - 1) * 2 ^ 971)"


definition is_fin :: "float64 \<Rightarrow> bool" where
  "is_fin x = (case x of Fin _ _ \<Rightarrow> True | _ \<Rightarrow> False)"

definition to_int64 :: "(float64 \<Rightarrow> 64 word) \<Rightarrow> float64 \<Rightarrow> 64 word" where
  "to_int64 out_of_range x =
     (case x of
        Fin s q \<Rightarrow>
          (let n = (if s then - \<lfloor>q\<rfloor> else \<lfloor>q\<rfloor>)
           in if - (2 ^ 63) \<le> n \<and> n < 2 ^ 63 then word_of_int n else out_of_range x)
      | _ \<Rightarrow> out_of_range x)"

lemmas float_arith_defs = times_float64_def divide_float64_def plus_float64_def
  minus_float64_def uminus_float64_def abs_float64_def zero_float64_def one_float64_def
lemmas float_ord = less_float64_def less_eq_float64_def feq_def
lemmas [float_eval] = float_arith_defs float_ord lit_def rnd_def float_limit_def fkey_def sval_def

section \<open>The order\<close>

lemma f_le_refl [simp]: "x \<le> x \<longleftrightarrow> x \<noteq> NaN" for x :: float64
  by (simp add: float_ord)

lemma f_le_trans [trans]: "x \<le> y \<Longrightarrow> y \<le> z \<Longrightarrow> x \<le> z" for x y z :: float64
  by (auto simp: float_ord)

lemma f_less_le_trans [trans]: "x < y \<Longrightarrow> y \<le> z \<Longrightarrow> x < z" for x y z :: float64
  by (auto simp: float_ord)

lemma f_le_less_trans [trans]: "x \<le> y \<Longrightarrow> y < z \<Longrightarrow> x < z" for x y z :: float64
  by (auto simp: float_ord)

lemma f_less_imp_le: "x < y \<Longrightarrow> x \<le> y" for x y :: float64
  by (auto simp: float_ord)

lemma f_not_less: "x \<noteq> NaN \<Longrightarrow> y \<noteq> NaN \<Longrightarrow> \<not> x < y \<longleftrightarrow> y \<le> x" for x y :: float64
  by (auto simp: float_ord)

lemma f_less_irrefl [simp]: "\<not> x < x" for x :: float64
  by (simp add: float_ord)

lemma f_le_not_NaN: "x \<le> y \<Longrightarrow> x \<noteq> NaN \<and> y \<noteq> NaN" for x y :: float64
  by (simp add: float_ord)

lemma NaN_cmp [simp]: "\<not> NaN < x" "\<not> x < NaN" "\<not> NaN \<le> x" "\<not> x \<le> NaN" "\<not> feq NaN x" "\<not> feq x NaN"
  by (simp_all add: float_ord)

lemma feq_iff: "feq x y \<longleftrightarrow> x \<le> y \<and> y \<le> x"
  by (auto simp: float_ord)

section \<open>Rounding of signed values\<close>

definition rv :: "rat \<Rightarrow> float64" where
  "rv v = rnd (v < 0) \<bar>v\<bar>"

lemma rnd_not_NaN [simp]: "rnd s q \<noteq> NaN"
  by (simp add: rnd_def Let_def)

lemma is_f64_rnd: "0 \<le> q \<Longrightarrow> is_f64 (rnd s q)"
  by (simp add: rnd_def is_f64_def Let_def on_grid_rn)

lemma fkey_rnd: "0 \<le> q \<Longrightarrow> fkey (rnd s q) = fkey (rv (sval s q))"
  by (cases "q = 0") (auto simp: rnd_def rv_def sval_def fkey_def Let_def)

lemma rv_mono: "v \<le> w \<Longrightarrow> rv v \<le> rv w"
proof -
  assume "v \<le> w"
  then consider "0 \<le> v" "v \<le> w" | "v < 0" "0 \<le> w" | "w < 0" "v \<le> w" by linarith
  then show ?thesis
  proof cases
    case 1
    then have "rn v \<le> rn w" by (rule rn_mono)
    with 1 show ?thesis by (auto simp: rv_def rnd_def Let_def float_ord fkey_def sval_def less_eq_prod_def)
  next
    case 2
    have "0 \<le> rn (- v)" "0 \<le> rn w" using 2 by (auto intro: rn_nonneg)
    with 2 show ?thesis by (auto simp: rv_def rnd_def Let_def float_ord fkey_def sval_def less_eq_prod_def)
  next
    case 3
    then have "rn (- w) \<le> rn (- v)" by (intro rn_mono) auto
    with 3 show ?thesis by (auto simp: rv_def rnd_def Let_def float_ord fkey_def sval_def less_eq_prod_def)
  qed
qed

lemma rv_grid: "is_f64 (Fin s q) \<Longrightarrow> fkey (rv (sval s q)) = (0, sval s q)"
  by (auto simp: rv_def rnd_def Let_def is_f64_def on_grid_def fkey_def sval_def)


section \<open>Values of finite floats\<close>

definition fv :: "float64 \<Rightarrow> rat" where
  "fv x = (case x of Fin s q \<Rightarrow> sval s q | _ \<Rightarrow> 0)"

lemma is_fin_not_NaN: "is_fin x \<Longrightarrow> x \<noteq> NaN"
  by (auto simp: is_fin_def)

lemma is_fin_Fin [simp]: "is_fin (Fin s q)" "\<not> is_fin NaN" "\<not> is_fin (Inf s)"
  by (simp_all add: is_fin_def)

lemma fkey_fin: "is_fin x \<Longrightarrow> fkey x = (0, fv x)"
  by (auto simp: is_fin_def fkey_def fv_def split: float64.splits)

lemma fin_le: "is_fin x \<Longrightarrow> is_fin y \<Longrightarrow> x \<le> y \<longleftrightarrow> fv x \<le> fv y"
  by (auto simp: float_ord fkey_fin is_fin_not_NaN)

lemma fin_less: "is_fin x \<Longrightarrow> is_fin y \<Longrightarrow> x < y \<longleftrightarrow> fv x < fv y"
  by (auto simp: float_ord fkey_fin is_fin_not_NaN)

lemma fv_0 [simp]: "fv 0 = 0" "is_fin 0" "is_f64 0" "0 \<noteq> NaN"
  by (simp_all add: fv_def zero_float64_def sval_def is_f64_def on_grid_def)

lemma fv_1 [simp]: "fv 1 = 1" "is_fin 1" "is_f64 1" "1 \<noteq> NaN"
  by (simp_all add: fv_def one_float64_def sval_def is_f64_def on_grid_int[of 1, simplified])

lemma zero_le_fin: "is_fin x \<Longrightarrow> 0 \<le> x \<longleftrightarrow> 0 \<le> fv x"
  by (simp add: fin_le)

lemma Inf_cmp: "x \<noteq> NaN \<Longrightarrow> x \<le> Inf False" "x \<noteq> NaN \<Longrightarrow> Inf True \<le> x"
  by (cases x; simp add: float_ord fkey_def less_eq_prod_def)+

lemma Inf_le: "Inf False \<le> x \<longleftrightarrow> x = Inf False"
  by (cases x) (auto simp: float_ord fkey_def less_eq_prod_def split: if_splits)

lemma nonneg_cases:
  assumes "0 \<le> x"
  obtains "x = Inf False" | "is_fin x" "0 \<le> fv x"
  using assms by (cases x) (auto simp: float_ord fkey_def less_eq_prod_def zero_float64_def sval_def fv_def split: if_splits)

lemma f64_Fin_nonneg: "is_f64 (Fin s q) \<Longrightarrow> 0 \<le> q"
  by (simp add: is_f64_def on_grid_def)

lemma rv_key_self: "is_f64 x \<Longrightarrow> is_fin x \<Longrightarrow> fkey (rv (fv x)) = fkey x"
  by (cases x) (simp_all add: fv_def rv_grid, simp add: fkey_def)

lemma mul_key:
  assumes "is_f64 x" "is_f64 y" "is_fin x" "is_fin y"
  shows "x * y \<noteq> NaN \<and> fkey (x * y) = fkey (rv (fv x * fv y))"
proof -
  obtain s a t b where xy: "x = Fin s a" "y = Fin t b" using assms(3,4) by (cases x; cases y) auto
  have "0 \<le> a" "0 \<le> b" using assms(1,2) by (auto simp: xy dest: f64_Fin_nonneg)
  moreover have "sval (s \<noteq> t) (a * b) = sval s a * sval t b" by (simp add: sval_def)
  ultimately show ?thesis by (simp add: xy times_float64_def fv_def fkey_rnd)
qed

lemma div_key:
  assumes "is_f64 x" "is_f64 y" "is_fin x" "is_fin y" "fv y \<noteq> 0"
  shows "x / y \<noteq> NaN \<and> fkey (x / y) = fkey (rv (fv x / fv y))"
proof -
  obtain s a t b where xy: "x = Fin s a" "y = Fin t b" using assms(3,4) by (cases x; cases y) auto
  have "0 \<le> a" "0 \<le> b" using assms(1,2) by (auto simp: xy dest: f64_Fin_nonneg)
  moreover have "b \<noteq> 0" using assms(5) by (simp add: xy fv_def sval_def split: if_splits)
  moreover have "sval (s \<noteq> t) (a / b) = sval s a / sval t b" by (simp add: sval_def)
  ultimately show ?thesis by (simp add: xy divide_float64_def fv_def fkey_rnd)
qed

lemma add_key:
  assumes "is_f64 x" "is_f64 y" "is_fin x" "is_fin y"
  shows "x + y \<noteq> NaN \<and> fkey (x + y) = fkey (rv (fv x + fv y))"
proof -
  obtain s a t b where xy: "x = Fin s a" "y = Fin t b" using assms(3,4) by (cases x; cases y) auto
  then show ?thesis
    by (cases "sval s a + sval t b = 0")
       (simp_all add: plus_float64_def fv_def Let_def rv_def fkey_def rnd_def sval_def)
qed

lemma neg_fin: "is_fin (- x) = is_fin x" "fv (- x) = - fv x" "is_f64 (- x) = is_f64 x"
  by (cases x; simp add: uminus_float64_def fv_def sval_def is_f64_def)+

lemma sub_alt: "x - y = x + - y" for x :: float64
  by (simp add: minus_float64_def plus_float64_def uminus_float64_def)

lemma sub_key:
  assumes "is_f64 x" "is_f64 y" "is_fin x" "is_fin y"
  shows "x - y \<noteq> NaN \<and> fkey (x - y) = fkey (rv (fv x - fv y))"
  using add_key[of x "- y"] assms by (simp add: sub_alt neg_fin)

lemma is_f64_mul: "is_f64 x \<Longrightarrow> is_f64 y \<Longrightarrow> is_f64 (x * y)"
  by (cases x; cases y) (auto simp: times_float64_def is_f64_rnd f64_Fin_nonneg intro: is_f64_rnd, auto simp: is_f64_def)

lemma is_f64_div: "is_f64 x \<Longrightarrow> is_f64 y \<Longrightarrow> is_f64 (x / y)"
  by (cases x; cases y)
     (auto simp: divide_float64_def is_f64_rnd f64_Fin_nonneg, auto simp: is_f64_def on_grid_def)

lemma is_f64_add: "is_f64 x \<Longrightarrow> is_f64 y \<Longrightarrow> is_f64 (x + y)"
  by (cases x; cases y) (auto simp: plus_float64_def is_f64_rnd Let_def, auto simp: is_f64_def on_grid_def)

lemma is_f64_sub: "is_f64 x \<Longrightarrow> is_f64 y \<Longrightarrow> is_f64 (x - y)"
  by (simp add: sub_alt is_f64_add neg_fin)

lemma is_f64_abs: "is_f64 x \<Longrightarrow> is_f64 \<bar>x\<bar>"
  by (cases x) (auto simp: abs_float64_def is_f64_def)

lemma is_f64_lit: "is_f64 (lit r)"
  by (auto simp: lit_def is_f64_rnd)

lemmas is_f64_ops = is_f64_mul is_f64_div is_f64_add is_f64_sub is_f64_abs is_f64_lit fv_0(3) fv_1(3)

lemma lit_key: "lit r \<noteq> NaN \<and> fkey (lit r) = fkey (rv r)"
  by (auto simp: lit_def rv_def zero_float64_def rnd_def fkey_def sval_def Let_def)

section \<open>Monotonicity\<close>

lemma key_leI: "x \<noteq> NaN \<Longrightarrow> y \<noteq> NaN \<Longrightarrow> fkey x = fkey (rv v) \<Longrightarrow> fkey y = fkey (rv w) \<Longrightarrow> v \<le> w \<Longrightarrow> x \<le> y"
  using rv_mono[of v w] by (simp add: float_ord)

lemma mul_pos_Inf: "0 < c \<Longrightarrow> is_fin c \<Longrightarrow> is_f64 c \<Longrightarrow> Inf False * c = Inf False"
  by (cases c) (auto simp: times_float64_def float_ord fkey_def zero_float64_def sval_def is_f64_def on_grid_def split: if_splits)

lemma fmul_mono:
  assumes "is_f64 x" "is_f64 y" "is_f64 c" "is_fin c" "0 < c" "0 \<le> x" "x \<le> y"
  shows "x * c \<le> y * c"
proof (cases "y = Inf False")
  case True
  show ?thesis
  proof (cases "x = Inf False")
    case False
    with assms(6) have "is_fin x" by (auto elim: nonneg_cases)
    with mul_key[of x c] assms have "x * c \<noteq> NaN" by blast
    with True assms show ?thesis by (simp add: mul_pos_Inf Inf_cmp)
  qed (use True assms in \<open>simp add: mul_pos_Inf\<close>)
next
  case False
  have "0 \<le> y" using assms(6,7) by (rule f_le_trans)
  with False have y: "is_fin y" by (auto elim: nonneg_cases)
  have "x \<noteq> Inf False" using assms(7) False by (auto simp: Inf_le)
  with assms(6) have x: "is_fin x" by (auto elim: nonneg_cases)
  have "fv x * fv c \<le> fv y * fv c"
    using assms x y by (intro mult_right_mono) (auto simp: fin_le fin_less)
  with mul_key[of x c] mul_key[of y c] assms x y show ?thesis by (blast intro: key_leI)
qed

lemma fmul_ge_self:
  assumes "is_f64 x" "is_f64 c" "is_fin c" "1 \<le> c" "0 \<le> x"
  shows "x \<le> x * c"
  using assms(5)
proof (cases rule: nonneg_cases)
  case 1
  have "0 < c" using assms by (auto simp: fin_less fin_le)
  with 1 assms show ?thesis by (simp add: mul_pos_Inf)
next
  case 2
  have "fv x \<le> fv x * fv c" using assms 2 mult_left_mono[of 1 "fv c" "fv x"] by (simp add: fin_le)
  with mul_key[of x c] rv_key_self[of x] assms 2 show ?thesis by (metis key_leI is_fin_not_NaN)
qed

lemma fmul_not_NaN: "is_f64 x \<Longrightarrow> is_f64 c \<Longrightarrow> is_fin c \<Longrightarrow> 0 < c \<Longrightarrow> 0 \<le> x \<Longrightarrow> x * c \<noteq> NaN"
  using fmul_mono[of x x c] f_le_not_NaN by fastforce

lemma fmul_le_self:
  assumes "is_f64 x" "is_f64 c" "is_fin c" "0 < c" "c \<le> 1" "0 \<le> x"
  shows "x * c \<le> x"
  using assms(6)
proof (cases rule: nonneg_cases)
  case 1
  with assms show ?thesis by (simp add: mul_pos_Inf)
next
  case 2
  have "fv x * fv c \<le> fv x" using assms 2 mult_left_mono[of "fv c" 1 "fv x"] by (simp add: fin_le)
  with mul_key[of x c] rv_key_self[of x] assms 2 show ?thesis by (metis key_leI is_fin_not_NaN)
qed

lemma on_grid_pow2: "n \<le> 1023 \<Longrightarrow> on_grid (2 ^ n) \<and> 2 ^ n < float_limit"
  using on_grid_dyadic[of 1 "int n"] power_strict_increasing[of n 1024 "2 :: rat"]
  by (simp add: float_limit_def del: power_numeral)

lemma rnd_fin_le:
  assumes "0 \<le> q" "q \<le> b" "on_grid b" "b < float_limit"
  shows "rnd s q = Fin s (rn q) \<and> rn q \<le> b"
proof -
  have "rn q \<le> b" using assms rne.R_le by simp
  with assms(4) show ?thesis by (simp add: rnd_def Let_def)
qed

lemma fmax_ge:
  assumes "x \<noteq> NaN" "y \<noteq> NaN"
  shows "x \<le> fmax x y" and "y \<le> fmax x y" and "fmax x y = x \<or> fmax x y = y"
  using assms Inf_cmp(1)[of x] Inf_cmp(1)[of y]
  by (auto simp: fmax_def float_ord)

lemma fmax_not_NaN: "x \<noteq> NaN \<Longrightarrow> y \<noteq> NaN \<Longrightarrow> fmax x y \<noteq> NaN"
  using fmax_ge(3) by metis

lemma fmax_mono: "x \<le> x' \<Longrightarrow> y \<le> y' \<Longrightarrow> fmax x y \<le> fmax x' y'"
  using fmax_ge[of x y] fmax_ge[of x' y'] f_le_not_NaN f_le_trans by metis

lemma is_f64_fmax: "is_f64 x \<Longrightarrow> is_f64 y \<Longrightarrow> is_f64 (fmax x y)"
  by (auto simp: fmax_def is_f64_def)

section \<open>Accuracy\<close>

lemma rv_rel_err:
  assumes "2 powi (- 1022) \<le> \<bar>v\<bar>" "is_fin (rv v)"
  shows "\<bar>fv (rv v) - v\<bar> \<le> \<bar>v\<bar> * 2 powi (- 53)"
proof -
  have "rv v = Fin (v < 0) (rn \<bar>v\<bar>)" using assms(2) by (auto simp: rv_def rnd_def Let_def split: if_splits)
  then have "\<bar>fv (rv v) - v\<bar> = \<bar>rn \<bar>v\<bar> - \<bar>v\<bar>\<bar>" by (auto simp: fv_def sval_def)
  also have "\<dots> \<le> \<bar>v\<bar> * 2 powi (- 53)" using assms(1) by (rule rn_rel_err)
  finally show ?thesis .
qed

end
