(* ===== verification/GoFmt.thy ===== *)
theory GoFmt
  imports GoFloat
begin

text \<open>
  The parts of Go's \<^verbatim>\<open>fmt\<close>, \<^verbatim>\<open>strconv\<close> and \<^verbatim>\<open>errors\<close> that the program's texts are made
  with: decimal integers, the fixed-point verbs \<^verbatim>\<open>%.0f\<close>, \<^verbatim>\<open>%.1f\<close> and \<^verbatim>\<open>%.3f\<close>, the quoting
  verb \<^verbatim>\<open>%q\<close> and error values.  A Go string is its list of bytes.
\<close>

section \<open>Decimal numerals\<close>

function dec :: "nat \<Rightarrow> string" where
  "dec n = (if n < 10 then [''0123456789'' ! n] else dec (n div 10) @ [''0123456789'' ! (n mod 10)])"
  by pat_completeness auto
termination
  by (relation "measure id") auto

declare dec.simps [simp del]
lemmas [float_eval] = dec.simps[of "numeral _"] dec.simps[of 0] dec.simps[of "Suc 0"]

definition pad0 :: "nat \<Rightarrow> string \<Rightarrow> string" where
  "pad0 w s = replicate (w - length s) CHR ''0'' @ s"

lemma replicate_eval [float_eval]: "replicate (numeral n) x = x # replicate (pred_numeral n) x"
  by (simp add: numeral_eq_Suc)

lemma dec_nonempty: "dec n \<noteq> []"
  by (subst dec.simps) simp

text \<open>
  Verb \<^verbatim>\<open>%.<p>f\<close>: the exact value rounded half to even at the \<open>p\<close>-th decimal; a sign for
  negative values (and for the negative zero), \<^verbatim>\<open>+Inf\<close>, \<^verbatim>\<open>-Inf\<close> and \<^verbatim>\<open>NaN\<close>.
\<close>

definition fmt_f :: "nat \<Rightarrow> float64 \<Rightarrow> string" where
  "fmt_f p x =
     (case x of
        NaN \<Rightarrow> ''NaN''
      | Inf s \<Rightarrow> (if s then ''-Inf'' else ''+Inf'')
      | Fin s q \<Rightarrow>
          (let n = nat (rhe (q * 10 ^ p))
           in (if s then ''-'' else []) @ dec (n div 10 ^ p)
              @ (if p = 0 then [] else ''.'' @ pad0 p (dec (n mod 10 ^ p)))))"

lemma fmt_f_nonempty: "fmt_f p x \<noteq> []"
  by (auto simp: fmt_f_def dec_nonempty Let_def split: float64.splits)

section \<open>Quoting\<close>

text \<open>
  \<^verbatim>\<open>strconv.Quote\<close> on ASCII text: the named escapes, \<^verbatim>\<open>\x..\<close> for the other control bytes.  Bytes
  above 127 are kept, as \<^verbatim>\<open>%q\<close> keeps printable Unicode text.
\<close>

definition hex2 :: "nat \<Rightarrow> string" where
  "hex2 n = [''0123456789abcdef'' ! (n div 16), ''0123456789abcdef'' ! (n mod 16)]"

definition quote_char :: "char \<Rightarrow> string" where
  "quote_char c =
     (let n = of_char c :: nat
      in if n = 34 \<or> n = 92 then [CHR 0x5C, c]
         else if n = 7 then [CHR 0x5C, CHR ''a'']
         else if n = 8 then [CHR 0x5C, CHR ''b'']
         else if n = 9 then [CHR 0x5C, CHR ''t'']
         else if n = 10 then [CHR 0x5C, CHR ''n'']
         else if n = 11 then [CHR 0x5C, CHR ''v'']
         else if n = 12 then [CHR 0x5C, CHR ''f'']
         else if n = 13 then [CHR 0x5C, CHR ''r'']
         else if n < 32 \<or> n = 127 then [CHR 0x5C, CHR ''x''] @ hex2 n
         else [c])"

definition go_quote :: "string \<Rightarrow> string" where
  "go_quote s = [CHR 0x22] @ concat (map quote_char s) @ [CHR 0x22]"

section \<open>Errors\<close>

text \<open>
  What the program can observe of an error of the API machinery: its text and whether
  \<^verbatim>\<open>errors.IsNotFound\<close> holds of it.  The program's own errors are texts, some of them wrapping
  another error (\<^verbatim>\<open>fmt.Errorf\<close> with \<^verbatim>\<open>%w\<close>).
\<close>

record api_error =
  ae_text :: string
  ae_not_found :: bool

datatype goerr = ApiErr api_error | Errorf string | Wrapf string goerr

fun err_text :: "goerr \<Rightarrow> string" where
  "err_text (ApiErr e) = ae_text e"
| "err_text (Errorf s) = s"
| "err_text (Wrapf s e) = s @ '': '' @ err_text e"

end
