(* ===== verification/Calculator.thy ===== *)
theory Calculator
  imports GoFmt
begin

text \<open>
  Package \<^verbatim>\<open>internal/calculator\<close>: the recommendation algorithm.  The structs are records, the
  arithmetic is \<^verbatim>\<open>float64\<close> arithmetic (one rounding per operation, in the order of the source),
  the error return is the left of a sum.
\<close>

section \<open>Data\<close>

record ResourceUsage =
  ru_ContainerName :: string
  ru_CPUCoresAvg :: float64
  ru_CPUCoresPeak :: float64
  ru_MemoryBytesAvg :: float64
  ru_MemoryBytesPeak :: float64

record ResourceAllocation =
  ra_ContainerName :: string
  ra_CPUCoresRequest :: float64
  ra_CPUCoresLimit :: float64
  ra_MemoryBytesRequest :: float64
  ra_MemoryBytesLimit :: float64

record ResourceRecommendation =
  rr_ContainerName :: string
  rr_CPUCoresRequest :: float64
  rr_CPUCoresLimit :: float64
  rr_MemoryBytesRequest :: float64
  rr_MemoryBytesLimit :: float64
  rr_CPUVariancePercent :: float64
  rr_MemoryVariancePercent :: float64
  rr_SignificantVariance :: bool

record Config =
  CPURequestMarginPercent :: float64
  MemoryRequestMarginPercent :: float64
  LimitToRequestRatio :: float64
  PeakDampeningCPU :: float64
  PeakDampeningMemory :: float64
  VarianceThresholdPercent :: float64

definition DefaultConfig :: Config where
  "DefaultConfig =
     \<lparr>CPURequestMarginPercent = lit 20, MemoryRequestMarginPercent = lit 25,
      LimitToRequestRatio = lit (15 / 10), PeakDampeningCPU = lit (8 / 10),
      PeakDampeningMemory = lit (9 / 10), VarianceThresholdPercent = lit 15\<rparr>"

record Constraints =
  cst_MinCPUCores :: float64
  cst_MaxCPUCores :: float64
  cst_MinMemoryBytes :: float64
  cst_MaxMemoryBytes :: float64

definition DefaultConstraints :: Constraints where
  "DefaultConstraints =
     \<lparr>cst_MinCPUCores = lit (1 / 100), cst_MaxCPUCores = lit 16,
      cst_MinMemoryBytes = lit (16 * 1024 * 1024),
      cst_MaxMemoryBytes = lit (64 * 1024 * 1024 * 1024)\<rparr>"

section \<open>Operations\<close>

definition clamp :: "float64 \<Rightarrow> float64 \<Rightarrow> float64 \<Rightarrow> float64" where
  "clamp v mn mx = (if v < mn then mn else if v > mx then mx else v)"

definition variancePercent :: "float64 \<Rightarrow> float64 \<Rightarrow> float64" where
  "variancePercent recommended current =
     (if feq current 0 then lit 100 else \<bar>recommended - current\<bar> / current * lit 100)"

text \<open>
  The CPU half and the memory half of \<^verbatim>\<open>Calculate\<close> are the same five statements on different
  fields; they share a definition.
\<close>

definition request_limit ::
  "float64 \<Rightarrow> float64 \<Rightarrow> float64 \<Rightarrow> float64 \<Rightarrow> float64 \<Rightarrow> float64 \<Rightarrow> float64 \<Rightarrow> float64 \<times> float64" where
  "request_limit avg peak dampening margin ratio mn mx =
     (let base = fmax avg (peak * dampening);
          req = base * (lit 1 + margin / lit 100);
          req = clamp req mn mx;
          lmt = req * ratio;
          lmt = clamp lmt mn mx
      in (req, lmt))"

definition Calculate ::
  "ResourceUsage \<Rightarrow> ResourceAllocation \<Rightarrow> Config \<Rightarrow> Constraints \<Rightarrow> goerr + ResourceRecommendation" where
  "Calculate usage alloc cfg constraints =
     (if ru_ContainerName usage = [] then Inl (Errorf ''container name must not be empty'')
      else
        let (cpuReq, cpuLim) =
              request_limit (ru_CPUCoresAvg usage) (ru_CPUCoresPeak usage) (PeakDampeningCPU cfg)
                (CPURequestMarginPercent cfg) (LimitToRequestRatio cfg)
                (cst_MinCPUCores constraints) (cst_MaxCPUCores constraints);
            (memReq, memLim) =
              request_limit (ru_MemoryBytesAvg usage) (ru_MemoryBytesPeak usage) (PeakDampeningMemory cfg)
                (MemoryRequestMarginPercent cfg) (LimitToRequestRatio cfg)
                (cst_MinMemoryBytes constraints) (cst_MaxMemoryBytes constraints);
            cpuVar = variancePercent cpuReq (ra_CPUCoresRequest alloc);
            memVar = variancePercent memReq (ra_MemoryBytesRequest alloc);
            sig = (cpuVar \<ge> VarianceThresholdPercent cfg \<or> memVar \<ge> VarianceThresholdPercent cfg)
        in Inr \<lparr>rr_ContainerName = ru_ContainerName usage,
                rr_CPUCoresRequest = cpuReq, rr_CPUCoresLimit = cpuLim,
                rr_MemoryBytesRequest = memReq, rr_MemoryBytesLimit = memLim,
                rr_CPUVariancePercent = cpuVar, rr_MemoryVariancePercent = memVar,
                rr_SignificantVariance = sig\<rparr>)"

section \<open>The contract of a clamp\<close>

text \<open>
  The program has two clamps (here and in the controller); what their callers rely on is
  proved once, from the three cases of the contract.
\<close>

locale float_clamp =
  fixes cl :: "float64 \<Rightarrow> float64 \<Rightarrow> float64 \<Rightarrow> float64"
  assumes cl_below: "v < lo \<Longrightarrow> cl v lo hi = lo"
    and cl_above: "\<not> v < lo \<Longrightarrow> hi < v \<Longrightarrow> cl v lo hi = hi"
    and cl_inside: "\<not> v < lo \<Longrightarrow> \<not> hi < v \<Longrightarrow> cl v lo hi = v"
begin

lemma cl_eq: "cl v lo hi = (if v < lo then lo else if hi < v then hi else v)"
  using cl_below cl_above cl_inside by simp

lemma bounds: "v \<noteq> NaN \<Longrightarrow> lo \<le> hi \<Longrightarrow> lo \<le> cl v lo hi \<and> cl v lo hi \<le> hi"
  by (auto simp: cl_eq float_ord)

lemma not_NaN: "v \<noteq> NaN \<Longrightarrow> lo \<le> hi \<Longrightarrow> cl v lo hi \<noteq> NaN"
  using bounds f_le_not_NaN by blast

lemma mono: "v \<le> w \<Longrightarrow> lo \<le> hi \<Longrightarrow> cl v lo hi \<le> cl w lo hi"
  by (auto simp: cl_eq float_ord)

lemma keeps: "lo \<le> v \<Longrightarrow> v \<le> hi \<Longrightarrow> cl v lo hi = v"
  by (auto simp: cl_eq float_ord)

lemma idem: "v \<noteq> NaN \<Longrightarrow> lo \<le> hi \<Longrightarrow> cl (cl v lo hi) lo hi = cl v lo hi"
  using bounds keeps by blast

lemma ge_or_capped: "x \<le> v \<Longrightarrow> lo \<le> hi \<Longrightarrow> x \<le> cl v lo hi \<or> cl v lo hi = hi"
  by (auto simp: cl_eq float_ord)

lemma ge_inside: "x \<le> v \<Longrightarrow> x \<le> hi \<Longrightarrow> lo \<le> hi \<Longrightarrow> x \<le> cl v lo hi"
  by (auto simp: cl_eq float_ord)

lemma f64: "is_f64 v \<Longrightarrow> is_f64 lo \<Longrightarrow> is_f64 hi \<Longrightarrow> is_f64 (cl v lo hi)"
  by (simp add: cl_eq)

lemma NaN_through: "cl NaN lo hi = NaN"
  by (simp add: cl_eq)

end

interpretation calc_clamp: float_clamp clamp
  by unfold_locales (simp_all add: clamp_def)


section \<open>Admissible inputs\<close>

text \<open>
  Usage is non-negative, margins are non-negative, a limit is at least the request, the bounds
  are ordered.  The infinities are allowed as usage.
\<close>

definition usage_value :: "float64 \<Rightarrow> bool" where
  "usage_value x \<longleftrightarrow> is_f64 x \<and> 0 \<le> x"

definition usage_ok :: "ResourceUsage \<Rightarrow> bool" where
  "usage_ok u \<longleftrightarrow> usage_value (ru_CPUCoresAvg u) \<and> usage_value (ru_CPUCoresPeak u) \<and>
     usage_value (ru_MemoryBytesAvg u) \<and> usage_value (ru_MemoryBytesPeak u)"

definition factor_ok :: "float64 \<Rightarrow> bool" where
  "factor_ok x \<longleftrightarrow> is_f64 x \<and> is_fin x \<and> 0 < x"

definition margin_ok :: "float64 \<Rightarrow> bool" where
  "margin_ok x \<longleftrightarrow> is_f64 x \<and> is_fin x \<and> 0 \<le> x"

definition config_ok :: "Config \<Rightarrow> bool" where
  "config_ok cfg \<longleftrightarrow> margin_ok (CPURequestMarginPercent cfg) \<and> margin_ok (MemoryRequestMarginPercent cfg) \<and>
     factor_ok (PeakDampeningCPU cfg) \<and> factor_ok (PeakDampeningMemory cfg) \<and>
     factor_ok (LimitToRequestRatio cfg) \<and> 1 \<le> LimitToRequestRatio cfg"

definition bounds_ok :: "float64 \<Rightarrow> float64 \<Rightarrow> bool" where
  "bounds_ok mn mx \<longleftrightarrow> is_f64 mn \<and> is_f64 mx \<and> 0 \<le> mn \<and> mn \<le> mx"

definition constraints_ok :: "Constraints \<Rightarrow> bool" where
  "constraints_ok c \<longleftrightarrow> bounds_ok (cst_MinCPUCores c) (cst_MaxCPUCores c) \<and>
     bounds_ok (cst_MinMemoryBytes c) (cst_MaxMemoryBytes c)"

lemma DefaultConfig_ok: "config_ok DefaultConfig"
  by (simp add: config_ok_def DefaultConfig_def margin_ok_def factor_ok_def is_f64_lit)
     (simp add: float_eval)

lemma DefaultConstraints_ok: "constraints_ok DefaultConstraints"
  by (simp add: constraints_ok_def DefaultConstraints_def bounds_ok_def is_f64_lit)
     (simp add: float_eval)

section \<open>The margin factor\<close>

lemma lit_100: "lit 100 = Fin False 100" "lit 1 = Fin False 1"
  by (simp_all add: float_eval)

lemma margin_factor:
  assumes "margin_ok m"
  defines "c \<equiv> lit 1 + m / lit 100"
  shows "is_f64 c" and "is_fin c" and "1 \<le> c"
proof -
  obtain s q where m: "m = Fin s q" using assms(1) by (cases m) (auto simp: margin_ok_def)
  have f: "is_f64 m" "is_fin m" using assms(1) by (auto simp: margin_ok_def)
  show "is_f64 c" by (simp add: c_def is_f64_ops f)
  define b where "b = (2 :: rat) ^ 1018"
  have b: "float_limit = 64 * b" "on_grid b" "b < float_limit" "on_grid (2 * b)" "2 * b < float_limit" "1 \<le> b"
    using on_grid_pow2[of 1018] on_grid_pow2[of 1019] by (simp_all add: b_def float_limit_def)
  have q: "0 \<le> q" "q < float_limit" "0 \<le> fv m"
    using assms(1) f_le_not_NaN by (auto simp: margin_ok_def m is_f64_def on_grid_def zero_le_fin)
  then have "q / 100 \<le> b" using b(1) by simp
  then have d: "m / Fin False 100 = Fin s (rn (q / 100))" "rn (q / 100) \<le> b"
    using rnd_fin_le[of "q / 100" b s] q b by (simp_all add: m divide_float64_def)
  have r0: "0 \<le> rn (q / 100)" using q(1) by (simp add: rn_nonneg)
  define d where "d = sval s (rn (q / 100))"
  have "s \<Longrightarrow> q = 0" using q by (simp add: m fv_def sval_def)
  then have d0: "0 \<le> d" "d \<le> b" using r0 d(2) b(6) by (auto simp: d_def sval_def)
  then have "1 + d \<le> 2 * b" using b(6) by simp
  with d0 have k: "rnd False (1 + d) = Fin False (rn (1 + d))"
    using rnd_fin_le[of "1 + d" "2 * b" False] b by simp
  have "sval False 1 + sval s (rn (q / 100)) = 1 + d" by (simp add: d_def sval_def)
  then have c: "c = rnd False (1 + d)"
    using d0 by (simp add: c_def d(1) lit_100 plus_float64_def Let_def)
  show "is_fin c" by (simp add: c k)
  have "1 \<le> rn (1 + d)" using d0 on_grid_int[of 1] by (intro rne.R_ge) auto
  then show "1 \<le> c" by (simp add: c k fin_le) (simp add: fv_def sval_def)
qed


section \<open>One resource: request and limit\<close>

text \<open>The unclamped request: the larger of average and damped peak, plus the margin.\<close>

definition raw_request :: "float64 \<Rightarrow> float64 \<Rightarrow> float64 \<Rightarrow> float64 \<Rightarrow> float64" where
  "raw_request avg peak dampening margin = fmax avg (peak * dampening) * (lit 1 + margin / lit 100)"

lemma request_limit_eq:
  "request_limit avg peak dampening margin ratio mn mx =
     (clamp (raw_request avg peak dampening margin) mn mx,
      clamp (clamp (raw_request avg peak dampening margin) mn mx * ratio) mn mx)"
  by (simp add: request_limit_def raw_request_def Let_def)

lemma base_ok:
  assumes "usage_value avg" "usage_value peak" "factor_ok dampening"
  shows "is_f64 (fmax avg (peak * dampening))" "avg \<le> fmax avg (peak * dampening)"
    "peak * dampening \<le> fmax avg (peak * dampening)" "0 \<le> fmax avg (peak * dampening)"
proof -
  have n: "avg \<noteq> NaN" "peak * dampening \<noteq> NaN" "is_f64 avg" "is_f64 (peak * dampening)" "0 \<le> avg"
    using assms f_le_not_NaN[of 0 avg]
    by (auto simp: usage_value_def factor_ok_def fmul_not_NaN is_f64_mul)
  show "is_f64 (fmax avg (peak * dampening))" using n by (simp add: is_f64_fmax)
  show "avg \<le> fmax avg (peak * dampening)" "peak * dampening \<le> fmax avg (peak * dampening)"
    using n by (auto intro: fmax_ge)
  with n(5) show "0 \<le> fmax avg (peak * dampening)" by (blast intro: f_le_trans)
qed

lemma raw_request_ok:
  assumes "usage_value avg" "usage_value peak" "factor_ok dampening" "margin_ok margin"
  shows "is_f64 (raw_request avg peak dampening margin)"
    "fmax avg (peak * dampening) \<le> raw_request avg peak dampening margin"
    "raw_request avg peak dampening margin \<noteq> NaN"
proof -
  note b = base_ok[OF assms(1-3)] and f = margin_factor[OF assms(4)]
  show "is_f64 (raw_request avg peak dampening margin)"
    unfolding raw_request_def by (intro is_f64_mul b f)
  show g: "fmax avg (peak * dampening) \<le> raw_request avg peak dampening margin"
    unfolding raw_request_def by (intro fmul_ge_self b f)
  then show "raw_request avg peak dampening margin \<noteq> NaN" by (blast dest: f_le_not_NaN)
qed

lemma factor_less: "1 \<le> c \<Longrightarrow> 0 < c" for c :: float64
  by (cases c) (auto simp: float_ord fkey_def less_eq_prod_def less_prod_def zero_float64_def one_float64_def sval_def split: if_splits)

lemma raw_request_mono:
  assumes "usage_value a" "usage_value p" "usage_value a'" "usage_value p'"
    "factor_ok d" "margin_ok m" "a \<le> a'" "p \<le> p'"
  shows "raw_request a p d m \<le> raw_request a' p' d m"
proof -
  note b = base_ok[OF assms(1,2,5)] and b' = base_ok[OF assms(3,4,5)] and f = margin_factor[OF assms(6)]
  have "p * d \<le> p' * d" using assms by (intro fmul_mono) (auto simp: usage_value_def factor_ok_def)
  then have "fmax a (p * d) \<le> fmax a' (p' * d)" using assms(7) by (intro fmax_mono)
  then show ?thesis unfolding raw_request_def using f by (intro fmul_mono b b' f factor_less)
qed

lemma request_bounds:
  assumes "usage_value avg" "usage_value peak" "factor_ok d" "margin_ok m" "factor_ok r" "1 \<le> r"
    "bounds_ok mn mx" "request_limit avg peak d m r mn mx = (req, lmt)"
  shows "is_f64 req" "is_f64 lmt" "mn \<le> req" "req \<le> lmt" "lmt \<le> mx"
    "avg \<le> req \<or> req = mx" "peak * d \<le> req \<or> req = mx"
proof -
  note raw = raw_request_ok[OF assms(1-4)]
  have b: "is_f64 mn" "is_f64 mx" "0 \<le> mn" "mn \<le> mx" using assms(7) by (auto simp: bounds_ok_def)
  have req: "req = clamp (raw_request avg peak d m) mn mx" and lmt: "lmt = clamp (req * r) mn mx"
    using assms(8) by (auto simp: request_limit_eq)
  show f: "is_f64 req" unfolding req by (intro calc_clamp.f64 raw b)
  have rb: "mn \<le> req \<and> req \<le> mx" unfolding req by (intro calc_clamp.bounds raw b)
  then show "mn \<le> req" by blast
  have r: "is_f64 r" "is_fin r" using assms(5) by (auto simp: factor_ok_def)
  have "0 \<le> req" using b(3) rb by (blast intro: f_le_trans)
  then have s: "req \<le> req * r" using f r assms(6) by (intro fmul_ge_self)
  then have lb: "mn \<le> lmt \<and> lmt \<le> mx" unfolding lmt using f_le_not_NaN b by (intro calc_clamp.bounds) auto
  then show "lmt \<le> mx" by blast
  show "is_f64 lmt" unfolding lmt by (intro calc_clamp.f64 is_f64_mul f r b)
  show "req \<le> lmt" unfolding lmt using s rb b by (intro calc_clamp.ge_inside) auto
  note base = base_ok[OF assms(1-3)]
  show "avg \<le> req \<or> req = mx" unfolding req using base(2) raw(2) b(4)
    by (intro calc_clamp.ge_or_capped) (auto intro: f_le_trans)
  show "peak * d \<le> req \<or> req = mx" unfolding req using base(3) raw(2) b(4)
    by (intro calc_clamp.ge_or_capped) (auto intro: f_le_trans)
qed

lemma request_limit_mono:
  assumes "usage_value a" "usage_value p" "usage_value a'" "usage_value p'" "a \<le> a'" "p \<le> p'"
    "factor_ok d" "margin_ok m" "factor_ok r" "1 \<le> r" "bounds_ok mn mx"
    "request_limit a p d m r mn mx = (req, lmt)" "request_limit a' p' d m r mn mx = (req', lmt')"
  shows "req \<le> req'" "lmt \<le> lmt'"
proof -
  have b: "mn \<le> mx" "0 \<le> mn" using assms(11) by (auto simp: bounds_ok_def)
  note B = request_bounds[OF assms(1,2,7-12)] and B' = request_bounds[OF assms(3,4,7-11,13)]
  have e: "req = clamp (raw_request a p d m) mn mx" "req' = clamp (raw_request a' p' d m) mn mx"
    "lmt = clamp (req * r) mn mx" "lmt' = clamp (req' * r) mn mx"
    using assms(12,13) by (auto simp: request_limit_eq)
  show m: "req \<le> req'" unfolding e(1,2) using assms b by (intro calc_clamp.mono raw_request_mono)
  have "req * r \<le> req' * r"
    using assms(9,10) b B B' m by (intro fmul_mono) (auto simp: factor_ok_def intro: f_le_trans)
  then show "lmt \<le> lmt'" unfolding e(3,4) using b by (intro calc_clamp.mono)
qed

section \<open>Variance\<close>

lemma variance_same:
  assumes "is_f64 x" "is_fin x" "0 < x"
  shows "variancePercent x x = Fin False 0"
proof -
  obtain s q where x: "x = Fin s q" using assms(2) by (cases x) auto
  have "0 < fv x" using assms fin_less[of 0 x] by simp
  moreover have "0 \<le> q" using assms(1) by (auto simp: x intro: f64_Fin_nonneg)
  ultimately have "q \<noteq> 0" "\<not> s" by (auto simp: x fv_def sval_def split: if_splits)
  then show ?thesis
    by (simp add: x variancePercent_def lit_100 float_arith_defs feq_def fkey_def sval_def Let_def rnd_def)
qed

lemma variance_zero_alloc: "variancePercent x 0 = lit 100" "variancePercent x (Fin True 0) = lit 100"
  by (simp_all add: variancePercent_def feq_def fkey_def zero_float64_def sval_def)


section \<open>Properties of Calculate\<close>

lemma Calculate_InrD:
  assumes "Calculate u a cfg c = Inr r"
  shows "ru_ContainerName u \<noteq> []" "rr_ContainerName r = ru_ContainerName u"
    "request_limit (ru_CPUCoresAvg u) (ru_CPUCoresPeak u) (PeakDampeningCPU cfg)
       (CPURequestMarginPercent cfg) (LimitToRequestRatio cfg) (cst_MinCPUCores c) (cst_MaxCPUCores c)
     = (rr_CPUCoresRequest r, rr_CPUCoresLimit r)"
    "request_limit (ru_MemoryBytesAvg u) (ru_MemoryBytesPeak u) (PeakDampeningMemory cfg)
       (MemoryRequestMarginPercent cfg) (LimitToRequestRatio cfg) (cst_MinMemoryBytes c) (cst_MaxMemoryBytes c)
     = (rr_MemoryBytesRequest r, rr_MemoryBytesLimit r)"
    "rr_CPUVariancePercent r = variancePercent (rr_CPUCoresRequest r) (ra_CPUCoresRequest a)"
    "rr_MemoryVariancePercent r = variancePercent (rr_MemoryBytesRequest r) (ra_MemoryBytesRequest a)"
    "rr_SignificantVariance r \<longleftrightarrow> rr_CPUVariancePercent r \<ge> VarianceThresholdPercent cfg \<or>
       rr_MemoryVariancePercent r \<ge> VarianceThresholdPercent cfg"
  using assms by (auto simp: Calculate_def Let_def split: if_splits prod.splits)

lemma Calculate_total: "ru_ContainerName u \<noteq> [] \<Longrightarrow> \<exists>r. Calculate u a cfg c = Inr r"
  by (simp add: Calculate_def Let_def split: prod.split)

lemma Calculate_bounds:
  assumes "usage_ok u" "config_ok cfg" "constraints_ok c" "Calculate u a cfg c = Inr r"
  shows "is_f64 (rr_CPUCoresRequest r)" "is_f64 (rr_CPUCoresLimit r)"
    "is_f64 (rr_MemoryBytesRequest r)" "is_f64 (rr_MemoryBytesLimit r)"
    "cst_MinCPUCores c \<le> rr_CPUCoresRequest r" "rr_CPUCoresRequest r \<le> rr_CPUCoresLimit r"
    "rr_CPUCoresLimit r \<le> cst_MaxCPUCores c"
    "cst_MinMemoryBytes c \<le> rr_MemoryBytesRequest r" "rr_MemoryBytesRequest r \<le> rr_MemoryBytesLimit r"
    "rr_MemoryBytesLimit r \<le> cst_MaxMemoryBytes c"
    "ru_CPUCoresAvg u \<le> rr_CPUCoresRequest r \<or> rr_CPUCoresRequest r = cst_MaxCPUCores c"
    "ru_MemoryBytesAvg u \<le> rr_MemoryBytesRequest r \<or> rr_MemoryBytesRequest r = cst_MaxMemoryBytes c"
proof -
  from assms(1-3) have ok: "usage_value (ru_CPUCoresAvg u)" "usage_value (ru_CPUCoresPeak u)"
    "usage_value (ru_MemoryBytesAvg u)" "usage_value (ru_MemoryBytesPeak u)"
    "margin_ok (CPURequestMarginPercent cfg)" "margin_ok (MemoryRequestMarginPercent cfg)"
    "factor_ok (PeakDampeningCPU cfg)" "factor_ok (PeakDampeningMemory cfg)"
    "factor_ok (LimitToRequestRatio cfg)" "1 \<le> LimitToRequestRatio cfg"
    "bounds_ok (cst_MinCPUCores c) (cst_MaxCPUCores c)" "bounds_ok (cst_MinMemoryBytes c) (cst_MaxMemoryBytes c)"
    by (auto simp: usage_ok_def config_ok_def constraints_ok_def)
  have
    cpu: "request_limit (ru_CPUCoresAvg u) (ru_CPUCoresPeak u) (PeakDampeningCPU cfg)
       (CPURequestMarginPercent cfg) (LimitToRequestRatio cfg) (cst_MinCPUCores c) (cst_MaxCPUCores c)
     = (rr_CPUCoresRequest r, rr_CPUCoresLimit r)" and
    mem: "request_limit (ru_MemoryBytesAvg u) (ru_MemoryBytesPeak u) (PeakDampeningMemory cfg)
       (MemoryRequestMarginPercent cfg) (LimitToRequestRatio cfg) (cst_MinMemoryBytes c) (cst_MaxMemoryBytes c)
     = (rr_MemoryBytesRequest r, rr_MemoryBytesLimit r)"
    using Calculate_InrD(3,4)[OF assms(4)] by auto
  note B = request_bounds[OF ok(1,2,7,5,9,10,11) cpu] and M = request_bounds[OF ok(3,4,8,6,9,10,12) mem]
  show "is_f64 (rr_CPUCoresRequest r)" "is_f64 (rr_CPUCoresLimit r)"
    "is_f64 (rr_MemoryBytesRequest r)" "is_f64 (rr_MemoryBytesLimit r)"
    "cst_MinCPUCores c \<le> rr_CPUCoresRequest r" "rr_CPUCoresRequest r \<le> rr_CPUCoresLimit r"
    "rr_CPUCoresLimit r \<le> cst_MaxCPUCores c"
    "cst_MinMemoryBytes c \<le> rr_MemoryBytesRequest r" "rr_MemoryBytesRequest r \<le> rr_MemoryBytesLimit r"
    "rr_MemoryBytesLimit r \<le> cst_MaxMemoryBytes c"
    "ru_CPUCoresAvg u \<le> rr_CPUCoresRequest r \<or> rr_CPUCoresRequest r = cst_MaxCPUCores c"
    "ru_MemoryBytesAvg u \<le> rr_MemoryBytesRequest r \<or> rr_MemoryBytesRequest r = cst_MaxMemoryBytes c"
    by (fact B M)+
qed

text \<open>A concrete container, used by the witnesses: half a core and 256 MiB in use.\<close>

definition sample_usage :: ResourceUsage where
  "sample_usage =
     \<lparr>ru_ContainerName = ''app'', ru_CPUCoresAvg = lit (1 / 2), ru_CPUCoresPeak = lit (1 / 2),
      ru_MemoryBytesAvg = lit 268435456, ru_MemoryBytesPeak = lit 268435456\<rparr>"

definition sample_alloc :: ResourceAllocation where
  "sample_alloc =
     \<lparr>ra_ContainerName = ''app'', ra_CPUCoresRequest = lit 1, ra_CPUCoresLimit = lit 2,
      ra_MemoryBytesRequest = lit 536870912, ra_MemoryBytesLimit = lit 1073741824\<rparr>"

lemma sample_usage_ok: "usage_ok sample_usage"
  by (simp add: usage_ok_def sample_usage_def usage_value_def is_f64_lit) (simp add: float_eval)

definition sample_rec :: ResourceRecommendation where
  "sample_rec =
     \<lparr>rr_ContainerName = ''app'', rr_CPUCoresRequest = Fin False (5404319552844595 / 9007199254740992),
      rr_CPUCoresLimit = Fin False (2026619832316723 / 2251799813685248),
      rr_MemoryBytesRequest = Fin False 335544320, rr_MemoryBytesLimit = Fin False 503316480,
      rr_CPUVariancePercent = Fin False 40,
      rr_MemoryVariancePercent = Fin False (75 / 2),
      rr_SignificantVariance = True\<rparr>"

lemma sample_Calculate: "Calculate sample_usage sample_alloc DefaultConfig DefaultConstraints = Inr sample_rec"
  by (simp add: Calculate_def request_limit_def sample_usage_def sample_alloc_def DefaultConfig_def
      DefaultConstraints_def clamp_def variancePercent_def fmax_def sample_rec_def float_eval)
text \<open>
  C9. For admissible usage, configuration and bounds, every recommendation lies inside the
  bounds: minimum \<open>\<le>\<close> request \<open>\<le>\<close> limit \<open>\<le>\<close> maximum, for CPU and for memory.
\<close>

theorem Calculate_within_constraints:
  assumes "usage_ok u" and "config_ok cfg" and "constraints_ok c" and "Calculate u a cfg c = Inr r"
  shows "cst_MinCPUCores c \<le> rr_CPUCoresRequest r \<and> rr_CPUCoresRequest r \<le> rr_CPUCoresLimit r
       \<and> rr_CPUCoresLimit r \<le> cst_MaxCPUCores c
       \<and> cst_MinMemoryBytes c \<le> rr_MemoryBytesRequest r \<and> rr_MemoryBytesRequest r \<le> rr_MemoryBytesLimit r
       \<and> rr_MemoryBytesLimit r \<le> cst_MaxMemoryBytes c"
  using Calculate_bounds[OF assms] by blast


theorem Calculate_within_constraints_witness:
  "cst_MinCPUCores DefaultConstraints \<le> rr_CPUCoresRequest sample_rec
   \<and> rr_MemoryBytesLimit sample_rec \<le> cst_MaxMemoryBytes DefaultConstraints"
  using Calculate_within_constraints[OF sample_usage_ok DefaultConfig_ok DefaultConstraints_ok sample_Calculate]
  by blast

text \<open>
  C20. A recommendation is never below what the container was observed to use, unless it is the
  configured maximum: the request covers the average usage or equals the upper bound.
\<close>

theorem Calculate_covers_usage:
  assumes "usage_ok u" and "config_ok cfg" and "constraints_ok c" and "Calculate u a cfg c = Inr r"
  shows "(ru_CPUCoresAvg u \<le> rr_CPUCoresRequest r \<or> rr_CPUCoresRequest r = cst_MaxCPUCores c)
       \<and> (ru_MemoryBytesAvg u \<le> rr_MemoryBytesRequest r \<or> rr_MemoryBytesRequest r = cst_MaxMemoryBytes c)"
  using Calculate_bounds[OF assms] by blast

theorem Calculate_covers_usage_witness:
  "ru_CPUCoresAvg sample_usage \<le> rr_CPUCoresRequest sample_rec \<or> rr_CPUCoresRequest sample_rec = cst_MaxCPUCores DefaultConstraints"
  using Calculate_covers_usage[OF sample_usage_ok DefaultConfig_ok DefaultConstraints_ok sample_Calculate]
  by blast

text \<open>A container that uses twice as much and peaks at four times the CPU.\<close>

definition busy_usage :: ResourceUsage where
  "busy_usage =
     \<lparr>ru_ContainerName = ''app'', ru_CPUCoresAvg = lit 1, ru_CPUCoresPeak = lit 2,
      ru_MemoryBytesAvg = lit 536870912, ru_MemoryBytesPeak = lit 536870912\<rparr>"

lemma busy_usage_ok: "usage_ok busy_usage"
  by (simp add: usage_ok_def busy_usage_def usage_value_def is_f64_lit) (simp add: float_eval)

definition busy_rec :: ResourceRecommendation where
  "busy_rec =
     \<lparr>rr_ContainerName = ''app'', rr_CPUCoresRequest = Fin False (1080863910568919/562949953421312),
      rr_CPUCoresLimit = Fin False (3242591731706757/1125899906842624),
      rr_MemoryBytesRequest = Fin False 671088640, rr_MemoryBytesLimit = Fin False 1006632960,
      rr_CPUVariancePercent = Fin False (92), rr_MemoryVariancePercent = Fin False 25,
      rr_SignificantVariance = True\<rparr>"

lemma busy_Calculate: "Calculate busy_usage sample_alloc DefaultConfig DefaultConstraints = Inr busy_rec"
  by (simp add: Calculate_def request_limit_def busy_usage_def sample_alloc_def DefaultConfig_def
      DefaultConstraints_def clamp_def variancePercent_def fmax_def busy_rec_def float_eval)

text \<open>
  C29. Recommendations are monotone in usage: a container that uses at least as much of both
  resources gets at least the same requests and limits.
\<close>

theorem Calculate_monotone:
  assumes "usage_ok u" and "usage_ok u'" and "config_ok cfg" and "constraints_ok c"
    and "ru_CPUCoresAvg u \<le> ru_CPUCoresAvg u'" and "ru_CPUCoresPeak u \<le> ru_CPUCoresPeak u'"
    and "ru_MemoryBytesAvg u \<le> ru_MemoryBytesAvg u'" and "ru_MemoryBytesPeak u \<le> ru_MemoryBytesPeak u'"
    and "Calculate u a cfg c = Inr r" and "Calculate u' a' cfg c = Inr r'"
  shows "rr_CPUCoresRequest r \<le> rr_CPUCoresRequest r' \<and> rr_CPUCoresLimit r \<le> rr_CPUCoresLimit r'
       \<and> rr_MemoryBytesRequest r \<le> rr_MemoryBytesRequest r' \<and> rr_MemoryBytesLimit r \<le> rr_MemoryBytesLimit r'"
proof -
  note D = Calculate_InrD(3,4)[OF assms(9)] Calculate_InrD(3,4)[OF assms(10)]
  show ?thesis
    using assms(1-8) request_limit_mono[OF _ _ _ _ _ _ _ _ _ _ _ D(1) D(3)]
      request_limit_mono[OF _ _ _ _ _ _ _ _ _ _ _ D(2) D(4)]
    by (simp add: usage_ok_def config_ok_def constraints_ok_def)
qed

theorem Calculate_monotone_witness:
  "ru_CPUCoresAvg sample_usage < ru_CPUCoresAvg busy_usage \<and> ru_MemoryBytesAvg sample_usage < ru_MemoryBytesAvg busy_usage
   \<and> rr_CPUCoresRequest sample_rec \<le> rr_CPUCoresRequest busy_rec \<and> rr_MemoryBytesLimit sample_rec \<le> rr_MemoryBytesLimit busy_rec
   \<and> rr_CPUCoresRequest sample_rec \<noteq> rr_CPUCoresRequest busy_rec"
proof -
  have u: "ru_CPUCoresAvg sample_usage < ru_CPUCoresAvg busy_usage" "ru_CPUCoresPeak sample_usage < ru_CPUCoresPeak busy_usage"
    "ru_MemoryBytesAvg sample_usage < ru_MemoryBytesAvg busy_usage" "ru_MemoryBytesPeak sample_usage < ru_MemoryBytesPeak busy_usage"
    by (simp_all add: sample_usage_def busy_usage_def float_eval)
  from Calculate_monotone[OF sample_usage_ok busy_usage_ok DefaultConfig_ok DefaultConstraints_ok
      u[THEN f_less_imp_le] sample_Calculate busy_Calculate] u
  show ?thesis by (simp add: sample_rec_def busy_rec_def)
qed

text \<open>
  No churn: when a recommendation has become the container's allocation, the same usage
  yields the same requests and limits, both variances are zero, and no update is called for
  (with positive minimum bounds, finite maximum bounds and a positive threshold).
\<close>

lemma Calculate_stable:
  assumes "usage_ok u" and "config_ok cfg" and "constraints_ok c" and "Calculate u a cfg c = Inr r"
    and "0 < cst_MinCPUCores c" and "0 < cst_MinMemoryBytes c"
    and "is_fin (cst_MaxCPUCores c)" and "is_fin (cst_MaxMemoryBytes c)"
    and "0 < VarianceThresholdPercent cfg"
  shows "Calculate u (a\<lparr>ra_CPUCoresRequest := rr_CPUCoresRequest r, ra_MemoryBytesRequest := rr_MemoryBytesRequest r\<rparr>) cfg c
       = Inr (r\<lparr>rr_CPUVariancePercent := 0, rr_MemoryVariancePercent := 0, rr_SignificantVariance := False\<rparr>)"
proof -
  note B = Calculate_bounds[OF assms(1-4)]
  have fin: "is_fin x" if "0 < x" "x \<le> y" "is_fin y" for x y
    using that by (cases x; cases y) (auto simp: float_ord fkey_def zero_float64_def sval_def split: if_splits)
  have "0 < rr_CPUCoresRequest r" "0 < rr_MemoryBytesRequest r"
    using B assms(5,6) f_less_le_trans by blast+
  moreover have "is_fin (rr_CPUCoresRequest r)" "is_fin (rr_MemoryBytesRequest r)"
    using calculation B assms(7,8) fin f_le_trans by blast+
  ultimately have v: "variancePercent (rr_CPUCoresRequest r) (rr_CPUCoresRequest r) = 0"
    "variancePercent (rr_MemoryBytesRequest r) (rr_MemoryBytesRequest r) = 0"
    using variance_same B by (simp_all add: zero_float64_def)
  have "\<not> VarianceThresholdPercent cfg \<le> 0" using assms(9) by (auto simp: float_ord)
  then show ?thesis
    using Calculate_InrD[OF assms(4)] by (simp add: Calculate_def v)
qed

text \<open>
  A container without a CPU request or without a memory request always gets an update:
  its variance counts as 100 percent, which reaches every threshold up to 100.  The only error
  is the empty container name.
\<close>

lemma Calculate_unset_allocation:
  assumes "VarianceThresholdPercent cfg \<le> lit 100"
    and "feq (ra_CPUCoresRequest a) 0 \<or> feq (ra_MemoryBytesRequest a) 0"
  shows "case Calculate u a cfg c of
           Inl e \<Rightarrow> ru_ContainerName u = [] \<and> e = Errorf ''container name must not be empty''
         | Inr r \<Rightarrow> ru_ContainerName u \<noteq> [] \<and> rr_SignificantVariance r"
  using assms by (auto simp: Calculate_def variancePercent_def Let_def split: prod.splits)

end
