(* ===== verification/Kube.thy ===== *)
theory Kube
  imports GoFmt
begin

text \<open>
  The Kubernetes objects the program reads and writes, as far as it looks at them, and the
  operations of \<^verbatim>\<open>resource.Quantity\<close> and of \<^verbatim>\<open>unstructured\<close> it calls.  Those operations belong to
  \<^verbatim>\<open>k8s.io/apimachinery\<close>: the type \<open>'q\<close> of quantities is a parameter, and their functions are
  fields of the records \<open>quantity_ops\<close> and \<open>unstructured_ops\<close>, which the definitions take as
  arguments.
\<close>

section \<open>Quantities and resource lists\<close>

record 'q quantity_ops =
  AsApproximateFloat64 :: "'q \<Rightarrow> float64"
  NewMilliQuantity :: "64 word \<Rightarrow> 'q"  \<comment> \<open>in format \<^verbatim>\<open>DecimalSI\<close>\<close>
  NewQuantity :: "64 word \<Rightarrow> 'q"  \<comment> \<open>in format \<^verbatim>\<open>BinarySI\<close>\<close>
  QuantityString :: "'q \<Rightarrow> string"
  ParseQuantity :: "string \<Rightarrow> 'q option"
  ZeroDecimal :: 'q  \<comment> \<open>what \<^verbatim>\<open>Cpu()\<close> gives for a missing entry\<close>
  ZeroBinary :: 'q  \<comment> \<open>what \<^verbatim>\<open>Memory()\<close> gives for a missing entry\<close>
  Int64OutOfRange :: "float64 \<Rightarrow> 64 word"
    \<comment> \<open>the platform's value of \<^verbatim>\<open>int64(x)\<close> when \<open>x\<close> does not fit; Go leaves it open\<close>

text \<open>A \<^verbatim>\<open>corev1.ResourceList\<close> is a Go map: \<open>None\<close> is the nil map, which reads as empty.\<close>

type_synonym 'q ResourceList = "(string \<rightharpoonup> 'q) option"

definition rl_get :: "'q ResourceList \<Rightarrow> string \<Rightarrow> 'q option" where
  "rl_get rl key = (case rl of None \<Rightarrow> None | Some m \<Rightarrow> m key)"

text \<open>Storing into a map that the program has just made sure is not nil.\<close>

definition rl_put :: "'q ResourceList \<Rightarrow> string \<Rightarrow> 'q \<Rightarrow> 'q ResourceList" where
  "rl_put rl key q = Some ((case rl of None \<Rightarrow> Map.empty | Some m \<Rightarrow> m)(key \<mapsto> q))"

abbreviation ResourceCPU :: string where "ResourceCPU \<equiv> ''cpu''"
abbreviation ResourceMemory :: string where "ResourceMemory \<equiv> ''memory''"
abbreviation ResourceRequestsCPU :: string where "ResourceRequestsCPU \<equiv> ''requests.cpu''"
abbreviation ResourceRequestsMemory :: string where "ResourceRequestsMemory \<equiv> ''requests.memory''"

lemma rl_get_simps [simp]:
  "rl_get None k = None" "rl_get (Some m) k = m k"
  "rl_get (rl_put rl k q) k' = (if k' = k then Some q else rl_get rl k')"
  by (auto simp: rl_get_def rl_put_def split: option.splits)

text \<open>
  One possible instance of the quantity operations, on which the hypotheses about them are
  shown to be satisfiable: quantities in thousandths, read and printed with the suffix
  \<^verbatim>\<open>m\<close>.
\<close>

definition digit :: "char \<Rightarrow> int" where
  "digit c = of_char c - 48"

definition parse_digits :: "string \<Rightarrow> int option" where
  "parse_digits s =
     (if 2 \<le> length s \<and> last s = CHR ''m'' \<and> list_all (\<lambda>c. 0 \<le> digit c \<and> digit c \<le> 9) (butlast s)
      then Some (foldl (\<lambda>n c. 10 * n + digit c) 0 (butlast s)) else None)"

definition parse_milli :: "string \<Rightarrow> int option" where
  "parse_milli s =
     (case s of
        [] \<Rightarrow> None
      | c # cs \<Rightarrow> if c = CHR ''-'' then map_option uminus (parse_digits cs) else parse_digits s)"

definition milli_ops :: "int quantity_ops" where
  "milli_ops =
     \<lparr>AsApproximateFloat64 = (\<lambda>n. lit (of_int n / 1000)),
      NewMilliQuantity = (\<lambda>w. sint w), NewQuantity = (\<lambda>w. 1000 * sint w),
      QuantityString = (\<lambda>n. (if n < 0 then ''-'' else []) @ dec (nat \<bar>n\<bar>) @ ''m''),
      ParseQuantity = parse_milli,
      ZeroDecimal = 0, ZeroBinary = 0, Int64OutOfRange = (\<lambda>_. - (2 ^ 63))\<rparr>"

section \<open>Pods and their metrics\<close>

record 'q Container =
  ct_Name :: string
  ct_Requests :: "'q ResourceList"
  ct_Limits :: "'q ResourceList"

record 'q Pod =
  pod_Name :: string
  pod_Namespace :: string
  pod_Phase :: string
  pod_Deleting :: bool  \<comment> \<open>\<^verbatim>\<open>DeletionTimestamp != nil\<close>\<close>
  pod_Annotations :: "(string \<rightharpoonup> string) option"
  pod_Containers :: "'q Container list"

abbreviation PodRunning :: string where "PodRunning \<equiv> ''Running''"

record 'q ContainerMetrics =
  cm_Name :: string
  cm_Usage :: "'q ResourceList"

type_synonym 'q PodMetrics = "'q ContainerMetrics list"

section \<open>LimitRange and ResourceQuota\<close>

record 'q LimitRangeItem =
  li_Type :: string
  li_Min :: "'q ResourceList"
  li_Max :: "'q ResourceList"
  li_Default :: "'q ResourceList"
  li_DefaultRequest :: "'q ResourceList"
  li_MaxLimitRequestRatio :: "'q ResourceList"

abbreviation LimitTypeContainer :: string where "LimitTypeContainer \<equiv> ''Container''"
abbreviation LimitTypePod :: string where "LimitTypePod \<equiv> ''Pod''"

type_synonym 'q LimitRange = "'q LimitRangeItem list"

record 'q ResourceQuota =
  rq_Hard :: "'q ResourceList"
  rq_Used :: "'q ResourceList"

section \<open>Unstructured objects\<close>

text \<open>
  A Go interface value inside an unstructured object: the dynamic types the program asks for,
  and all the others.
\<close>

datatype iface = IStr string | IMap "string \<Rightarrow> iface option" | IList "iface list" | IOther

type_synonym imap = "string \<rightharpoonup> iface"

definition as_string :: "iface option \<Rightarrow> string option" where
  "as_string v = (case v of Some (IStr s) \<Rightarrow> Some s | _ \<Rightarrow> None)"

definition as_map :: "iface option \<Rightarrow> imap option" where
  "as_map v = (case v of Some (IMap m) \<Rightarrow> Some m | _ \<Rightarrow> None)"

text \<open>The three outcomes of \<^verbatim>\<open>(value, found, err)\<close>.\<close>

datatype 'a nested = Found 'a | NotFound | NestedErr

record unstructured_ops =
  NestedMap :: "imap \<Rightarrow> string list \<Rightarrow> imap nested"
  NestedString :: "imap \<Rightarrow> string list \<Rightarrow> string nested"
  NestedSlice :: "imap \<Rightarrow> string list \<Rightarrow> iface list nested"
  GetName :: "imap \<Rightarrow> string"
  GetNamespace :: "imap \<Rightarrow> string"

text \<open>
  One possible instance, which follows the path through nested maps, for the same purpose as
  \<open>milli_ops\<close>.
\<close>

fun lookup_path :: "imap \<Rightarrow> string list \<Rightarrow> iface nested" where
  "lookup_path m [] = Found (IMap m)"
| "lookup_path m [k] = (case m k of None \<Rightarrow> NotFound | Some v \<Rightarrow> Found v)"
| "lookup_path m (k # ks) =
     (case m k of None \<Rightarrow> NotFound | Some v \<Rightarrow> (case as_map (Some v) of Some m' \<Rightarrow> lookup_path m' ks | None \<Rightarrow> NestedErr))"

definition nested_as :: "(iface \<Rightarrow> 'a option) \<Rightarrow> iface nested \<Rightarrow> 'a nested" where
  "nested_as conv r =
     (case r of Found v \<Rightarrow> (case conv v of Some a \<Rightarrow> Found a | None \<Rightarrow> NestedErr) | NotFound \<Rightarrow> NotFound | NestedErr \<Rightarrow> NestedErr)"

definition plain_unstructured :: unstructured_ops where
  "plain_unstructured =
     (let str = (\<lambda>m path. nested_as (\<lambda>v. as_string (Some v)) (lookup_path m path));
          text = (\<lambda>m key. case str m [''metadata'', key] of Found s \<Rightarrow> s | _ \<Rightarrow> [])
      in \<lparr>NestedMap = (\<lambda>m path. nested_as (\<lambda>v. as_map (Some v)) (lookup_path m path)),
          NestedString = str,
          NestedSlice = (\<lambda>m path. nested_as (\<lambda>v. case v of IList l \<Rightarrow> Some l | _ \<Rightarrow> None) (lookup_path m path)),
          GetName = (\<lambda>m. text m ''name''), GetNamespace = (\<lambda>m. text m ''namespace'')\<rparr>)"

lemmas plain_unstructured_simps = plain_unstructured_def nested_as_def as_map_def as_string_def

end
