(* ===== verification/ApiTypes.thy ===== *)
theory ApiTypes
  imports Kube
begin

text \<open>
  Package \<^verbatim>\<open>api/v1alpha1\<close>: the PodAutoscaler resource.  \<open>'s\<close> is the type of
  \<^verbatim>\<open>*metav1.LabelSelector\<close>; a pointer or an optional field is an \<open>option\<close>; integers keep their
  width; times are nanoseconds.
\<close>

section \<open>Phases and update modes\<close>

type_synonym PodAutoscalerPhase = string
abbreviation PhasePending :: PodAutoscalerPhase where "PhasePending \<equiv> ''Pending''"
abbreviation PhaseActive :: PodAutoscalerPhase where "PhaseActive \<equiv> ''Active''"
abbreviation PhaseDegraded :: PodAutoscalerPhase where "PhaseDegraded \<equiv> ''Degraded''"
abbreviation PhaseError :: PodAutoscalerPhase where "PhaseError \<equiv> ''Error''"

type_synonym UpdateMode = string

section \<open>Spec\<close>

record CrossVersionObjectReference =
  ref_Kind :: string
  ref_Name :: string
  ref_APIVersion :: string

record 'q ContainerResourcePolicy =
  crp_ContainerName :: string
  crp_MinAllowed :: "'q ResourceList"
  crp_MaxAllowed :: "'q ResourceList"
  crp_ControlledResources :: "string list"

record 'q ResourcePolicy =
  rp_ContainerPolicies :: "'q ContainerResourcePolicy list"

record VPAPolicy =
  vp_Enabled :: "bool option"
  vp_VPAName :: string
  vp_StrictMode :: bool

record UpdatePolicy =
  up_UpdateMode :: UpdateMode
  up_MaxUnavailable :: "32 word option"

record ('s, 'q) PodAutoscalerSpec =
  sp_Selector :: 's
  sp_TargetRef :: "CrossVersionObjectReference option"
  sp_ResourcePolicy :: "'q ResourcePolicy option"
  sp_UpdatePolicy :: "UpdatePolicy option"
  sp_MetricsCollectionIntervalSeconds :: "32 word option"
  sp_EvaluationWindowMinutes :: "32 word option"
  sp_VarianceThresholdPercent :: "32 word option"
  sp_DryRun :: bool
  sp_VPAPolicy :: "VPAPolicy option"

section \<open>Status\<close>

record 'q ContainerRecommendation =
  cr_ContainerName :: string
  cr_Target :: "'q ResourceList"
  cr_LowerBound :: "'q ResourceList"
  cr_UpperBound :: "'q ResourceList"

type_synonym 'q Recommendation = "'q ContainerRecommendation list"

record VPAIntegrationStatus =
  vs_VPAInstalled :: bool
  vs_MatchingVPAName :: string
  vs_VPAUpdateMode :: string
  vs_UsingVPARecommendations :: bool
  vs_VPAConflict :: string

record NamespaceConstraintsStatus =
  ns_LimitRangeFound :: bool
  ns_ResourceQuotaFound :: bool
  ns_EffectiveMinCPU :: string
  ns_EffectiveMaxCPU :: string
  ns_EffectiveMinMemory :: string
  ns_EffectiveMaxMemory :: string
  ns_ClampReasons :: "string list"

text \<open>\<^verbatim>\<open>metav1.Condition\<close>; a condition status is \<^verbatim>\<open>"True"\<close> or \<^verbatim>\<open>"False"\<close>.\<close>

record Condition =
  cond_Type :: string
  cond_Status :: string
  cond_Reason :: string
  cond_Message :: string
  cond_LastTransitionTime :: int

abbreviation ConditionTrue :: string where "ConditionTrue \<equiv> ''True''"
abbreviation ConditionFalse :: string where "ConditionFalse \<equiv> ''False''"

record 'q PodAutoscalerStatus =
  st_Phase :: PodAutoscalerPhase
  st_Conditions :: "Condition list"
  st_MonitoredPods :: "32 word"
  st_Recommendation :: "'q Recommendation option"
  st_LastEvaluationTime :: "int option"
  st_LastUpdateTime :: "int option"
  st_TotalAdjustments :: "64 word"
  st_ObservedGeneration :: "64 word"
  st_VPAStatus :: "VPAIntegrationStatus option"
  st_NamespaceConstraints :: "NamespaceConstraintsStatus option"

section \<open>The resource\<close>

record ('s, 'q) PodAutoscaler =
  pa_Name :: string
  pa_Namespace :: string
  pa_Generation :: "64 word"
  pa_Deleting :: bool  \<comment> \<open>\<^verbatim>\<open>DeletionTimestamp != nil\<close>\<close>
  pa_Finalizers :: "string list"
  pa_Spec :: "('s, 'q) PodAutoscalerSpec"
  pa_Status :: "'q PodAutoscalerStatus"

end
