(* ===== verification/Cluster.thy ===== *)
theory Cluster
  imports ApiTypes
begin

text \<open>
  The API server and the other libraries the controller calls, as a record of functions over
  an arbitrary state \<open>'w\<close> of the outside world.  Every call returns the next state, so anything
  may happen between two calls.  A call that decodes the server's answer into its argument
  returns that object; a failing call leaves the argument alone.  \<open>'t\<close> is the type of a parsed
  label selector.
\<close>

record ('w, 's, 't, 'q) cluster =
  GetPodAutoscaler :: "string \<Rightarrow> string \<Rightarrow> 'w \<Rightarrow> (api_error + ('s, 'q) PodAutoscaler) \<times> 'w"
  UpdatePodAutoscaler :: "('s, 'q) PodAutoscaler \<Rightarrow> 'w \<Rightarrow> (api_error + ('s, 'q) PodAutoscaler) \<times> 'w"
  UpdateStatus :: "('s, 'q) PodAutoscaler \<Rightarrow> 'w \<Rightarrow> (api_error + ('s, 'q) PodAutoscaler) \<times> 'w"
  ListPods :: "string \<Rightarrow> 't \<Rightarrow> 'w \<Rightarrow> (api_error + 'q Pod list) \<times> 'w"
  PatchPod :: "'q Pod \<Rightarrow> 'q Pod \<Rightarrow> 'w \<Rightarrow> (api_error + 'q Pod) \<times> 'w"
    \<comment> \<open>the base of the merge patch, then the modified pod\<close>
  EvictPod :: "string \<Rightarrow> string \<Rightarrow> 'w \<Rightarrow> api_error option \<times> 'w"
  GetPodMetricsObject :: "string \<Rightarrow> string \<Rightarrow> 'w \<Rightarrow> (api_error + 'q PodMetrics) \<times> 'w"
  ListLimitRanges :: "string \<Rightarrow> 'w \<Rightarrow> (api_error + 'q LimitRange list) \<times> 'w"
  ListResourceQuotas :: "string \<Rightarrow> 'w \<Rightarrow> (api_error + 'q ResourceQuota list) \<times> 'w"
  ListVPAsLimit :: "nat \<Rightarrow> 'w \<Rightarrow> (api_error + imap list) \<times> 'w"
  ListVPAs :: "string \<Rightarrow> 'w \<Rightarrow> (api_error + imap list) \<times> 'w"
  GetVPAObject :: "string \<Rightarrow> string \<Rightarrow> 'w \<Rightarrow> (api_error + imap) \<times> 'w"
  Now :: "'w \<Rightarrow> int \<times> 'w"
  LabelSelectorAsSelector :: "'s \<Rightarrow> goerr + 't"
  ContainsFinalizer :: "string list \<Rightarrow> string \<Rightarrow> bool"
  AddFinalizer :: "string list \<Rightarrow> string \<Rightarrow> string list"
  RemoveFinalizer :: "string list \<Rightarrow> string \<Rightarrow> string list"

text \<open>
  One possible cluster, on which the hypotheses about clusters are shown to be satisfiable: it
  gives the same answers at any time, accepts every write, and counts the writes and the clock
  readings in its state.
\<close>

definition fixed_cluster ::
  "('s, int) PodAutoscaler \<Rightarrow> int Pod list \<Rightarrow> int PodMetrics \<Rightarrow> int LimitRange list \<Rightarrow> int ResourceQuota list
   \<Rightarrow> imap list \<Rightarrow> (nat, 's, 's, int) cluster" where
  "fixed_cluster pa pods metrics limitRanges quotas vpas =
     \<lparr>GetPodAutoscaler = (\<lambda>ns name w. (Inr pa, w)),
      UpdatePodAutoscaler = (\<lambda>p w. (Inr p, Suc w)),
      UpdateStatus = (\<lambda>p w. (Inr p, Suc w)),
      ListPods = (\<lambda>ns sel w. (Inr pods, w)),
      PatchPod = (\<lambda>base p w. (Inr p, Suc w)),
      EvictPod = (\<lambda>ns name w. (None, Suc w)),
      GetPodMetricsObject = (\<lambda>ns name w. (Inr metrics, w)),
      ListLimitRanges = (\<lambda>ns w. (Inr limitRanges, w)),
      ListResourceQuotas = (\<lambda>ns w. (Inr quotas, w)),
      ListVPAsLimit = (\<lambda>n w. (Inr (take n vpas), w)),
      ListVPAs = (\<lambda>ns w. (Inr vpas, w)),
      GetVPAObject = (\<lambda>ns name w.
        (case vpas of [] \<Rightarrow> Inl \<lparr>ae_text = ''not found'', ae_not_found = True\<rparr> | v # _ \<Rightarrow> Inr v, w)),
      Now = (\<lambda>w. (int w * 1000000000, Suc w)),
      LabelSelectorAsSelector = (\<lambda>s. Inr s),
      ContainsFinalizer = (\<lambda>fs f. List.member fs f),
      AddFinalizer = (\<lambda>fs f. if List.member fs f then fs else fs @ [f]),
      RemoveFinalizer = (\<lambda>fs f. removeAll f fs)\<rparr>"

text \<open>A PodAutoscaler for the Deployment \<open>web\<close> in an update mode, with or without dry-run.\<close>

definition sample_spec :: "string \<Rightarrow> bool \<Rightarrow> (string, int) PodAutoscalerSpec" where
  "sample_spec mode dryRun =
     \<lparr>sp_Selector = ''app=web'',
      sp_TargetRef = Some \<lparr>ref_Kind = ''Deployment'', ref_Name = ''web'', ref_APIVersion = ''apps/v1''\<rparr>,
      sp_ResourcePolicy = None,
      sp_UpdatePolicy = Some \<lparr>up_UpdateMode = mode, up_MaxUnavailable = None\<rparr>,
      sp_MetricsCollectionIntervalSeconds = Some 60, sp_EvaluationWindowMinutes = None,
      sp_VarianceThresholdPercent = None, sp_DryRun = dryRun,
      sp_VPAPolicy = Some \<lparr>vp_Enabled = None, vp_VPAName = [], vp_StrictMode = True\<rparr>\<rparr>"

definition empty_status :: "int PodAutoscalerStatus" where
  "empty_status =
     \<lparr>st_Phase = [], st_Conditions = [], st_MonitoredPods = 0, st_Recommendation = None,
      st_LastEvaluationTime = None, st_LastUpdateTime = None, st_TotalAdjustments = 0, st_ObservedGeneration = 0,
      st_VPAStatus = None, st_NamespaceConstraints = None\<rparr>"

definition sample_pa :: "string \<Rightarrow> bool \<Rightarrow> (string, int) PodAutoscaler" where
  "sample_pa mode dryRun =
     \<lparr>pa_Name = ''web'', pa_Namespace = ''prod'', pa_Generation = 1, pa_Deleting = False,
      pa_Finalizers = [], pa_Spec = sample_spec mode dryRun, pa_Status = empty_status\<rparr>"

end
