(* ===== verification/NamespaceLimits.thy ===== *)
theory NamespaceLimits
  imports Cluster Calculator
begin

text \<open>
  Package \<^verbatim>\<open>internal/namespacelimits\<close>: the bounds a namespace's LimitRange and ResourceQuota
  objects put on a recommendation, and the clamping of a recommendation to them.
\<close>

section \<open>Data\<close>

record NamespaceConstraints =
  nc_LimitRangeFound :: bool
  nc_ResourceQuotaFound :: bool
  nc_MinCPUCores :: float64
  nc_MaxCPUCores :: float64
  nc_MinMemoryBytes :: float64
  nc_MaxMemoryBytes :: float64
  nc_DefaultCPURequest :: float64
  nc_DefaultCPULimit :: float64
  nc_DefaultMemoryRequest :: float64
  nc_DefaultMemoryLimit :: float64
  nc_MaxLimitRequestRatioCPU :: float64
  nc_MaxLimitRequestRatioMemory :: float64
  nc_PodMaxCPUCores :: float64
  nc_PodMaxMemoryBytes :: float64
  nc_QuotaCPURemaining :: float64
  nc_QuotaMemoryRemaining :: float64

definition EmptyConstraints :: NamespaceConstraints where
  "EmptyConstraints =
     \<lparr>nc_LimitRangeFound = False, nc_ResourceQuotaFound = False,
      nc_MinCPUCores = 0, nc_MaxCPUCores = MaxFloat64,
      nc_MinMemoryBytes = 0, nc_MaxMemoryBytes = MaxFloat64,
      nc_DefaultCPURequest = 0, nc_DefaultCPULimit = 0,
      nc_DefaultMemoryRequest = 0, nc_DefaultMemoryLimit = 0,
      nc_MaxLimitRequestRatioCPU = 0, nc_MaxLimitRequestRatioMemory = 0,
      nc_PodMaxCPUCores = MaxFloat64, nc_PodMaxMemoryBytes = MaxFloat64,
      nc_QuotaCPURemaining = MaxFloat64, nc_QuotaMemoryRemaining = MaxFloat64\<rparr>"

section \<open>LimitRange items\<close>

text \<open>
  The two statement forms of the helpers: \<open>if q, ok := list[key]; ok { v := ...; if v > nc.F
  { nc.F = v } }\<close> (or \<open><\<close>) and \<open>if q, ok := list[key]; ok { nc.F = ... }\<close>.
\<close>

definition entry :: "'q quantity_ops \<Rightarrow> 'q ResourceList \<Rightarrow> string \<Rightarrow> float64 option" where
  "entry ops rl key = map_option (AsApproximateFloat64 ops) (rl_get rl key)"

definition keep_best ::
  "(float64 \<Rightarrow> float64 \<Rightarrow> bool) \<Rightarrow> ('a \<Rightarrow> float64) \<Rightarrow> ((float64 \<Rightarrow> float64) \<Rightarrow> 'a \<Rightarrow> 'a) \<Rightarrow> float64 option \<Rightarrow> 'a \<Rightarrow> 'a" where
  "keep_best better get upd ov nc =
     (case ov of None \<Rightarrow> nc | Some v \<Rightarrow> if better v (get nc) then upd (\<lambda>_. v) nc else nc)"

definition overwrite :: "((float64 \<Rightarrow> float64) \<Rightarrow> 'a \<Rightarrow> 'a) \<Rightarrow> float64 option \<Rightarrow> 'a \<Rightarrow> 'a" where
  "overwrite upd ov nc = (case ov of None \<Rightarrow> nc | Some v \<Rightarrow> upd (\<lambda>_. v) nc)"

definition applyContainerLimitRangeItem ::
  "'q quantity_ops \<Rightarrow> NamespaceConstraints \<Rightarrow> 'q LimitRangeItem \<Rightarrow> NamespaceConstraints" where
  "applyContainerLimitRangeItem ops nc item =
     (let nc = keep_best (>) nc_MinCPUCores nc_MinCPUCores_update (entry ops (li_Min item) ResourceCPU) nc;
          nc = keep_best (>) nc_MinMemoryBytes nc_MinMemoryBytes_update (entry ops (li_Min item) ResourceMemory) nc;
          nc = keep_best (<) nc_MaxCPUCores nc_MaxCPUCores_update (entry ops (li_Max item) ResourceCPU) nc;
          nc = keep_best (<) nc_MaxMemoryBytes nc_MaxMemoryBytes_update (entry ops (li_Max item) ResourceMemory) nc;
          nc = overwrite nc_DefaultCPULimit_update (entry ops (li_Default item) ResourceCPU) nc;
          nc = overwrite nc_DefaultMemoryLimit_update (entry ops (li_Default item) ResourceMemory) nc;
          nc = overwrite nc_DefaultCPURequest_update (entry ops (li_DefaultRequest item) ResourceCPU) nc;
          nc = overwrite nc_DefaultMemoryRequest_update (entry ops (li_DefaultRequest item) ResourceMemory) nc;
          nc = overwrite nc_MaxLimitRequestRatioCPU_update (entry ops (li_MaxLimitRequestRatio item) ResourceCPU) nc;
          nc = overwrite nc_MaxLimitRequestRatioMemory_update (entry ops (li_MaxLimitRequestRatio item) ResourceMemory) nc
      in nc)"

definition applyPodLimitRangeItem ::
  "'q quantity_ops \<Rightarrow> NamespaceConstraints \<Rightarrow> 'q LimitRangeItem \<Rightarrow> NamespaceConstraints" where
  "applyPodLimitRangeItem ops nc item =
     (let nc = keep_best (<) nc_PodMaxCPUCores nc_PodMaxCPUCores_update (entry ops (li_Max item) ResourceCPU) nc;
          nc = keep_best (<) nc_PodMaxMemoryBytes nc_PodMaxMemoryBytes_update (entry ops (li_Max item) ResourceMemory) nc
      in nc)"

text \<open>The \<^verbatim>\<open>switch item.Type\<close> in the loop body of \<^verbatim>\<open>GetNamespaceConstraints\<close>.\<close>

definition applyLimitRangeItem ::
  "'q quantity_ops \<Rightarrow> NamespaceConstraints \<Rightarrow> 'q LimitRangeItem \<Rightarrow> NamespaceConstraints" where
  "applyLimitRangeItem ops nc item =
     (if li_Type item = LimitTypeContainer then applyContainerLimitRangeItem ops nc item
      else if li_Type item = LimitTypePod then applyPodLimitRangeItem ops nc item
      else nc)"

section \<open>ResourceQuota\<close>

text \<open>The loop over the two keys, from \<^verbatim>\<open>math.MaxFloat64\<close> down.\<close>

fun remaining_over :: "'q quantity_ops \<Rightarrow> 'q ResourceQuota \<Rightarrow> string list \<Rightarrow> float64 \<Rightarrow> float64" where
  "remaining_over ops rq [] remaining = remaining"
| "remaining_over ops rq (key # keys) remaining =
     remaining_over ops rq keys
       (case (rl_get (rq_Hard rq) key, rl_get (rq_Used rq) key) of
          (Some hard, Some used) \<Rightarrow>
            (let r = AsApproximateFloat64 ops hard - AsApproximateFloat64 ops used
             in if r < remaining then r else remaining)
        | _ \<Rightarrow> remaining)"

definition computeRemaining :: "'q quantity_ops \<Rightarrow> 'q ResourceQuota \<Rightarrow> string \<Rightarrow> string \<Rightarrow> float64" where
  "computeRemaining ops rq requestsKey plainKey =
     remaining_over ops rq [requestsKey, plainKey] MaxFloat64"

definition applyResourceQuota ::
  "'q quantity_ops \<Rightarrow> NamespaceConstraints \<Rightarrow> 'q ResourceQuota \<Rightarrow> NamespaceConstraints" where
  "applyResourceQuota ops nc rq =
     (let cpuRemaining = computeRemaining ops rq ResourceRequestsCPU ResourceCPU;
          nc = keep_best (<) nc_QuotaCPURemaining nc_QuotaCPURemaining_update (Some cpuRemaining) nc;
          memRemaining = computeRemaining ops rq ResourceRequestsMemory ResourceMemory;
          nc = keep_best (<) nc_QuotaMemoryRemaining nc_QuotaMemoryRemaining_update (Some memRemaining) nc
      in nc)"

section \<open>Fetching\<close>

text \<open>
  The constraints gathered so far are returned with an error too, as in the source; the error
  is \<open>None\<close> for Go's nil.
\<close>

definition GetNamespaceConstraints ::
  "('w, 's, 't, 'q) cluster \<Rightarrow> 'q quantity_ops \<Rightarrow> string \<Rightarrow> 'w \<Rightarrow> (NamespaceConstraints \<times> goerr option) \<times> 'w" where
  "GetNamespaceConstraints cl ops namespace w =
     (let nc = EmptyConstraints in
      case ListLimitRanges cl namespace w of
        (Inl e, w) \<Rightarrow>
          ((nc, Some (Wrapf (''failed to list LimitRanges in namespace '' @ namespace) (ApiErr e))), w)
      | (Inr limitRanges, w) \<Rightarrow>
          (let nc = (if limitRanges \<noteq> []
                     then foldl (foldl (applyLimitRangeItem ops)) (nc\<lparr>nc_LimitRangeFound := True\<rparr>) limitRanges
                     else nc) in
           case ListResourceQuotas cl namespace w of
             (Inl e, w) \<Rightarrow>
               ((nc, Some (Wrapf (''failed to list ResourceQuotas in namespace '' @ namespace) (ApiErr e))), w)
           | (Inr quotas, w) \<Rightarrow>
               (let nc = (if quotas \<noteq> []
                          then foldl (applyResourceQuota ops) (nc\<lparr>nc_ResourceQuotaFound := True\<rparr>) quotas
                          else nc)
                in ((nc, None), w))))"

section \<open>Clamping a recommendation\<close>

text \<open>
  The CPU and the memory statements of \<^verbatim>\<open>ClampRecommendation\<close> are the same up to the fields they
  read and the format of the reason.  A step takes one resource's bounds and its current
  (request, limit) and returns the new pair with the reasons it appends.
\<close>

record resource_bounds =
  rb_label :: string
  rb_unit :: string
  rb_digits :: nat
  rb_min :: float64
  rb_max :: float64
  rb_ratio :: float64
  rb_quota :: float64

definition cpu_bounds :: "NamespaceConstraints \<Rightarrow> resource_bounds" where
  "cpu_bounds nc =
     \<lparr>rb_label = ''CPU'', rb_unit = ''cores'', rb_digits = 3,
      rb_min = nc_MinCPUCores nc, rb_max = nc_MaxCPUCores nc,
      rb_ratio = nc_MaxLimitRequestRatioCPU nc, rb_quota = nc_QuotaCPURemaining nc\<rparr>"

definition memory_bounds :: "NamespaceConstraints \<Rightarrow> resource_bounds" where
  "memory_bounds nc =
     \<lparr>rb_label = ''memory'', rb_unit = ''bytes'', rb_digits = 0,
      rb_min = nc_MinMemoryBytes nc, rb_max = nc_MaxMemoryBytes nc,
      rb_ratio = nc_MaxLimitRequestRatioMemory nc, rb_quota = nc_QuotaMemoryRemaining nc\<rparr>"

definition reason :: "resource_bounds \<Rightarrow> string \<Rightarrow> float64 \<Rightarrow> float64 \<Rightarrow> string \<Rightarrow> string" where
  "reason b what old new why =
     rb_label b @ what @ '' from '' @ fmt_f (rb_digits b) old @ '' to '' @ fmt_f (rb_digits b) new
     @ '' '' @ rb_unit b @ '' ('' @ why @ '')''"

type_synonym clamp_step = "float64 \<times> float64 \<Rightarrow> (float64 \<times> float64) \<times> string list"

fun step_min :: "resource_bounds \<Rightarrow> clamp_step" where
  "step_min b (req, limt) =
     (if rb_min b > 0 \<and> req < rb_min b
      then ((rb_min b, limt), [reason b '' request raised'' req (rb_min b) ''LimitRange min''])
      else ((req, limt), []))"

fun step_max :: "resource_bounds \<Rightarrow> clamp_step" where
  "step_max b (req, limt) =
     (let (limt', r1) =
            (if rb_max b < MaxFloat64 \<and> limt > rb_max b
             then (rb_max b, [reason b '' limit capped'' limt (rb_max b) ''LimitRange max'']) else (limt, []));
          (req', r2) =
            (if rb_max b < MaxFloat64 \<and> req > rb_max b
             then (rb_max b, [reason b '' request capped'' req (rb_max b) ''LimitRange max'']) else (req, []))
      in ((req', limt'), r1 @ r2))"

fun step_order :: "float64 \<times> float64 \<Rightarrow> float64 \<times> float64" where
  "step_order (req, limt) = (req, if limt < req then req else limt)"

fun step_ratio :: "resource_bounds \<Rightarrow> clamp_step" where
  "step_ratio b (req, limt) =
     (if rb_ratio b > 0 \<and> req > 0
      then let maxAllowedLimit = req * rb_ratio b
           in if limt > maxAllowedLimit
              then ((req, maxAllowedLimit),
                    [reason b '' limit capped'' limt maxAllowedLimit
                       (''LimitRange maxLimitRequestRatio='' @ fmt_f 1 (rb_ratio b))])
              else ((req, limt), [])
      else ((req, limt), []))"

fun step_quota :: "resource_bounds \<Rightarrow> clamp_step" where
  "step_quota b (req, limt) =
     (if rb_quota b < MaxFloat64 \<and> req > rb_quota b \<and> rb_quota b > 0
      then let req' = rb_quota b
           in ((req', if limt > req' * lit 2 then req' * lit 2 else limt),
               [reason b '' request capped'' req (rb_quota b) ''ResourceQuota headroom''])
      else ((req, limt), []))"

lemmas clamp_steps = step_min.simps step_max.simps step_order.simps step_ratio.simps step_quota.simps

declare clamp_steps [simp del]

definition ClampRecommendation ::
  "float64 \<Rightarrow> float64 \<Rightarrow> float64 \<Rightarrow> float64 \<Rightarrow> NamespaceConstraints \<Rightarrow>
   (float64 \<times> float64) \<times> (float64 \<times> float64) \<times> string list" where
  "ClampRecommendation cpuReq cpuLim memReq memLim nc =
     (let cb = cpu_bounds nc; mb = memory_bounds nc;
          (cpu, c1) = step_min cb (cpuReq, cpuLim);
          (mem, m1) = step_min mb (memReq, memLim);
          (cpu, c2) = step_max cb cpu;
          (mem, m2) = step_max mb mem;
          cpu = step_order cpu;
          mem = step_order mem;
          (cpu, c3) = step_ratio cb cpu;
          (mem, m3) = step_ratio mb mem;
          (cpu, c4) = step_quota cb cpu;
          (mem, m4) = step_quota mb mem
      in (cpu, mem, c1 @ m1 @ c2 @ m2 @ c3 @ m3 @ c4 @ m4))"

section \<open>The bounds handed to the calculator\<close>

definition tighten :: "float64 \<Rightarrow> float64 \<Rightarrow> float64 \<Rightarrow> float64 \<Rightarrow> float64 \<times> float64" where
  "tighten nmin nmax defaultMin defaultMax =
     (let mn = (if nmin > defaultMin then nmin else defaultMin);
          mx = (if nmax < defaultMax then nmax else defaultMax);
          mn = (if mn > mx then mx else mn)
      in (mn, mx))"

definition ToCalculatorConstraints :: "NamespaceConstraints \<Rightarrow> Constraints \<Rightarrow> Constraints" where
  "ToCalculatorConstraints nc d =
     (let (minCPU, maxCPU) = tighten (nc_MinCPUCores nc) (nc_MaxCPUCores nc) (cst_MinCPUCores d) (cst_MaxCPUCores d);
          (minMem, maxMem) = tighten (nc_MinMemoryBytes nc) (nc_MaxMemoryBytes nc) (cst_MinMemoryBytes d) (cst_MaxMemoryBytes d)
      in \<lparr>cst_MinCPUCores = minCPU, cst_MaxCPUCores = maxCPU,
          cst_MinMemoryBytes = minMem, cst_MaxMemoryBytes = maxMem\<rparr>)"

end
