(* ===== verification/NamespaceProps.thy ===== *)
theory NamespaceProps
  imports NamespaceLimits
begin

text \<open>
  What the clamping and the gathering of namespace bounds guarantee.  One resource's clamping
  is a pipeline of five steps; each property is established by one step and kept by the later
  ones.
\<close>

section \<open>One resource\<close>

definition res_clamp :: "resource_bounds \<Rightarrow> float64 \<times> float64 \<Rightarrow> float64 \<times> float64" where
  "res_clamp b p =
     fst (step_quota b (fst (step_ratio b (step_order (fst (step_max b (fst (step_min b p))))))))"

lemma bounds_fields [simp]:
  "rb_min (cpu_bounds nc) = nc_MinCPUCores nc" "rb_min (memory_bounds nc) = nc_MinMemoryBytes nc"
  "rb_max (cpu_bounds nc) = nc_MaxCPUCores nc" "rb_max (memory_bounds nc) = nc_MaxMemoryBytes nc"
  "rb_ratio (cpu_bounds nc) = nc_MaxLimitRequestRatioCPU nc"
  "rb_ratio (memory_bounds nc) = nc_MaxLimitRequestRatioMemory nc"
  "rb_quota (cpu_bounds nc) = nc_QuotaCPURemaining nc" "rb_quota (memory_bounds nc) = nc_QuotaMemoryRemaining nc"
  by (simp_all add: cpu_bounds_def memory_bounds_def)

lemma Clamp_values:
  "ClampRecommendation cr cl mr ml nc = (cpu, mem, rs) \<Longrightarrow>
     res_clamp (cpu_bounds nc) (cr, cl) = cpu \<and> res_clamp (memory_bounds nc) (mr, ml) = mem"
  by (auto simp: ClampRecommendation_def res_clamp_def Let_def split: prod.splits)

lemma fst_steps [simp]:
  "fst (fst (step_min b p)) = (if rb_min b > 0 \<and> fst p < rb_min b then rb_min b else fst p)"
  "fst (fst (step_max b p)) = (if rb_max b < MaxFloat64 \<and> fst p > rb_max b then rb_max b else fst p)"
  "fst (step_order p) = fst p"
  "fst (fst (step_ratio b p)) = fst p"
  "fst (fst (step_quota b p)) =
     (if rb_quota b < MaxFloat64 \<and> fst p > rb_quota b \<and> rb_quota b > 0 then rb_quota b else fst p)"
  by (cases p; simp add: clamp_steps Let_def)+

lemma snd_steps [simp]:
  "snd (fst (step_min b p)) = snd p"
  "snd (fst (step_max b p)) = (if rb_max b < MaxFloat64 \<and> snd p > rb_max b then rb_max b else snd p)"
  "snd (step_order p) = (if snd p < fst p then fst p else snd p)"
  "snd (fst (step_ratio b p)) =
     (if rb_ratio b > 0 \<and> fst p > 0 \<and> snd p > fst p * rb_ratio b then fst p * rb_ratio b else snd p)"
  "snd (fst (step_quota b p)) =
     (if rb_quota b < MaxFloat64 \<and> fst p > rb_quota b \<and> rb_quota b > 0 \<and> snd p > rb_quota b * lit 2
      then rb_quota b * lit 2 else snd p)"
  by (cases p; simp add: clamp_steps Let_def)+

text \<open>Below the maximum.\<close>

definition capped :: "float64 \<Rightarrow> float64 \<times> float64 \<Rightarrow> bool" where
  "capped m p \<longleftrightarrow> fst p \<le> m \<and> snd p \<le> m"

lemma step_max_capped:
  "fst p \<noteq> NaN \<Longrightarrow> snd p \<noteq> NaN \<Longrightarrow> rb_max b < MaxFloat64 \<Longrightarrow> capped (rb_max b) (fst (step_max b p))"
  by (auto simp: capped_def float_ord)

lemma step_order_capped: "capped m p \<Longrightarrow> capped m (step_order p)"
  by (auto simp: capped_def)

lemma step_ratio_capped: "capped m p \<Longrightarrow> capped m (fst (step_ratio b p))"
  by (auto simp: capped_def float_ord)

lemma step_quota_capped: "capped m p \<Longrightarrow> capped m (fst (step_quota b p))"
  by (auto simp: capped_def float_ord)

lemma res_clamp_max:
  assumes "fst p \<noteq> NaN" "snd p \<noteq> NaN" "rb_max b < MaxFloat64"
  shows "capped (rb_max b) (res_clamp b p)"
  unfolding res_clamp_def using assms
  by (intro step_quota_capped step_ratio_capped step_order_capped step_max_capped) (auto simp: float_ord)

text \<open>The limit covers the request.\<close>

definition ordered :: "float64 \<times> float64 \<Rightarrow> bool" where
  "ordered p \<longleftrightarrow> fst p \<le> snd p"

definition pair_f64 :: "float64 \<times> float64 \<Rightarrow> bool" where
  "pair_f64 p \<longleftrightarrow> is_f64 (fst p) \<and> is_f64 (snd p) \<and> fst p \<noteq> NaN \<and> snd p \<noteq> NaN"

definition rb_f64 :: "resource_bounds \<Rightarrow> bool" where
  "rb_f64 b \<longleftrightarrow> is_f64 (rb_min b) \<and> is_f64 (rb_max b) \<and> is_f64 (rb_ratio b) \<and> is_f64 (rb_quota b)"

lemma pair_f64_steps:
  assumes "rb_f64 b" "pair_f64 p"
  shows "pair_f64 (fst (step_min b p))" "pair_f64 (fst (step_max b p))" "pair_f64 (step_order p)"
    "pair_f64 (fst (step_ratio b p))" "pair_f64 (fst (step_quota b p))"
  using assms by (auto simp: pair_f64_def rb_f64_def is_f64_ops float_ord)

lemma step_order_ordered: "pair_f64 p \<Longrightarrow> ordered (step_order p)"
  by (auto simp: pair_f64_def ordered_def float_ord)

lemma step_ratio_ordered:
  assumes "ordered p" "pair_f64 p" "rb_f64 b" "\<not> 0 < rb_ratio b \<or> is_fin (rb_ratio b) \<and> 1 \<le> rb_ratio b"
  shows "ordered (fst (step_ratio b p))"
  using assms fmul_ge_self[of "fst p" "rb_ratio b"]
  by (auto simp: ordered_def pair_f64_def rb_f64_def f_less_imp_le)

lemma less_MaxFloat_fin: "0 < q \<Longrightarrow> q < MaxFloat64 \<Longrightarrow> is_fin q"
  by (cases q) (auto simp: float_ord fkey_def MaxFloat64_def zero_float64_def less_eq_prod_def less_prod_def sval_def split: if_splits)

lemma step_quota_ordered:
  assumes "ordered p" "pair_f64 p" "rb_f64 b"
  shows "ordered (fst (step_quota b p))"
proof -
  have two: "is_f64 (lit 2)" "is_fin (lit 2)" "1 \<le> lit 2" by (simp add: is_f64_lit) (simp_all add: float_eval)
  have "rb_quota b \<le> rb_quota b * lit 2" if "0 < rb_quota b"
    using that assms(3) two by (intro fmul_ge_self) (auto simp: rb_f64_def f_less_imp_le)
  with assms show ?thesis
    by (auto simp: ordered_def float_ord)
qed

lemma res_clamp_ordered:
  assumes "rb_f64 b" "pair_f64 p" "\<not> 0 < rb_ratio b \<or> is_fin (rb_ratio b) \<and> 1 \<le> rb_ratio b"
  shows "ordered (res_clamp b p)"
  unfolding res_clamp_def using assms
  by (intro step_quota_ordered step_ratio_ordered step_order_ordered pair_f64_steps)

text \<open>At least the minimum, unless the quota is smaller.\<close>

lemma res_clamp_req:
  "fst (res_clamp b p) =
     (let r = (if rb_min b > 0 \<and> fst p < rb_min b then rb_min b else fst p);
          r = (if rb_max b < MaxFloat64 \<and> r > rb_max b then rb_max b else r)
      in if rb_quota b < MaxFloat64 \<and> r > rb_quota b \<and> rb_quota b > 0 then rb_quota b else r)"
  by (simp only: res_clamp_def Let_def fst_steps)

lemma res_clamp_quota:
  "0 < rb_quota b \<Longrightarrow> rb_quota b < MaxFloat64 \<Longrightarrow> fst (res_clamp b p) \<le> rb_quota b \<or> fst (res_clamp b p) = NaN"
  by (auto simp: res_clamp_req Let_def float_ord)

lemma res_clamp_not_NaN: "fst p \<noteq> NaN \<Longrightarrow> fst (res_clamp b p) \<noteq> NaN"
  by (auto simp: res_clamp_req Let_def float_ord)

lemma res_clamp_min:
  "fst p \<noteq> NaN \<Longrightarrow> rb_min b \<noteq> NaN \<Longrightarrow> 0 < rb_min b \<Longrightarrow> rb_min b \<le> rb_max b \<Longrightarrow>
     rb_quota b \<le> 0 \<or> rb_min b \<le> rb_quota b \<Longrightarrow> rb_min b \<le> fst (res_clamp b p)"
  by (auto simp: res_clamp_req Let_def float_ord)


lemma res_clamp_ratio:
  assumes "pair_f64 p" "rb_f64 b" "is_fin (rb_ratio b)" "0 < rb_ratio b" "0 < fst (res_clamp b p)"
  shows "snd (res_clamp b p) \<le> fst (res_clamp b p) * rb_ratio b
    \<or> fst (res_clamp b p) = rb_quota b \<and> snd (res_clamp b p) \<le> fst (res_clamp b p) * lit 2"
proof -
  define q where "q = step_order (fst (step_max b (fst (step_min b p))))"
  have q: "pair_f64 q" using assms(1,2) by (simp add: q_def pair_f64_steps del: fst_steps snd_steps)
  have r: "res_clamp b p = fst (step_quota b (fst (step_ratio b q)))" by (simp only: res_clamp_def q_def)
  have two: "is_f64 (lit 2)" "is_fin (lit 2)" "0 < lit 2" by (simp add: is_f64_lit) (simp_all add: float_eval)
  have n: "y \<noteq> NaN \<Longrightarrow> x \<noteq> NaN \<Longrightarrow> \<not> y < x \<Longrightarrow> x \<le> y" for x y :: float64 by (simp add: f_not_less)
  have m: "is_f64 x \<Longrightarrow> 0 < x \<Longrightarrow> x * rb_ratio b \<noteq> NaN" "is_f64 x \<Longrightarrow> 0 < x \<Longrightarrow> x * lit 2 \<noteq> NaN" for x
    using assms(2-4) two fmul_not_NaN[of x "rb_ratio b"] fmul_not_NaN[of x "lit 2"]
    by (auto dest: f_less_imp_le simp: rb_f64_def)
  show ?thesis
  proof (cases "rb_quota b < MaxFloat64 \<and> fst q > rb_quota b \<and> rb_quota b > 0")
    case True
    with q m assms(2) have "snd (res_clamp b p) \<le> rb_quota b * lit 2"
      by (auto simp: r rb_f64_def pair_f64_def intro!: n)
    with True show ?thesis by (simp add: r)
  next
    case False
    then have f: "fst (res_clamp b p) = fst q" by (auto simp: r)
    with False q m assms(4,5) have "snd (res_clamp b p) \<le> fst q * rb_ratio b"
      by (auto simp: r pair_f64_def intro!: n)
    with f show ?thesis by simp
  qed
qed

text \<open>Nothing is moved silently, but for a limit raised to its request.\<close>

lemma no_reason:
  "step_min b p = (q, []) \<Longrightarrow> q = p"
  "step_max b p = (q, []) \<Longrightarrow> q = p"
  "step_ratio b p = (q, []) \<Longrightarrow> q = p"
  "step_quota b p = (q, []) \<Longrightarrow> q = p"
  by (cases p; auto simp: clamp_steps Let_def split: if_splits)+

lemma Clamp_reasons:
  assumes "ClampRecommendation cr cl mr ml nc = (cpu, mem, [])"
  shows "cpu = step_order (cr, cl) \<and> mem = step_order (mr, ml)"
  using assms by (auto simp: ClampRecommendation_def Let_def split: prod.splits dest!: no_reason)

section \<open>Gathering\<close>

text \<open>What a LimitRange item offers for a bound, if it is of the right type.\<close>

definition item_val ::
  "'q quantity_ops \<Rightarrow> string \<Rightarrow> ('q LimitRangeItem \<Rightarrow> 'q ResourceList) \<Rightarrow> string \<Rightarrow> 'q LimitRangeItem \<Rightarrow> float64 option" where
  "item_val ops ty sel key item = (if li_Type item = ty then entry ops (sel item) key else None)"

lemma keep_best_other: "(\<And>f nc. g (upd f nc) = g nc) \<Longrightarrow> g (keep_best b get upd ov nc) = g nc"
  by (simp add: keep_best_def split: option.split)

lemma overwrite_other: "(\<And>f nc. g (upd f nc) = g nc) \<Longrightarrow> g (overwrite upd ov nc) = g nc"
  by (simp add: overwrite_def split: option.split)

lemma keep_best_own:
  "(\<And>f nc. get (upd f nc) = f (get nc)) \<Longrightarrow>
   get (keep_best b get upd ov nc) = (case ov of None \<Rightarrow> get nc | Some v \<Rightarrow> if b v (get nc) then v else get nc)"
  by (simp add: keep_best_def split: option.split)

lemmas bound_fields =
  keep_best_other[where g = nc_MinCPUCores] overwrite_other[where g = nc_MinCPUCores] keep_best_own[where get = nc_MinCPUCores]
  keep_best_other[where g = nc_MinMemoryBytes] overwrite_other[where g = nc_MinMemoryBytes] keep_best_own[where get = nc_MinMemoryBytes]
  keep_best_other[where g = nc_MaxCPUCores] overwrite_other[where g = nc_MaxCPUCores] keep_best_own[where get = nc_MaxCPUCores]
  keep_best_other[where g = nc_MaxMemoryBytes] overwrite_other[where g = nc_MaxMemoryBytes] keep_best_own[where get = nc_MaxMemoryBytes]
  keep_best_other[where g = nc_PodMaxCPUCores] overwrite_other[where g = nc_PodMaxCPUCores] keep_best_own[where get = nc_PodMaxCPUCores]
  keep_best_other[where g = nc_PodMaxMemoryBytes] overwrite_other[where g = nc_PodMaxMemoryBytes] keep_best_own[where get = nc_PodMaxMemoryBytes]
  keep_best_other[where g = nc_QuotaCPURemaining] overwrite_other[where g = nc_QuotaCPURemaining] keep_best_own[where get = nc_QuotaCPURemaining]
  keep_best_other[where g = nc_QuotaMemoryRemaining] overwrite_other[where g = nc_QuotaMemoryRemaining] keep_best_own[where get = nc_QuotaMemoryRemaining]
  keep_best_other[where g = nc_LimitRangeFound] overwrite_other[where g = nc_LimitRangeFound]
  keep_best_other[where g = nc_ResourceQuotaFound] overwrite_other[where g = nc_ResourceQuotaFound]

lemmas gather_defs = applyLimitRangeItem_def applyContainerLimitRangeItem_def applyPodLimitRangeItem_def
  applyResourceQuota_def item_val_def

lemma f_less_trans: "x < y \<Longrightarrow> y < z \<Longrightarrow> x < z" for x y z :: float64
  using f_less_le_trans f_less_imp_le by blast

interpretation min_cpu: extremum_scan nc_MinCPUCores "applyLimitRangeItem ops" "item_val ops LimitTypeContainer li_Min ResourceCPU" "(>)" for ops
  by unfold_locales (auto simp: gather_defs bound_fields Let_def split: option.split intro: f_less_trans)

interpretation min_mem: extremum_scan nc_MinMemoryBytes "applyLimitRangeItem ops" "item_val ops LimitTypeContainer li_Min ResourceMemory" "(>)" for ops
  by unfold_locales (auto simp: gather_defs bound_fields Let_def split: option.split intro: f_less_trans)

interpretation max_cpu: extremum_scan nc_MaxCPUCores "applyLimitRangeItem ops" "item_val ops LimitTypeContainer li_Max ResourceCPU" "(<)" for ops
  by unfold_locales (auto simp: gather_defs bound_fields Let_def split: option.split intro: f_less_trans)

interpretation max_mem: extremum_scan nc_MaxMemoryBytes "applyLimitRangeItem ops" "item_val ops LimitTypeContainer li_Max ResourceMemory" "(<)" for ops
  by unfold_locales (auto simp: gather_defs bound_fields Let_def split: option.split intro: f_less_trans)

interpretation pod_cpu: extremum_scan nc_PodMaxCPUCores "applyLimitRangeItem ops" "item_val ops LimitTypePod li_Max ResourceCPU" "(<)" for ops
  by unfold_locales (auto simp: gather_defs bound_fields Let_def split: option.split intro: f_less_trans)

interpretation pod_mem: extremum_scan nc_PodMaxMemoryBytes "applyLimitRangeItem ops" "item_val ops LimitTypePod li_Max ResourceMemory" "(<)" for ops
  by unfold_locales (auto simp: gather_defs bound_fields Let_def split: option.split intro: f_less_trans)

interpretation quota_cpu: extremum_scan nc_QuotaCPURemaining "applyResourceQuota ops"
    "\<lambda>rq. Some (computeRemaining ops rq ResourceRequestsCPU ResourceCPU)" "(<)" for ops
  by unfold_locales (auto simp: gather_defs bound_fields Let_def intro: f_less_trans)

interpretation quota_mem: extremum_scan nc_QuotaMemoryRemaining "applyResourceQuota ops"
    "\<lambda>rq. Some (computeRemaining ops rq ResourceRequestsMemory ResourceMemory)" "(<)" for ops
  by unfold_locales (auto simp: gather_defs bound_fields Let_def intro: f_less_trans)

definition bounds_view :: "NamespaceConstraints \<Rightarrow> float64 list \<times> bool" where
  "bounds_view nc = ([nc_MinCPUCores nc, nc_MaxCPUCores nc, nc_MinMemoryBytes nc, nc_MaxMemoryBytes nc,
     nc_PodMaxCPUCores nc, nc_PodMaxMemoryBytes nc], nc_LimitRangeFound nc)"

definition quota_view :: "NamespaceConstraints \<Rightarrow> float64 list \<times> bool" where
  "quota_view nc = ([nc_QuotaCPURemaining nc, nc_QuotaMemoryRemaining nc], nc_ResourceQuotaFound nc)"

interpretation quota_frame: untouched bounds_view "applyResourceQuota ops" for ops
  by unfold_locales (simp add: bounds_view_def gather_defs bound_fields Let_def)

interpretation limit_frame: untouched quota_view "applyLimitRangeItem ops" for ops
  by unfold_locales (simp add: quota_view_def gather_defs bound_fields Let_def)

interpretation limit_found: untouched nc_LimitRangeFound "applyLimitRangeItem ops" for ops
  by unfold_locales (simp add: gather_defs bound_fields Let_def)

interpretation quota_found: untouched nc_ResourceQuotaFound "applyResourceQuota ops" for ops
  by unfold_locales (simp add: gather_defs bound_fields Let_def)

text \<open>The headroom one quota key offers.\<close>

definition headroom :: "'q quantity_ops \<Rightarrow> 'q ResourceQuota \<Rightarrow> string \<Rightarrow> float64 option" where
  "headroom ops rq key =
     (case (entry ops (rq_Hard rq) key, entry ops (rq_Used rq) key) of (Some h, Some u) \<Rightarrow> Some (h - u) | _ \<Rightarrow> None)"

definition remaining_step :: "'q quantity_ops \<Rightarrow> 'q ResourceQuota \<Rightarrow> float64 \<Rightarrow> string \<Rightarrow> float64" where
  "remaining_step ops rq r key = (case headroom ops rq key of None \<Rightarrow> r | Some d \<Rightarrow> if d < r then d else r)"

interpretation remaining: extremum_scan "\<lambda>r. r" "remaining_step ops rq" "headroom ops rq" "(<)" for ops rq
  by unfold_locales (auto simp: remaining_step_def intro: f_less_trans)

lemma remaining_over_foldl: "remaining_over ops rq keys r = foldl (remaining_step ops rq) r keys"
  by (induction keys arbitrary: r)
     (auto simp: remaining_step_def headroom_def entry_def Let_def split: option.splits)

section \<open>The tightest bound on offer\<close>

definition tightest :: "('v \<Rightarrow> 'v \<Rightarrow> bool) \<Rightarrow> 'v \<Rightarrow> 'v set \<Rightarrow> 'v \<Rightarrow> bool" where
  "tightest better init vs x \<longleftrightarrow> (x = init \<or> x \<in> vs \<and> better x init) \<and> (\<forall>v\<in>vs. \<not> better v x)"

definition offered :: "('i \<Rightarrow> 'v option) \<Rightarrow> 'i list \<Rightarrow> 'v set" where
  "offered val xs = {v. Some v \<in> val ` set xs}"

context extremum_scan
begin

lemma scan_tightest: "tightest better (get a) (offered val xs) (get (foldl step a xs))"
  using scan_attained[of a xs] scan_best[of _ xs _ a]
  by (auto simp: tightest_def offered_def) (metis image_eqI)

end

lemma EmptyConstraints_fields:
  "nc_MinCPUCores EmptyConstraints = 0" "nc_MaxCPUCores EmptyConstraints = MaxFloat64"
  "nc_MinMemoryBytes EmptyConstraints = 0" "nc_MaxMemoryBytes EmptyConstraints = MaxFloat64"
  "nc_PodMaxCPUCores EmptyConstraints = MaxFloat64" "nc_PodMaxMemoryBytes EmptyConstraints = MaxFloat64"
  "nc_QuotaCPURemaining EmptyConstraints = MaxFloat64" "nc_QuotaMemoryRemaining EmptyConstraints = MaxFloat64"
  by (simp_all add: EmptyConstraints_def)

definition limits_gathered :: "'q quantity_ops \<Rightarrow> 'q LimitRange list \<Rightarrow> NamespaceConstraints" where
  "limits_gathered ops lrs =
     foldl (applyLimitRangeItem ops) (EmptyConstraints\<lparr>nc_LimitRangeFound := (lrs \<noteq> [])\<rparr>) (concat lrs)"

definition all_gathered :: "'q quantity_ops \<Rightarrow> 'q LimitRange list \<Rightarrow> 'q ResourceQuota list \<Rightarrow> NamespaceConstraints" where
  "all_gathered ops lrs qs =
     foldl (applyResourceQuota ops) ((limits_gathered ops lrs)\<lparr>nc_ResourceQuotaFound := (qs \<noteq> [])\<rparr>) qs"

lemma limits_gathered_found: "nc_ResourceQuotaFound (limits_gathered ops lrs) = False"
proof -
  have "quota_view (limits_gathered ops lrs) = quota_view (EmptyConstraints\<lparr>nc_LimitRangeFound := (lrs \<noteq> [])\<rparr>)"
    by (simp add: limits_gathered_def)
  then show ?thesis by (simp add: quota_view_def EmptyConstraints_def)
qed

lemma GetNamespaceConstraints_ok:
  assumes "ListLimitRanges cl ns w = (Inr lrs, w1)" "ListResourceQuotas cl ns w1 = (Inr qs, w2)"
  shows "GetNamespaceConstraints cl ops ns w = ((all_gathered ops lrs qs, None), w2)"
proof -
  have l: "(if lrs \<noteq> [] then foldl (foldl (applyLimitRangeItem ops)) (EmptyConstraints\<lparr>nc_LimitRangeFound := True\<rparr>) lrs
      else EmptyConstraints) = limits_gathered ops lrs"
    by (simp add: limits_gathered_def foldl_foldl) (simp add: EmptyConstraints_def)
  have "(limits_gathered ops lrs)\<lparr>nc_ResourceQuotaFound := False\<rparr> = limits_gathered ops lrs"
    using limits_gathered_found[of ops lrs] by simp
  then have "(if qs \<noteq> [] then foldl (applyResourceQuota ops) ((limits_gathered ops lrs)\<lparr>nc_ResourceQuotaFound := True\<rparr>) qs
      else limits_gathered ops lrs) = all_gathered ops lrs qs"
    by (simp add: all_gathered_def)
  then show ?thesis by (simp only: GetNamespaceConstraints_def Let_def assms prod.case sum.case l)
qed

lemma all_gathered_bounds: "bounds_view (all_gathered ops lrs qs) = bounds_view (limits_gathered ops lrs)"
  by (simp add: all_gathered_def) (simp add: bounds_view_def)

lemma all_gathered_found:
  "nc_LimitRangeFound (all_gathered ops lrs qs) \<longleftrightarrow> lrs \<noteq> []"
  "nc_ResourceQuotaFound (all_gathered ops lrs qs) \<longleftrightarrow> qs \<noteq> []"
  using all_gathered_bounds[of ops lrs qs] by (simp_all add: bounds_view_def limits_gathered_def all_gathered_def)


lemma limits_gathered_tightest:
  "tightest (>) 0 (offered (item_val ops LimitTypeContainer li_Min ResourceCPU) (concat lrs)) (nc_MinCPUCores (limits_gathered ops lrs))"
  "tightest (<) MaxFloat64 (offered (item_val ops LimitTypeContainer li_Max ResourceCPU) (concat lrs)) (nc_MaxCPUCores (limits_gathered ops lrs))"
  "tightest (>) 0 (offered (item_val ops LimitTypeContainer li_Min ResourceMemory) (concat lrs)) (nc_MinMemoryBytes (limits_gathered ops lrs))"
  "tightest (<) MaxFloat64 (offered (item_val ops LimitTypeContainer li_Max ResourceMemory) (concat lrs)) (nc_MaxMemoryBytes (limits_gathered ops lrs))"
  "tightest (<) MaxFloat64 (offered (item_val ops LimitTypePod li_Max ResourceCPU) (concat lrs)) (nc_PodMaxCPUCores (limits_gathered ops lrs))"
  "tightest (<) MaxFloat64 (offered (item_val ops LimitTypePod li_Max ResourceMemory) (concat lrs)) (nc_PodMaxMemoryBytes (limits_gathered ops lrs))"
  using min_cpu.scan_tightest[where ops = ops and a = "EmptyConstraints\<lparr>nc_LimitRangeFound := (lrs \<noteq> [])\<rparr>" and xs = "concat lrs"]
    max_cpu.scan_tightest[where ops = ops and a = "EmptyConstraints\<lparr>nc_LimitRangeFound := (lrs \<noteq> [])\<rparr>" and xs = "concat lrs"]
    min_mem.scan_tightest[where ops = ops and a = "EmptyConstraints\<lparr>nc_LimitRangeFound := (lrs \<noteq> [])\<rparr>" and xs = "concat lrs"]
    max_mem.scan_tightest[where ops = ops and a = "EmptyConstraints\<lparr>nc_LimitRangeFound := (lrs \<noteq> [])\<rparr>" and xs = "concat lrs"]
    pod_cpu.scan_tightest[where ops = ops and a = "EmptyConstraints\<lparr>nc_LimitRangeFound := (lrs \<noteq> [])\<rparr>" and xs = "concat lrs"]
    pod_mem.scan_tightest[where ops = ops and a = "EmptyConstraints\<lparr>nc_LimitRangeFound := (lrs \<noteq> [])\<rparr>" and xs = "concat lrs"]
  by (simp_all add: EmptyConstraints_fields limits_gathered_def )

section \<open>Sample values\<close>

text \<open>
  A namespace with container bounds of half a core to four cores and 1 MiB to 1 GiB, a limit
  ratio of 1.5, and one core of quota headroom; a request of two cores and 1 KiB.
\<close>

definition sample_nc :: NamespaceConstraints where
  "sample_nc = EmptyConstraints\<lparr>nc_LimitRangeFound := True, nc_ResourceQuotaFound := True,
     nc_MinCPUCores := lit (1 / 2), nc_MaxCPUCores := lit 4,
     nc_MinMemoryBytes := lit 1048576, nc_MaxMemoryBytes := lit 1073741824,
     nc_MaxLimitRequestRatioCPU := lit (3 / 2), nc_MaxLimitRequestRatioMemory := lit (3 / 2),
     nc_QuotaCPURemaining := lit 1\<rparr>"

definition sample_reasons :: "string list" where
  "sample_reasons =
     [''memory request raised from 1024 to 1048576 bytes (LimitRange min)'',
      ''CPU request capped from 2.000 to 1.000 cores (ResourceQuota headroom)'']"

lemma is_f64_MaxFloat64: "is_f64 MaxFloat64"
proof -
  have "MaxFloat64 = lit ((2 ^ 53 - 1) * 2 ^ 971)" by (simp add: MaxFloat64_def float_eval)
  then show ?thesis using is_f64_lit by metis
qed

lemma sample_clamp:
  "ClampRecommendation (lit 2) (lit 3) (lit 1024) (lit 2048) sample_nc =
     ((lit 1, lit 2), (lit 1048576, lit 1048576), sample_reasons)"
  by (simp add: ClampRecommendation_def cpu_bounds_def memory_bounds_def sample_nc_def EmptyConstraints_def
      clamp_steps reason_def fmt_f_def pad0_def sample_reasons_def MaxFloat64_def float_eval)

lemma sample_nc_values:
  "nc_MinCPUCores sample_nc = Fin False (1 / 2)" "nc_MaxCPUCores sample_nc = Fin False 4"
  "nc_MinMemoryBytes sample_nc = Fin False 1048576" "nc_MaxMemoryBytes sample_nc = Fin False 1073741824"
  "nc_MaxLimitRequestRatioCPU sample_nc = Fin False (3 / 2)" "nc_MaxLimitRequestRatioMemory sample_nc = Fin False (3 / 2)"
  "nc_QuotaCPURemaining sample_nc = Fin False 1" "nc_QuotaMemoryRemaining sample_nc = MaxFloat64"
  by (simp_all add: sample_nc_def EmptyConstraints_def float_eval)

lemma sample_nc_f64: "rb_f64 (cpu_bounds sample_nc)" "rb_f64 (memory_bounds sample_nc)"
  by (simp_all add: rb_f64_def sample_nc_def EmptyConstraints_def is_f64_ops is_f64_MaxFloat64)

lemma sample_pairs: "pair_f64 (lit 2, lit 3)" "pair_f64 (lit 1024, lit 2048)"
  by (simp_all add: pair_f64_def is_f64_lit) (simp_all add: float_eval)

text \<open>What a clamped pair is guaranteed, collected for the callers.\<close>

lemma clamp_guarantees:
  assumes "ClampRecommendation cr cl mr ml nc = ((cr', cl'), (mr', ml'), rs)"
    and "pair_f64 (cr, cl)" and "pair_f64 (mr, ml)"
    and "rb_f64 (cpu_bounds nc)" and "rb_f64 (memory_bounds nc)"
  shows "\<not> 0 < nc_MaxLimitRequestRatioCPU nc \<or> is_fin (nc_MaxLimitRequestRatioCPU nc) \<and> 1 \<le> nc_MaxLimitRequestRatioCPU nc \<Longrightarrow> cr' \<le> cl'"
    and "\<not> 0 < nc_MaxLimitRequestRatioMemory nc \<or> is_fin (nc_MaxLimitRequestRatioMemory nc) \<and> 1 \<le> nc_MaxLimitRequestRatioMemory nc \<Longrightarrow> mr' \<le> ml'"
    and "nc_MaxCPUCores nc < MaxFloat64 \<Longrightarrow> cl' \<le> nc_MaxCPUCores nc"
    and "nc_MaxMemoryBytes nc < MaxFloat64 \<Longrightarrow> ml' \<le> nc_MaxMemoryBytes nc"
    and "0 < nc_QuotaCPURemaining nc \<Longrightarrow> nc_QuotaCPURemaining nc < MaxFloat64 \<Longrightarrow> cr' \<le> nc_QuotaCPURemaining nc"
    and "0 < nc_QuotaMemoryRemaining nc \<Longrightarrow> nc_QuotaMemoryRemaining nc < MaxFloat64 \<Longrightarrow> mr' \<le> nc_QuotaMemoryRemaining nc"
  using Clamp_values[OF assms(1)] assms(2-)
    res_clamp_ordered[of "cpu_bounds nc" "(cr, cl)"] res_clamp_ordered[of "memory_bounds nc" "(mr, ml)"]
    res_clamp_max[of "(cr, cl)" "cpu_bounds nc"] res_clamp_max[of "(mr, ml)" "memory_bounds nc"]
    res_clamp_quota[of "cpu_bounds nc" "(cr, cl)"] res_clamp_not_NaN[of "(cr, cl)" "cpu_bounds nc"]
    res_clamp_quota[of "memory_bounds nc" "(mr, ml)"] res_clamp_not_NaN[of "(mr, ml)" "memory_bounds nc"]
  by (simp_all add: ordered_def capped_def pair_f64_def)

section \<open>Properties\<close>

text \<open>
  C25. After clamping, neither request nor limit exceeds the LimitRange maximum of its resource, and the
  request reaches the LimitRange minimum, if that minimum is not above the maximum and the quota
  headroom (when there is one) is not below it.
\<close>

theorem Clamp_respects_limit_range:
  assumes "ClampRecommendation cr cl mr ml nc = ((cr', cl'), (mr', ml'), rs)"
    and "cr \<noteq> NaN" and "cl \<noteq> NaN" and "mr \<noteq> NaN" and "ml \<noteq> NaN"
  shows "(nc_MaxCPUCores nc < MaxFloat64 \<longrightarrow> cr' \<le> nc_MaxCPUCores nc \<and> cl' \<le> nc_MaxCPUCores nc)
       \<and> (nc_MaxMemoryBytes nc < MaxFloat64 \<longrightarrow> mr' \<le> nc_MaxMemoryBytes nc \<and> ml' \<le> nc_MaxMemoryBytes nc)
       \<and> (0 < nc_MinCPUCores nc \<and> nc_MinCPUCores nc \<le> nc_MaxCPUCores nc
            \<and> (nc_QuotaCPURemaining nc \<le> 0 \<or> nc_MinCPUCores nc \<le> nc_QuotaCPURemaining nc) \<longrightarrow> nc_MinCPUCores nc \<le> cr')
       \<and> (0 < nc_MinMemoryBytes nc \<and> nc_MinMemoryBytes nc \<le> nc_MaxMemoryBytes nc
            \<and> (nc_QuotaMemoryRemaining nc \<le> 0 \<or> nc_MinMemoryBytes nc \<le> nc_QuotaMemoryRemaining nc) \<longrightarrow> nc_MinMemoryBytes nc \<le> mr')"
proof (intro conjI impI)
  note V = Clamp_values[OF assms(1)]
  show "nc_MinCPUCores nc \<le> cr'" if "0 < nc_MinCPUCores nc \<and> nc_MinCPUCores nc \<le> nc_MaxCPUCores nc
      \<and> (nc_QuotaCPURemaining nc \<le> 0 \<or> nc_MinCPUCores nc \<le> nc_QuotaCPURemaining nc)"
  proof -
    from that have "nc_MinCPUCores nc \<noteq> NaN" by (auto dest: f_le_not_NaN)
    with that show ?thesis using V res_clamp_min[of "(cr, cl)" "cpu_bounds nc"] assms(2) by simp
  qed
  show "nc_MinMemoryBytes nc \<le> mr'" if "0 < nc_MinMemoryBytes nc \<and> nc_MinMemoryBytes nc \<le> nc_MaxMemoryBytes nc
      \<and> (nc_QuotaMemoryRemaining nc \<le> 0 \<or> nc_MinMemoryBytes nc \<le> nc_QuotaMemoryRemaining nc)"
  proof -
    from that have "nc_MinMemoryBytes nc \<noteq> NaN" by (auto dest: f_le_not_NaN)
    with that show ?thesis using V res_clamp_min[of "(mr, ml)" "memory_bounds nc"] assms(4) by simp
  qed
qed (use Clamp_values[OF assms(1)] assms(2-) res_clamp_max[of "(cr, cl)" "cpu_bounds nc"] res_clamp_max[of "(mr, ml)" "memory_bounds nc"]
    in \<open>simp_all add: capped_def\<close>)

theorem Clamp_respects_limit_range_witness:
  "lit 2 \<le> nc_MaxCPUCores sample_nc \<and> lit 1048576 \<le> nc_MaxMemoryBytes sample_nc
   \<and> nc_MinCPUCores sample_nc \<le> lit 1 \<and> nc_MinMemoryBytes sample_nc \<le> lit 1048576"
proof -
  have "lit 2 \<noteq> NaN" "lit 3 \<noteq> NaN" "lit 1024 \<noteq> NaN" "lit 2048 \<noteq> NaN" using sample_pairs by (simp_all add: pair_f64_def)
  from Clamp_respects_limit_range[OF sample_clamp this] show ?thesis
    by (simp add: sample_nc_values) (simp add: MaxFloat64_def float_eval)
qed

text \<open>
  C18. After clamping, the limit is at least the request, for all valid inputs, provided a
  \<^verbatim>\<open>maxLimitRequestRatio\<close>, where one is set, is a finite number of at least 1.
\<close>

theorem Clamp_limit_covers_request:
  assumes "ClampRecommendation cr cl mr ml nc = ((cr', cl'), (mr', ml'), rs)"
    and "pair_f64 (cr, cl)" and "pair_f64 (mr, ml)"
    and "rb_f64 (cpu_bounds nc)" and "rb_f64 (memory_bounds nc)"
    and "nc_MaxLimitRequestRatioCPU nc \<le> 0 \<or> is_fin (nc_MaxLimitRequestRatioCPU nc) \<and> 1 \<le> nc_MaxLimitRequestRatioCPU nc"
    and "nc_MaxLimitRequestRatioMemory nc \<le> 0 \<or> is_fin (nc_MaxLimitRequestRatioMemory nc) \<and> 1 \<le> nc_MaxLimitRequestRatioMemory nc"
  shows "cr' \<le> cl' \<and> mr' \<le> ml'"
proof -
  have r: "\<not> 0 < rb_ratio b \<or> is_fin (rb_ratio b) \<and> 1 \<le> rb_ratio b"
    if "rb_ratio b \<le> 0 \<or> is_fin (rb_ratio b) \<and> 1 \<le> rb_ratio b" for b
    using that by (auto simp: float_ord)
  have "ordered (cr', cl')" "ordered (mr', ml')"
    using Clamp_values[OF assms(1)] assms(2-) r[of "cpu_bounds nc"] r[of "memory_bounds nc"]
      res_clamp_ordered[of "cpu_bounds nc" "(cr, cl)"] res_clamp_ordered[of "memory_bounds nc" "(mr, ml)"]
    by simp_all
  then show ?thesis by (simp add: ordered_def)
qed

theorem Clamp_limit_covers_request_witness: "lit 1 \<le> lit 2 \<and> lit 1048576 \<le> lit 1048576"
  by (intro Clamp_limit_covers_request[OF sample_clamp sample_pairs sample_nc_f64])
     (simp_all add: sample_nc_values, simp_all add: float_eval)

lemma bounds_quota:
  "cpu_bounds (nc\<lparr>nc_QuotaCPURemaining := x\<rparr>) = (cpu_bounds nc)\<lparr>rb_quota := x\<rparr>"
  "memory_bounds (nc\<lparr>nc_QuotaCPURemaining := x\<rparr>) = memory_bounds nc"
  "cpu_bounds (nc\<lparr>nc_QuotaMemoryRemaining := y\<rparr>) = cpu_bounds nc"
  "memory_bounds (nc\<lparr>nc_QuotaMemoryRemaining := y\<rparr>) = (memory_bounds nc)\<lparr>rb_quota := y\<rparr>"
  by (simp_all add: cpu_bounds_def memory_bounds_def)

lemma step_ignores_quota:
  "step_min (b\<lparr>rb_quota := x\<rparr>) p = step_min b p"
  "step_max (b\<lparr>rb_quota := x\<rparr>) p = step_max b p"
  "step_ratio (b\<lparr>rb_quota := x\<rparr>) p = step_ratio b p"
  by (cases p, simp add: clamp_steps reason_def Let_def)+

lemma step_quota_off: "rb_quota b \<le> 0 \<Longrightarrow> step_quota (b\<lparr>rb_quota := MaxFloat64\<rparr>) p = step_quota b p"
  by (cases p) (auto simp: clamp_steps float_ord)

lemma Clamp_quota_off:
  "nc_QuotaCPURemaining nc \<le> 0 \<Longrightarrow>
     ClampRecommendation cr cl mr ml (nc\<lparr>nc_QuotaCPURemaining := MaxFloat64\<rparr>) = ClampRecommendation cr cl mr ml nc"
  "nc_QuotaMemoryRemaining nc \<le> 0 \<Longrightarrow>
     ClampRecommendation cr cl mr ml (nc\<lparr>nc_QuotaMemoryRemaining := MaxFloat64\<rparr>) = ClampRecommendation cr cl mr ml nc"
  by (simp_all only: ClampRecommendation_def Let_def bounds_quota step_ignores_quota step_quota_off bounds_fields)

text \<open>
  C26. After clamping, a request stays within the quota headroom of its resource if that is positive.  A headroom
  of zero or less, on the other hand, has no effect: the values and the reasons are those for a
  namespace without a quota for that resource, whatever the quota for the other one is.
\<close>

theorem Clamp_respects_quota:
  assumes "ClampRecommendation cr cl mr ml nc = ((cr', cl'), (mr', ml'), rs)"
    and "cr \<noteq> NaN" and "mr \<noteq> NaN"
  shows "(0 < nc_QuotaCPURemaining nc \<and> nc_QuotaCPURemaining nc < MaxFloat64 \<longrightarrow> cr' \<le> nc_QuotaCPURemaining nc)
       \<and> (0 < nc_QuotaMemoryRemaining nc \<and> nc_QuotaMemoryRemaining nc < MaxFloat64 \<longrightarrow> mr' \<le> nc_QuotaMemoryRemaining nc)
       \<and> (nc_QuotaCPURemaining nc \<le> 0 \<longrightarrow>
            ClampRecommendation cr cl mr ml (nc\<lparr>nc_QuotaCPURemaining := MaxFloat64\<rparr>) = ((cr', cl'), (mr', ml'), rs))
       \<and> (nc_QuotaMemoryRemaining nc \<le> 0 \<longrightarrow>
            ClampRecommendation cr cl mr ml (nc\<lparr>nc_QuotaMemoryRemaining := MaxFloat64\<rparr>) = ((cr', cl'), (mr', ml'), rs))"
proof (intro conjI impI)
  have v: "fst (res_clamp (cpu_bounds nc) (cr, cl)) = cr'" "fst (res_clamp (memory_bounds nc) (mr, ml)) = mr'"
    using Clamp_values[OF assms(1)] by simp_all
  show "cr' \<le> nc_QuotaCPURemaining nc" if "0 < nc_QuotaCPURemaining nc \<and> nc_QuotaCPURemaining nc < MaxFloat64"
    using that v assms(2) res_clamp_quota[of "cpu_bounds nc" "(cr, cl)"] res_clamp_not_NaN[of "(cr, cl)" "cpu_bounds nc"]
    by simp
  show "mr' \<le> nc_QuotaMemoryRemaining nc" if "0 < nc_QuotaMemoryRemaining nc \<and> nc_QuotaMemoryRemaining nc < MaxFloat64"
    using that v assms(3) res_clamp_quota[of "memory_bounds nc" "(mr, ml)"] res_clamp_not_NaN[of "(mr, ml)" "memory_bounds nc"]
    by simp
qed (simp_all add: Clamp_quota_off assms(1))

theorem Clamp_respects_quota_witness: "lit 1 \<le> nc_QuotaCPURemaining sample_nc"
  using Clamp_respects_quota[OF sample_clamp] sample_pairs
  by (simp add: pair_f64_def sample_nc_values) (simp add: MaxFloat64_def float_eval)

text \<open>
  Every change is reported: when the list of reasons is empty the values are the ones
  given, but for a limit below its request, which is raised to it.
\<close>

lemma Clamp_reports_changes:
  assumes "ClampRecommendation cr cl mr ml nc = (cpu, mem, rs)" and "rs = []"
  shows "cpu = (cr, if cl < cr then cr else cl) \<and> mem = (mr, if ml < mr then mr else ml)"
  using Clamp_reasons[of cr cl mr ml nc cpu mem] assms by (simp add: clamp_steps)


text \<open>
  C27. For each resource that has a \<^verbatim>\<open>maxLimitRequestRatio\<close> (a positive, finite number) and a positive request after
  clamping, the limit stays within that ratio times the request, unless the quota
  headroom has replaced the request: then only twice the request is guaranteed.  Nothing is
  asked of the other resource but that its values are numbers.
\<close>

theorem Clamp_ratio_or_quota:
  assumes "ClampRecommendation cr cl mr ml nc = ((cr', cl'), (mr', ml'), rs)"
    and "pair_f64 (cr, cl)" and "pair_f64 (mr, ml)"
    and "rb_f64 (cpu_bounds nc)" and "rb_f64 (memory_bounds nc)"
  shows "(is_fin (nc_MaxLimitRequestRatioCPU nc) \<and> 0 < nc_MaxLimitRequestRatioCPU nc \<and> 0 < cr' \<longrightarrow>
            cl' \<le> cr' * nc_MaxLimitRequestRatioCPU nc \<or> cr' = nc_QuotaCPURemaining nc \<and> cl' \<le> cr' * lit 2)
       \<and> (is_fin (nc_MaxLimitRequestRatioMemory nc) \<and> 0 < nc_MaxLimitRequestRatioMemory nc \<and> 0 < mr' \<longrightarrow>
            ml' \<le> mr' * nc_MaxLimitRequestRatioMemory nc \<or> mr' = nc_QuotaMemoryRemaining nc \<and> ml' \<le> mr' * lit 2)"
  using Clamp_values[OF assms(1)] assms(2-)
    res_clamp_ratio[of "(cr, cl)" "cpu_bounds nc"] res_clamp_ratio[of "(mr, ml)" "memory_bounds nc"]
  by simp

theorem Clamp_ratio_or_quota_witness:
  "lit 1 = nc_QuotaCPURemaining sample_nc \<and> \<not> lit 2 \<le> lit 1 * nc_MaxLimitRequestRatioCPU sample_nc"
proof -
  have "\<not> lit 2 \<le> lit 1 * nc_MaxLimitRequestRatioCPU sample_nc" by (simp add: sample_nc_values float_eval)
  moreover have "lit 2 \<le> lit 1 * nc_MaxLimitRequestRatioCPU sample_nc \<or> lit 1 = nc_QuotaCPURemaining sample_nc \<and> lit 2 \<le> lit 1 * lit 2"
    using Clamp_ratio_or_quota[OF sample_clamp sample_pairs sample_nc_f64]
    by (simp add: sample_nc_values) (simp add: float_eval)
  ultimately show ?thesis by blast
qed

section \<open>The bounds handed to the calculator\<close>

lemma tighten_bounds:
  assumes "bounds_ok dmin dmax" "is_f64 nmin" "is_f64 nmax" "nmin \<noteq> NaN" "0 \<le> nmax" "tighten nmin nmax dmin dmax = (lo, hi)"
  shows "bounds_ok lo hi" "hi \<le> dmax" "hi \<le> nmax" "lo = hi \<or> dmin \<le> lo \<and> nmin \<le> lo"
  using assms by (auto simp: tighten_def bounds_ok_def Let_def float_ord split: if_splits)

lemma to_constraints_ok:
  assumes "constraints_ok d" and "rb_f64 (cpu_bounds nc)" and "rb_f64 (memory_bounds nc)"
    and "nc_MinCPUCores nc \<noteq> NaN" and "nc_MinMemoryBytes nc \<noteq> NaN"
    and "0 \<le> nc_MaxCPUCores nc" and "0 \<le> nc_MaxMemoryBytes nc"
    and "c = ToCalculatorConstraints nc d"
  shows "constraints_ok c
       \<and> cst_MaxCPUCores c \<le> cst_MaxCPUCores d \<and> cst_MaxCPUCores c \<le> nc_MaxCPUCores nc
       \<and> cst_MaxMemoryBytes c \<le> cst_MaxMemoryBytes d \<and> cst_MaxMemoryBytes c \<le> nc_MaxMemoryBytes nc
       \<and> (cst_MinCPUCores c = cst_MaxCPUCores c \<or> cst_MinCPUCores d \<le> cst_MinCPUCores c \<and> nc_MinCPUCores nc \<le> cst_MinCPUCores c)
       \<and> (cst_MinMemoryBytes c = cst_MaxMemoryBytes c \<or>
            cst_MinMemoryBytes d \<le> cst_MinMemoryBytes c \<and> nc_MinMemoryBytes nc \<le> cst_MinMemoryBytes c)"
proof -
  have d: "bounds_ok (cst_MinCPUCores d) (cst_MaxCPUCores d)" "bounds_ok (cst_MinMemoryBytes d) (cst_MaxMemoryBytes d)"
    using assms(1) by (auto simp: constraints_ok_def)
  have f: "is_f64 (nc_MinCPUCores nc)" "is_f64 (nc_MaxCPUCores nc)" "is_f64 (nc_MinMemoryBytes nc)" "is_f64 (nc_MaxMemoryBytes nc)"
    using assms(2,3) by (auto simp: rb_f64_def)
  obtain lo hi lo' hi' where t: "tighten (nc_MinCPUCores nc) (nc_MaxCPUCores nc) (cst_MinCPUCores d) (cst_MaxCPUCores d) = (lo, hi)"
    "tighten (nc_MinMemoryBytes nc) (nc_MaxMemoryBytes nc) (cst_MinMemoryBytes d) (cst_MaxMemoryBytes d) = (lo', hi')"
    by (metis surj_pair)
  then have c: "c = \<lparr>cst_MinCPUCores = lo, cst_MaxCPUCores = hi, cst_MinMemoryBytes = lo', cst_MaxMemoryBytes = hi'\<rparr>"
    by (simp add: assms(8) ToCalculatorConstraints_def)
  show ?thesis
    using tighten_bounds[OF d(1) f(1,2) assms(4,6) t(1)] tighten_bounds[OF d(2) f(3,4) assms(5,7) t(2)]
    by (simp add: c constraints_ok_def)
qed

text \<open>
  C28. The bounds handed to the calculator are always admissible, never wider at the top than
  the defaults or the LimitRange, and at the bottom as tight as both, unless minimum and maximum
  contradict each other, in which case they collapse to the maximum.
\<close>

theorem ToCalculatorConstraints_ok:
  assumes "constraints_ok d" and "rb_f64 (cpu_bounds nc)" and "rb_f64 (memory_bounds nc)"
    and "nc_MinCPUCores nc \<noteq> NaN" and "nc_MinMemoryBytes nc \<noteq> NaN"
    and "0 \<le> nc_MaxCPUCores nc" and "0 \<le> nc_MaxMemoryBytes nc"
    and "c = ToCalculatorConstraints nc d"
  shows "constraints_ok c
       \<and> cst_MaxCPUCores c \<le> cst_MaxCPUCores d \<and> cst_MaxCPUCores c \<le> nc_MaxCPUCores nc
       \<and> cst_MaxMemoryBytes c \<le> cst_MaxMemoryBytes d \<and> cst_MaxMemoryBytes c \<le> nc_MaxMemoryBytes nc
       \<and> (cst_MinCPUCores c = cst_MaxCPUCores c \<or> cst_MinCPUCores d \<le> cst_MinCPUCores c \<and> nc_MinCPUCores nc \<le> cst_MinCPUCores c)
       \<and> (cst_MinMemoryBytes c = cst_MaxMemoryBytes c \<or>
            cst_MinMemoryBytes d \<le> cst_MinMemoryBytes c \<and> nc_MinMemoryBytes nc \<le> cst_MinMemoryBytes c)"
  using to_constraints_ok[OF assms] .

theorem ToCalculatorConstraints_ok_witness:
  "constraints_ok (ToCalculatorConstraints sample_nc DefaultConstraints)"
  using ToCalculatorConstraints_ok[OF DefaultConstraints_ok sample_nc_f64 _ _ _ _ refl]
  by (simp add: sample_nc_values) (simp add: float_eval)

section \<open>Gathering\<close>

text \<open>The headroom values all quotas offer under two keys.\<close>

definition headrooms :: "'q quantity_ops \<Rightarrow> 'q ResourceQuota list \<Rightarrow> string list \<Rightarrow> float64 set" where
  "headrooms ops qs keys = (\<Union>rq\<in>set qs. offered (headroom ops rq) keys)"

lemma tightest_nested:
  assumes "tightest (<) init (f ` S) x" "\<And>i. i \<in> S \<Longrightarrow> tightest (<) init (A i) (f i)" "init \<noteq> NaN"
  shows "tightest (<) init (\<Union>i\<in>S. A i) (x :: float64)"
  unfolding tightest_def
proof (intro conjI ballI)
  show "x = init \<or> x \<in> (\<Union>i\<in>S. A i) \<and> x < init"
    using assms(1,2) by (auto simp: tightest_def)
  fix v assume "v \<in> (\<Union>i\<in>S. A i)"
  then obtain i where i: "i \<in> S" "v \<in> A i" by blast
  then have "\<not> f i < x" "\<not> v < f i" "f i = init \<or> f i < init"
    using assms(1) assms(2)[OF i(1)] by (auto simp: tightest_def)
  then show "\<not> v < x" using assms(3) by (auto simp: float_ord)
qed

lemma quotas_tightest:
  "tightest (<) MaxFloat64 (headrooms ops qs [ResourceRequestsCPU, ResourceCPU]) (nc_QuotaCPURemaining (all_gathered ops lrs qs))"
  "tightest (<) MaxFloat64 (headrooms ops qs [ResourceRequestsMemory, ResourceMemory]) (nc_QuotaMemoryRemaining (all_gathered ops lrs qs))"
proof -
  have q: "quota_view (limits_gathered ops lrs) = quota_view (EmptyConstraints\<lparr>nc_LimitRangeFound := (lrs \<noteq> [])\<rparr>)"
    by (simp add: limits_gathered_def)
  have o: "offered (\<lambda>rq. Some (f rq)) qs = f ` set qs" for f :: "'a ResourceQuota \<Rightarrow> float64"
    by (auto simp: offered_def)
  have c: "tightest (<) MaxFloat64 (offered (headroom ops rq) [k, k']) (computeRemaining ops rq k k')" for rq k k'
    using remaining.scan_tightest[of MaxFloat64 ops rq "[k, k']"]
    by (simp only: computeRemaining_def remaining_over_foldl)
  have M: "MaxFloat64 \<noteq> NaN" by (simp add: MaxFloat64_def)
  have f: "nc_QuotaCPURemaining (limits_gathered ops lrs) = MaxFloat64" "nc_QuotaMemoryRemaining (limits_gathered ops lrs) = MaxFloat64"
    using q by (simp_all add: quota_view_def EmptyConstraints_def)
  show "tightest (<) MaxFloat64 (headrooms ops qs [ResourceRequestsCPU, ResourceCPU]) (nc_QuotaCPURemaining (all_gathered ops lrs qs))"
    unfolding headrooms_def using quota_cpu.scan_tightest[of "(limits_gathered ops lrs)\<lparr>nc_ResourceQuotaFound := (qs \<noteq> [])\<rparr>" ops qs]
    by (intro tightest_nested[OF _ c M]) (simp only: o all_gathered_def, simp add: f)
  show "tightest (<) MaxFloat64 (headrooms ops qs [ResourceRequestsMemory, ResourceMemory]) (nc_QuotaMemoryRemaining (all_gathered ops lrs qs))"
    unfolding headrooms_def using quota_mem.scan_tightest[of "(limits_gathered ops lrs)\<lparr>nc_ResourceQuotaFound := (qs \<noteq> [])\<rparr>" ops qs]
    by (intro tightest_nested[OF _ c M]) (simp only: o all_gathered_def, simp add: f)
qed

text \<open>
  C24. Gathering finds exactly the tightest bounds on offer: the largest container minimum, the
  smallest container and pod maxima over all items of all LimitRanges, and the smallest headroom
  over all quotas and both of a resource's quota keys.
\<close>

theorem Gather_tightest:
  assumes "ListLimitRanges cl ns w = (Inr lrs, w1)" and "ListResourceQuotas cl ns w1 = (Inr qs, w2)"
  shows "\<exists>nc. GetNamespaceConstraints cl ops ns w = ((nc, None), w2)
       \<and> nc_LimitRangeFound nc = (lrs \<noteq> []) \<and> nc_ResourceQuotaFound nc = (qs \<noteq> [])
       \<and> tightest (>) 0 (offered (item_val ops LimitTypeContainer li_Min ResourceCPU) (concat lrs)) (nc_MinCPUCores nc)
       \<and> tightest (<) MaxFloat64 (offered (item_val ops LimitTypeContainer li_Max ResourceCPU) (concat lrs)) (nc_MaxCPUCores nc)
       \<and> tightest (>) 0 (offered (item_val ops LimitTypeContainer li_Min ResourceMemory) (concat lrs)) (nc_MinMemoryBytes nc)
       \<and> tightest (<) MaxFloat64 (offered (item_val ops LimitTypeContainer li_Max ResourceMemory) (concat lrs)) (nc_MaxMemoryBytes nc)
       \<and> tightest (<) MaxFloat64 (offered (item_val ops LimitTypePod li_Max ResourceCPU) (concat lrs)) (nc_PodMaxCPUCores nc)
       \<and> tightest (<) MaxFloat64 (offered (item_val ops LimitTypePod li_Max ResourceMemory) (concat lrs)) (nc_PodMaxMemoryBytes nc)
       \<and> tightest (<) MaxFloat64 (headrooms ops qs [ResourceRequestsCPU, ResourceCPU]) (nc_QuotaCPURemaining nc)
       \<and> tightest (<) MaxFloat64 (headrooms ops qs [ResourceRequestsMemory, ResourceMemory]) (nc_QuotaMemoryRemaining nc)"
  using limits_gathered_tightest[where ops = ops and lrs = lrs] quotas_tightest[where ops = ops and lrs = lrs and qs = qs]
    all_gathered_bounds[of ops lrs qs] all_gathered_found[of ops lrs qs]
  by (intro exI[of _ "all_gathered ops lrs qs"]) (simp add: bounds_view_def GetNamespaceConstraints_ok[OF assms])

definition sample_limit_ranges :: "int LimitRange list" where
  "sample_limit_ranges =
     [[\<lparr>li_Type = LimitTypeContainer, li_Min = Some [''cpu'' \<mapsto> 500], li_Max = Some [''cpu'' \<mapsto> 4000],
        li_Default = None, li_DefaultRequest = None, li_MaxLimitRequestRatio = None\<rparr>]]"

definition sample_quotas :: "int ResourceQuota list" where
  "sample_quotas = [\<lparr>rq_Hard = Some [''cpu'' \<mapsto> 8000], rq_Used = Some [''cpu'' \<mapsto> 5000]\<rparr>]"

theorem Gather_tightest_witness:
  "\<exists>nc w. GetNamespaceConstraints (fixed_cluster (sample_pa ''Auto'' False) [] [] sample_limit_ranges sample_quotas []) milli_ops ''prod'' 0 = ((nc, None), w)
     \<and> nc_LimitRangeFound nc \<and> nc_ResourceQuotaFound nc"
proof -
  let ?cl = "fixed_cluster (sample_pa ''Auto'' False) [] [] sample_limit_ranges sample_quotas []"
  have "ListLimitRanges ?cl ''prod'' 0 = (Inr sample_limit_ranges, 0)"
    "ListResourceQuotas ?cl ''prod'' 0 = (Inr sample_quotas, 0)"
    by (simp_all add: fixed_cluster_def)
  from Gather_tightest[OF this, of milli_ops] show ?thesis
    by (auto simp: sample_limit_ranges_def sample_quotas_def)
qed

end
