(* ===== verification/Vpa.thy ===== *)
theory Vpa
  imports Cluster "HOL-Library.Sublist"
begin

text \<open>
  Package \<^verbatim>\<open>internal/vpa\<close>: detecting VerticalPodAutoscaler objects, parsing them out of
  unstructured data, matching them to a workload and validating their update mode.  Log calls
  are not modelled.
\<close>

section \<open>Data\<close>

abbreviation VPAUpdateModeOff :: string where "VPAUpdateModeOff \<equiv> ''Off''"
abbreviation VPAUpdateModeAuto :: string where "VPAUpdateModeAuto \<equiv> ''Auto''"

record 'q VPAContainerRecommendation =
  vcr_ContainerName :: string
  vcr_Target :: "'q ResourceList"
  vcr_LowerBound :: "'q ResourceList"
  vcr_UpperBound :: "'q ResourceList"
  vcr_UncappedTarget :: "'q ResourceList"

record 'q VPAInfo =
  vi_Name :: string
  vi_Namespace :: string
  vi_UpdateMode :: string
  vi_TargetRefKind :: string
  vi_TargetRefName :: string
  vi_HasRecommendation :: bool
  vi_ContainerRecommendations :: "'q VPAContainerRecommendation list"

section \<open>Substring search\<close>

text \<open>The loop with its index; \<open>s[i:i+n]\<close> is in range whenever the loop condition holds.\<close>

function search_from :: "string \<Rightarrow> string \<Rightarrow> nat \<Rightarrow> bool" where
  "search_from s substr i =
     (if int i \<le> int (length s) - int (length substr)
      then (if take (length substr) (drop i s) = substr then True else search_from s substr (Suc i))
      else False)"
  by pat_completeness auto
termination
  by (relation "measure (\<lambda>(s, substr, i). nat (int (length s) - int (length substr) + 1 - int i))") auto

declare search_from.simps [simp del]

definition searchSubstring :: "string \<Rightarrow> string \<Rightarrow> bool" where
  "searchSubstring s substr = search_from s substr 0"

definition contains :: "string \<Rightarrow> string \<Rightarrow> bool" where
  "contains s substr \<longleftrightarrow> length s \<ge> length substr \<and> searchSubstring s substr"

definition isNoMatchError :: "goerr option \<Rightarrow> bool" where
  "isNoMatchError err =
     (case err of
        None \<Rightarrow> False
      | Some e \<Rightarrow>
          (let errStr = err_text e
           in contains errStr ''no matches for kind'' \<or>
              contains errStr ''the server could not find the requested resource'' \<or>
              contains errStr ''no match''))"

section \<open>Parsing\<close>

definition parse_entry ::
  "'q quantity_ops \<Rightarrow> imap \<Rightarrow> string \<Rightarrow> (string \<rightharpoonup> 'q) \<Rightarrow> (string \<rightharpoonup> 'q)" where
  "parse_entry ops fieldMap key result =
     (case as_string (fieldMap key) of
        Some str \<Rightarrow> (case ParseQuantity ops str of Some q \<Rightarrow> result(key \<mapsto> q) | None \<Rightarrow> result)
      | None \<Rightarrow> result)"

definition parseResourceList :: "'q quantity_ops \<Rightarrow> imap \<Rightarrow> string \<Rightarrow> 'q ResourceList" where
  "parseResourceList ops crMap field =
     (let result = Map.empty in
      case as_map (crMap field) of
        None \<Rightarrow> Some result
      | Some fieldMap \<Rightarrow>
          (let result = parse_entry ops fieldMap ResourceCPU result;
               result = parse_entry ops fieldMap ResourceMemory result
           in Some result))"

definition parseContainerRecommendation :: "'q quantity_ops \<Rightarrow> imap \<Rightarrow> 'q VPAContainerRecommendation" where
  "parseContainerRecommendation ops crMap =
     \<lparr>vcr_ContainerName = (case as_string (crMap ''containerName'') of Some name \<Rightarrow> name | None \<Rightarrow> []),
      vcr_Target = parseResourceList ops crMap ''target'',
      vcr_LowerBound = parseResourceList ops crMap ''lowerBound'',
      vcr_UpperBound = parseResourceList ops crMap ''upperBound'',
      vcr_UncappedTarget = parseResourceList ops crMap ''uncappedTarget''\<rparr>"

text \<open>The loop over the entries: those that are not maps are skipped.\<close>

fun parse_recs :: "'q quantity_ops \<Rightarrow> iface list \<Rightarrow> 'q VPAContainerRecommendation list" where
  "parse_recs ops [] = []"
| "parse_recs ops (cr # crs) =
     (case as_map (Some cr) of
        None \<Rightarrow> parse_recs ops crs
      | Some crMap \<Rightarrow> parseContainerRecommendation ops crMap # parse_recs ops crs)"

definition parseVPA :: "'q quantity_ops \<Rightarrow> unstructured_ops \<Rightarrow> imap \<Rightarrow> goerr + 'q VPAInfo" where
  "parseVPA ops u obj =
     (case NestedMap u obj [''spec'', ''targetRef''] of
        Found targetRef \<Rightarrow>
          Inr (let kind = (case as_string (targetRef ''kind'') of Some k \<Rightarrow> k | None \<Rightarrow> []);
                   name = (case as_string (targetRef ''name'') of Some n \<Rightarrow> n | None \<Rightarrow> []);
                   mode = (case NestedString u obj [''spec'', ''updatePolicy'', ''updateMode''] of
                             Found updateMode \<Rightarrow> updateMode | _ \<Rightarrow> VPAUpdateModeAuto);
                   (has, recs) =
                     (case NestedSlice u obj [''status'', ''recommendation'', ''containerRecommendations''] of
                        Found containerRecs \<Rightarrow> (True, parse_recs ops containerRecs) | _ \<Rightarrow> (False, []))
               in \<lparr>vi_Name = GetName u obj, vi_Namespace = GetNamespace u obj, vi_UpdateMode = mode,
                   vi_TargetRefKind = kind, vi_TargetRefName = name,
                   vi_HasRecommendation = has, vi_ContainerRecommendations = recs\<rparr>)
      | _ \<Rightarrow> Inl (Errorf (''VPA '' @ GetNamespace u obj @ ''/'' @ GetName u obj @ '' missing spec.targetRef'')))"

section \<open>The client\<close>

definition IsVPAInstalled :: "('w, 's, 't, 'q) cluster \<Rightarrow> 'w \<Rightarrow> bool \<times> 'w" where
  "IsVPAInstalled cl w =
     (case ListVPAsLimit cl 1 w of
        (Inl e, w) \<Rightarrow> (if ae_not_found e \<or> isNoMatchError (Some (ApiErr e)) then (False, w) else (False, w))
      | (Inr _, w) \<Rightarrow> (True, w))"

fun find_match :: "'q quantity_ops \<Rightarrow> unstructured_ops \<Rightarrow> string \<Rightarrow> string \<Rightarrow> imap list \<Rightarrow> 'q VPAInfo option" where
  "find_match ops u targetKind targetName [] = None"
| "find_match ops u targetKind targetName (item # items) =
     (case parseVPA ops u item of
        Inl e \<Rightarrow> find_match ops u targetKind targetName items
      | Inr info \<Rightarrow>
          if vi_TargetRefKind info = targetKind \<and> vi_TargetRefName info = targetName then Some info
          else find_match ops u targetKind targetName items)"

definition FindMatchingVPA ::
  "('w, 's, 't, 'q) cluster \<Rightarrow> 'q quantity_ops \<Rightarrow> unstructured_ops \<Rightarrow> string \<Rightarrow> string \<Rightarrow> string \<Rightarrow> 'w
   \<Rightarrow> (goerr + 'q VPAInfo option) \<times> 'w" where
  "FindMatchingVPA cl ops u namespace targetKind targetName w =
     (case ListVPAs cl namespace w of
        (Inl e, w) \<Rightarrow>
          (if ae_not_found e \<or> isNoMatchError (Some (ApiErr e)) then (Inr None, w)
           else (Inl (Wrapf (''failed to list VPA resources in namespace '' @ namespace) (ApiErr e)), w))
      | (Inr items, w) \<Rightarrow> (Inr (find_match ops u targetKind targetName items), w))"

definition GetVPA ::
  "('w, 's, 't, 'q) cluster \<Rightarrow> 'q quantity_ops \<Rightarrow> unstructured_ops \<Rightarrow> string \<Rightarrow> string \<Rightarrow> 'w
   \<Rightarrow> (goerr + 'q VPAInfo option) \<times> 'w" where
  "GetVPA cl ops u namespace name w =
     (case GetVPAObject cl namespace name w of
        (Inl e, w) \<Rightarrow>
          (if ae_not_found e then (Inr None, w)
           else (Inl (Wrapf (''failed to get VPA '' @ namespace @ ''/'' @ name) (ApiErr e)), w))
      | (Inr vpa, w) \<Rightarrow> (map_sum id Some (parseVPA ops u vpa), w))"

definition ValidateVPAMode :: "'q VPAInfo option \<Rightarrow> goerr option" where
  "ValidateVPAMode vpa =
     (case vpa of
        None \<Rightarrow> None
      | Some v \<Rightarrow>
          if vi_UpdateMode v \<noteq> VPAUpdateModeOff
          then Some (Errorf (''VPA '' @ vi_Namespace v @ ''/'' @ vi_Name v @ '' has updateMode='' @ go_quote (vi_UpdateMode v)
                 @ '' but must be '' @ go_quote VPAUpdateModeOff @ '' to avoid conflicts with Podfather; ''
                 @ ''Podfather will apply VPA recommendations on behalf of VPA, so VPA should only recommend''))
          else None)"

section \<open>Substring search is correct\<close>

lemma search_from_iff:
  "search_from s substr i \<longleftrightarrow> (\<exists>j\<ge>i. j + length substr \<le> length s \<and> take (length substr) (drop j s) = substr)"
proof (induction s substr i rule: search_from.induct)
  case (1 s substr i)
  let ?hit = "\<lambda>j. j + length substr \<le> length s \<and> take (length substr) (drop j s) = substr"
  have split: "(\<exists>j\<ge>i. ?hit j) \<longleftrightarrow> ?hit i \<or> (\<exists>j\<ge>Suc i. ?hit j)"
    by (metis Suc_leD le_refl not_less_eq_eq le_antisym)
  show ?case
  proof (cases "int i \<le> int (length s) - int (length substr)")
    case True
    then have "i + length substr \<le> length s" by simp
    with 1[OF True] True show ?thesis
      by (subst search_from.simps) (simp add: split)
  qed (subst search_from.simps, auto)
qed

lemma take_drop_sublist:
  "(\<exists>j. j + length p \<le> length s \<and> take (length p) (drop j s) = p) \<longleftrightarrow> sublist p s"
proof
  assume "\<exists>j. j + length p \<le> length s \<and> take (length p) (drop j s) = p"
  then obtain j where "take (length p) (drop j s) = p" by blast
  then have "s = take j s @ p @ drop (length p) (drop j s)" by (metis append_take_drop_id)
  then show "sublist p s" unfolding sublist_def by blast
next
  assume "sublist p s"
  then obtain xs ys where "s = xs @ p @ ys" by (auto simp: sublist_def)
  then show "\<exists>j. j + length p \<le> length s \<and> take (length p) (drop j s) = p"
    by (intro exI[of _ "length xs"]) simp
qed

text \<open>
  The hand-written substring search decides the substring relation, for all strings,
  including the empty ones.
\<close>

lemma contains_iff_sublist: "contains s substr \<longleftrightarrow> sublist substr s"
  using take_drop_sublist[of substr s] search_from_iff[of s substr 0] sublist_length_le[of substr s]
  by (auto simp: contains_def searchSubstring_def)

lemma no_match_texts:
  "isNoMatchError err \<longleftrightarrow>
     (\<exists>e. err = Some e \<and> (sublist ''no match'' (err_text e) \<or>
        sublist ''the server could not find the requested resource'' (err_text e)))"
proof -
  have "sublist ''no matches for kind'' s \<Longrightarrow> sublist ''no match'' s" for s
    using sublist_order.order_trans[of "''no match''" "''no match'' @ ''es for kind''" s] by simp
  then show ?thesis
    by (auto simp: isNoMatchError_def Let_def contains_iff_sublist split: option.split)
qed

text \<open>
  An error is taken for a missing CRD exactly when its text has one of two phrases in it:
  the first of the three tests of the source is implied by the last one.
\<close>

lemma isNoMatchError_iff:
  "isNoMatchError err \<longleftrightarrow>
     (\<exists>e. err = Some e \<and> (sublist ''no match'' (err_text e) \<or>
        sublist ''the server could not find the requested resource'' (err_text e)))"
  by (rule no_match_texts)

section \<open>Parsing, matching and validating\<close>

text \<open>A VPA for the Deployment \<open>web\<close> in mode \<open>mode\<close>, with a target for its container \<open>app\<close>.\<close>

definition sample_vpa :: "string \<Rightarrow> imap" where
  "sample_vpa mode =
     [''metadata'' \<mapsto> IMap [''name'' \<mapsto> IStr ''web-vpa'', ''namespace'' \<mapsto> IStr ''prod''],
      ''spec'' \<mapsto> IMap [''targetRef'' \<mapsto> IMap [''kind'' \<mapsto> IStr ''Deployment'', ''name'' \<mapsto> IStr ''web''],
                     ''updatePolicy'' \<mapsto> IMap [''updateMode'' \<mapsto> IStr mode]],
      ''status'' \<mapsto> IMap [''recommendation'' \<mapsto> IMap [''containerRecommendations'' \<mapsto> IList
         [IMap [''containerName'' \<mapsto> IStr ''app'',
                ''target'' \<mapsto> IMap [''cpu'' \<mapsto> IStr ''250m'', ''memory'' \<mapsto> IStr ''134217728000m'']]]]]]"

definition sample_info :: "string \<Rightarrow> int VPAInfo" where
  "sample_info mode =
     \<lparr>vi_Name = ''web-vpa'', vi_Namespace = ''prod'', vi_UpdateMode = mode,
      vi_TargetRefKind = ''Deployment'', vi_TargetRefName = ''web'', vi_HasRecommendation = True,
      vi_ContainerRecommendations =
        [\<lparr>vcr_ContainerName = ''app'', vcr_Target = Some [''cpu'' \<mapsto> 250, ''memory'' \<mapsto> 134217728000],
          vcr_LowerBound = Some Map.empty, vcr_UpperBound = Some Map.empty, vcr_UncappedTarget = Some Map.empty\<rparr>]\<rparr>"

lemma sample_parse: "parseVPA milli_ops plain_unstructured (sample_vpa mode) = Inr (sample_info mode)"
  by (simp add: parseVPA_def sample_vpa_def plain_unstructured_simps parseContainerRecommendation_def
      parseResourceList_def parse_entry_def milli_ops_def parse_milli_def parse_digits_def digit_def sample_info_def)

text \<open>
  A parsed VPA passes validation exactly when its object says \<^verbatim>\<open>Off\<close>: a missing, malformed
  or unreadable update mode counts as \<^verbatim>\<open>Auto\<close> and is refused.
\<close>

lemma validated_iff_Off:
  assumes "parseVPA ops u obj = Inr info"
  shows "ValidateVPAMode (Some info) = None \<longleftrightarrow>
    NestedString u obj [''spec'', ''updatePolicy'', ''updateMode''] = Found ''Off''"
  using assms
  by (auto simp: parseVPA_def ValidateVPAMode_def Let_def split: nested.splits prod.splits)

lemma parse_entry_at:
  "parse_entry ops m key r k = Some q \<longleftrightarrow>
     (if k = key \<and> (\<exists>s p. m key = Some (IStr s) \<and> ParseQuantity ops s = Some p)
      then \<exists>s. m key = Some (IStr s) \<and> ParseQuantity ops s = Some q else r k = Some q)"
  by (auto simp: parse_entry_def as_string_def split: option.splits iface.splits)

text \<open>
  A parsed resource list has an entry for CPU or memory exactly when the field holds a string
  under that name which parses as a quantity, and no other entry.
\<close>

lemma parseResourceList_entries:
  "rl_get (parseResourceList ops crMap field) k = Some q \<longleftrightarrow>
     (\<exists>m str. (k = ''cpu'' \<or> k = ''memory'') \<and> crMap field = Some (IMap m) \<and> m k = Some (IStr str)
        \<and> ParseQuantity ops str = Some q)"
proof -
  have m: "as_map (crMap field) = Some m \<longleftrightarrow> crMap field = Some (IMap m)" for m
    by (auto simp: as_map_def split: option.splits iface.splits)
  show ?thesis
    by (cases "as_map (crMap field)")
       (auto simp: parseResourceList_def Let_def parse_entry_at simp flip: m)
qed

text \<open>The items a workload's VPA may be taken from.\<close>

definition targets :: "'q quantity_ops \<Rightarrow> unstructured_ops \<Rightarrow> string \<Rightarrow> string \<Rightarrow> imap \<Rightarrow> 'q VPAInfo \<Rightarrow> bool" where
  "targets ops u kind name item info \<longleftrightarrow>
     parseVPA ops u item = Inr info \<and> vi_TargetRefKind info = kind \<and> vi_TargetRefName info = name"

lemma find_match_spec:
  "case find_match ops u kind name items of
     None \<Rightarrow> \<forall>item\<in>set items. \<forall>info. \<not> targets ops u kind name item info
   | Some info \<Rightarrow> \<exists>pre item post. items = pre @ item # post \<and> targets ops u kind name item info
       \<and> (\<forall>i\<in>set pre. \<forall>x. \<not> targets ops u kind name i x)"
proof (induction items)
  case (Cons i items)
  show ?case
  proof (cases "\<exists>x. targets ops u kind name i x")
    case True
    then obtain x where x: "targets ops u kind name i x" by blast
    then have f: "find_match ops u kind name (i # items) = Some x" by (simp add: targets_def)
    show ?thesis unfolding f option.case
      using x by (intro exI[of _ "[]"] exI[of _ i] exI[of _ items]) simp
  next
    case False
    then have f: "find_match ops u kind name (i # items) = find_match ops u kind name items"
      by (auto simp: targets_def split: sum.splits)
    show ?thesis
    proof (cases "find_match ops u kind name items")
      case None
      with Cons.IH f False show ?thesis by simp
    next
      case (Some info)
      with Cons.IH obtain pre item post where "items = pre @ item # post" "targets ops u kind name item info"
        "\<forall>i\<in>set pre. \<forall>x. \<not> targets ops u kind name i x" by auto
      with False show ?thesis unfolding f Some option.case
        by (intro exI[of _ "i # pre"] exI[of _ item] exI[of _ post]) simp
    qed
  qed
qed simp

text \<open>
  C30. Matching returns the first item of the namespace's list whose target is the workload,
  skipping what does not parse, and nothing exactly when no item targets it.
\<close>

theorem FindMatchingVPA_first:
  assumes "ListVPAs cl ns w = (Inr items, w')"
  shows "\<exists>r. FindMatchingVPA cl ops u ns kind name w = (Inr r, w') \<and>
    (case r of
       None \<Rightarrow> \<forall>item\<in>set items. \<forall>info. \<not> targets ops u kind name item info
     | Some info \<Rightarrow> \<exists>pre item post. items = pre @ item # post \<and> targets ops u kind name item info
         \<and> (\<forall>i\<in>set pre. \<forall>x. \<not> targets ops u kind name i x))"
  using find_match_spec[where ops = ops and u = u and kind = kind and name = name and items = items]
  by (simp add: FindMatchingVPA_def assms)

theorem FindMatchingVPA_first_witness:
  "\<exists>r. FindMatchingVPA (fixed_cluster (sample_pa ''Auto'' False) [] [] [] [] [Map.empty, sample_vpa ''Off'']) milli_ops plain_unstructured
         ''prod'' ''Deployment'' ''web'' 0 = (Inr r, 0) \<and> r \<noteq> None"
proof -
  let ?items = "[Map.empty, sample_vpa ''Off'']"
  let ?cl = "fixed_cluster (sample_pa ''Auto'' False) [] [] [] [] ?items"
  have "ListVPAs ?cl ''prod'' 0 = (Inr ?items, 0)" by (simp add: fixed_cluster_def)
  moreover have "targets milli_ops plain_unstructured ''Deployment'' ''web'' (sample_vpa ''Off'') (sample_info ''Off'')"
    by (simp add: targets_def sample_parse) (simp add: sample_info_def)
  ultimately show ?thesis
    using FindMatchingVPA_first[where cl = ?cl and ns = "''prod''" and w = 0 and items = ?items and w' = 0
        and ops = milli_ops and u = plain_unstructured and kind = "''Deployment''" and name = "''web''"]
    by (auto split: option.splits)
qed

text \<open>
  A cluster without the VPA resource is not an error: when listing fails with a not-found or
  a no-match error, no VPA is found; any other failure is passed on.
\<close>

lemma FindMatchingVPA_absent:
  assumes "ListVPAs cl ns w = (Inl e, w')"
  shows "(ae_not_found e \<or> sublist ''no match'' (ae_text e) \<longrightarrow> FindMatchingVPA cl ops u ns kind name w = (Inr None, w'))
       \<and> (\<not> ae_not_found e \<and> \<not> sublist ''no match'' (ae_text e)
            \<and> \<not> sublist ''the server could not find the requested resource'' (ae_text e) \<longrightarrow>
          (\<exists>err. FindMatchingVPA cl ops u ns kind name w = (Inl err, w') \<and> sublist (ae_text e) (err_text err)))"
proof -
  have iff: "isNoMatchError (Some (ApiErr e)) \<longleftrightarrow> sublist ''no match'' (ae_text e) \<or>
      sublist ''the server could not find the requested resource'' (ae_text e)"
    using no_match_texts[of "Some (ApiErr e)"] by simp
  have "sublist (ae_text e) (err_text (Wrapf s (ApiErr e)))" for s
    using sublist_append_leftI[of "ae_text e" "s @ '': ''"] by simp
  then show ?thesis by (simp add: FindMatchingVPA_def assms iff del: err_text.simps)
qed

end
