(* ===== verification/VpaRoundtrip.thy ===== *)
theory VpaRoundtrip
  imports Vpa
begin

text \<open>
  The parser of VPA objects reads back what an object holds: rendering the parsed form as an
  unstructured object and parsing it again gives the same form.
\<close>

section \<open>Quantities that print and parse\<close>

locale printed_quantities =
  fixes ops :: "'q quantity_ops"
  assumes parse_print: "ParseQuantity ops (QuantityString ops q) = Some q"

lemma digit_dec: "list_all (\<lambda>c. 0 \<le> digit c \<and> digit c \<le> 9) (dec n)"
proof (induction n rule: dec.induct)
  case (1 n)
  have d: "0 \<le> digit (''0123456789'' ! k) \<and> digit (''0123456789'' ! k) \<le> 9" if "k < 10" for k
    using that by (auto simp: digit_def less_Suc_eq numeral_eq_Suc)
  show ?case using 1 d[of n] d[of "n mod 10"] by (subst dec.simps) auto
qed

lemma value_dec: "foldl (\<lambda>n c. 10 * n + digit c) 0 (dec n) = int n"
proof (induction n rule: dec.induct)
  case (1 n)
  have d: "digit (''0123456789'' ! k) = int k" if "k < 10" for k
    using that by (auto simp: digit_def less_Suc_eq numeral_eq_Suc)
  have "10 * int (n div 10) + int (n mod 10) = int n" by presburger
  then show ?case using 1 d[of n] d[of "n mod 10"] by (subst dec.simps) auto
qed

lemma parse_digits_dec: "parse_digits (dec n @ ''m'') = Some (int n)"
proof -
  have "1 \<le> length (dec n)" using dec_nonempty[of n] by (cases "dec n") auto
  then show ?thesis by (simp add: parse_digits_def butlast_append digit_dec value_dec)
qed

lemma dec_no_sign: "hd (dec n) \<noteq> CHR ''-''"
proof
  assume "hd (dec n) = CHR ''-''"
  moreover have "0 \<le> digit (hd (dec n))"
    using digit_dec[of n] dec_nonempty[of n] by (cases "dec n") auto
  ultimately show False by (simp add: digit_def)
qed

lemma parse_milli_print: "parse_milli (QuantityString milli_ops q) = Some q"
proof (cases "q < 0")
  case True
  then show ?thesis by (simp add: milli_ops_def parse_milli_def parse_digits_dec)
next
  case False
  obtain c cs where d: "dec (nat q) = c # cs" using dec_nonempty[of "nat q"] by (cases "dec (nat q)") auto
  then have "c \<noteq> CHR ''-''" using dec_no_sign[of "nat q"] by simp
  then show ?thesis using False d parse_digits_dec[of "nat q"] by (simp add: milli_ops_def parse_milli_def)
qed

lemma ParseQuantity_milli: "ParseQuantity milli_ops = parse_milli"
  by (simp add: milli_ops_def)

interpretation milli: printed_quantities milli_ops
  by unfold_locales (simp only: ParseQuantity_milli parse_milli_print)

section \<open>Rendering\<close>

definition render_resources :: "'q quantity_ops \<Rightarrow> 'q ResourceList \<Rightarrow> iface" where
  "render_resources ops rl = IMap (\<lambda>k. case rl_get rl k of None \<Rightarrow> None | Some q \<Rightarrow> Some (IStr (QuantityString ops q)))"

definition render_rec :: "'q quantity_ops \<Rightarrow> 'q VPAContainerRecommendation \<Rightarrow> iface" where
  "render_rec ops r =
     IMap [''containerName'' \<mapsto> IStr (vcr_ContainerName r), ''target'' \<mapsto> render_resources ops (vcr_Target r),
           ''lowerBound'' \<mapsto> render_resources ops (vcr_LowerBound r), ''upperBound'' \<mapsto> render_resources ops (vcr_UpperBound r),
           ''uncappedTarget'' \<mapsto> render_resources ops (vcr_UncappedTarget r)]"

definition render_vpa :: "'q quantity_ops \<Rightarrow> 'q VPAInfo \<Rightarrow> imap" where
  "render_vpa ops v =
     [''metadata'' \<mapsto> IMap [''name'' \<mapsto> IStr (vi_Name v), ''namespace'' \<mapsto> IStr (vi_Namespace v)],
      ''spec'' \<mapsto> IMap [''targetRef'' \<mapsto> IMap [''kind'' \<mapsto> IStr (vi_TargetRefKind v), ''name'' \<mapsto> IStr (vi_TargetRefName v)],
                     ''updatePolicy'' \<mapsto> IMap [''updateMode'' \<mapsto> IStr (vi_UpdateMode v)]],
      ''status'' \<mapsto> (if vi_HasRecommendation v
         then IMap [''recommendation'' \<mapsto> IMap [''containerRecommendations'' \<mapsto>
                IList (map (render_rec ops) (vi_ContainerRecommendations v))]]
         else IMap Map.empty)]"

text \<open>What the program keeps of a resource list: a map (not nil) with at most CPU and memory.\<close>

definition cpu_memory :: "'q ResourceList \<Rightarrow> bool" where
  "cpu_memory rl \<longleftrightarrow> (\<exists>m. rl = Some m \<and> dom m \<subseteq> {''cpu'', ''memory''})"

definition parsed_rec :: "'q VPAContainerRecommendation \<Rightarrow> bool" where
  "parsed_rec r \<longleftrightarrow> cpu_memory (vcr_Target r) \<and> cpu_memory (vcr_LowerBound r) \<and> cpu_memory (vcr_UpperBound r)
     \<and> cpu_memory (vcr_UncappedTarget r)"

definition parsed_info :: "'q VPAInfo \<Rightarrow> bool" where
  "parsed_info v \<longleftrightarrow> list_all parsed_rec (vi_ContainerRecommendations v)
     \<and> (\<not> vi_HasRecommendation v \<longrightarrow> vi_ContainerRecommendations v = [])"

text \<open>The documented behaviour of the accessors of \<^verbatim>\<open>unstructured\<close>: they follow the path.\<close>

definition follows_paths :: "unstructured_ops \<Rightarrow> bool" where
  "follows_paths u \<longleftrightarrow>
     (\<forall>m p. NestedMap u m p = nested_as (\<lambda>v. as_map (Some v)) (lookup_path m p))
   \<and> (\<forall>m p. NestedString u m p = nested_as (\<lambda>v. as_string (Some v)) (lookup_path m p))
   \<and> (\<forall>m p. NestedSlice u m p = nested_as (\<lambda>v. case v of IList l \<Rightarrow> Some l | _ \<Rightarrow> None) (lookup_path m p))
   \<and> (\<forall>m. GetName u m = (case nested_as (\<lambda>v. as_string (Some v)) (lookup_path m [''metadata'', ''name'']) of Found s \<Rightarrow> s | _ \<Rightarrow> []))
   \<and> (\<forall>m. GetNamespace u m = (case nested_as (\<lambda>v. as_string (Some v)) (lookup_path m [''metadata'', ''namespace'']) of Found s \<Rightarrow> s | _ \<Rightarrow> []))"

lemma plain_follows: "follows_paths plain_unstructured"
  by (simp add: follows_paths_def plain_unstructured_def Let_def)

context printed_quantities
begin

lemma parse_resources:
  assumes "cpu_memory rl" "m field = Some (render_resources ops rl)"
  shows "parseResourceList ops m field = rl"
proof -
  obtain f where f: "rl = Some f" "dom f \<subseteq> {''cpu'', ''memory''}" using assms(1) by (auto simp: cpu_memory_def)
  let ?M = "\<lambda>k. case f k of None \<Rightarrow> None | Some q \<Rightarrow> Some (IStr (QuantityString ops q))"
  have m: "as_map (m field) = Some ?M" using assms(2) by (simp add: render_resources_def as_map_def f(1))
  have e: "parse_entry ops ?M key r = (case f key of None \<Rightarrow> r | Some q \<Rightarrow> r(key \<mapsto> q))" for key r
    by (simp add: parse_entry_def as_string_def parse_print split: option.split)
  let ?c = "case f ''cpu'' of None \<Rightarrow> Map.empty | Some q \<Rightarrow> [''cpu'' \<mapsto> q]"
  have "(case f ''memory'' of None \<Rightarrow> ?c | Some q \<Rightarrow> ?c(''memory'' \<mapsto> q)) = f"
  proof
    fix k
    have "f k = None" if "k \<noteq> ''cpu''" "k \<noteq> ''memory''" using f(2) that by (cases "f k") auto
    then show "(case f ''memory'' of None \<Rightarrow> ?c | Some q \<Rightarrow> ?c(''memory'' \<mapsto> q)) k = f k"
      by (cases "k = ''cpu''"; cases "k = ''memory''") (simp_all split: option.split)
  qed
  then show ?thesis by (simp add: parseResourceList_def m e f(1) Let_def)
qed

lemma parse_rec: "parsed_rec r \<Longrightarrow> as_map (Some (render_rec ops r)) = Some m \<Longrightarrow> parseContainerRecommendation ops m = r"
  using parse_resources[of "vcr_Target r" m "''target''"] parse_resources[of "vcr_LowerBound r" m "''lowerBound''"]
    parse_resources[of "vcr_UpperBound r" m "''upperBound''"] parse_resources[of "vcr_UncappedTarget r" m "''uncappedTarget''"]
  by (auto simp: parseContainerRecommendation_def parsed_rec_def render_rec_def as_map_def as_string_def)

lemma parse_rendered_recs: "list_all parsed_rec rs \<Longrightarrow> parse_recs ops (map (render_rec ops) rs) = rs"
proof (induction rs)
  case (Cons r rs)
  obtain m where m: "as_map (Some (render_rec ops r)) = Some m" by (simp add: render_rec_def as_map_def)
  show ?case using Cons parse_rec[OF _ m] by (simp add: m)
qed simp

lemma parse_render:
  assumes "parsed_info v" "follows_paths u"
  shows "parseVPA ops u (render_vpa ops v) = Inr v"
proof -
  let ?o = "render_vpa ops v"
  have p: "lookup_path ?o [''spec'', ''targetRef''] =
      Found (IMap [''kind'' \<mapsto> IStr (vi_TargetRefKind v), ''name'' \<mapsto> IStr (vi_TargetRefName v)])"
    "lookup_path ?o [''spec'', ''updatePolicy'', ''updateMode''] = Found (IStr (vi_UpdateMode v))"
    "lookup_path ?o [''metadata'', ''name''] = Found (IStr (vi_Name v))"
    "lookup_path ?o [''metadata'', ''namespace''] = Found (IStr (vi_Namespace v))"
    "lookup_path ?o [''status'', ''recommendation'', ''containerRecommendations''] =
      (if vi_HasRecommendation v then Found (IList (map (render_rec ops) (vi_ContainerRecommendations v))) else NotFound)"
    by (simp_all add: render_vpa_def as_map_def)
  note F = assms(2)[unfolded follows_paths_def]
  have n: "NestedMap u ?o [''spec'', ''targetRef''] =
      Found [''kind'' \<mapsto> IStr (vi_TargetRefKind v), ''name'' \<mapsto> IStr (vi_TargetRefName v)]"
    "NestedString u ?o [''spec'', ''updatePolicy'', ''updateMode''] = Found (vi_UpdateMode v)"
    "GetName u ?o = vi_Name v" "GetNamespace u ?o = vi_Namespace v"
    "NestedSlice u ?o [''status'', ''recommendation'', ''containerRecommendations''] =
      (if vi_HasRecommendation v then Found (map (render_rec ops) (vi_ContainerRecommendations v)) else NotFound)"
    unfolding F[THEN conjunct1, rule_format] F[THEN conjunct2, THEN conjunct1, rule_format]
      F[THEN conjunct2, THEN conjunct2, THEN conjunct1, rule_format]
      F[THEN conjunct2, THEN conjunct2, THEN conjunct2, THEN conjunct1, rule_format]
      F[THEN conjunct2, THEN conjunct2, THEN conjunct2, THEN conjunct2, rule_format] p
    by (simp_all add: nested_as_def as_map_def as_string_def)
  have "list_all parsed_rec (vi_ContainerRecommendations v)" "\<not> vi_HasRecommendation v \<Longrightarrow> vi_ContainerRecommendations v = []"
    using assms(1) by (simp_all add: parsed_info_def)
  then show ?thesis
    by (simp add: parseVPA_def n as_string_def Let_def parse_rendered_recs)
qed

end

text \<open>
  C16. The parser reads back what a VPA object holds: for every parsed form, the object that shows it
  (target, update mode, recommendations with printed quantities) parses to exactly that form,
  given quantities that print and parse and accessors that follow their paths.
\<close>

theorem parseVPA_reads_back:
  assumes "\<And>q. ParseQuantity ops (QuantityString ops q) = Some q" and "follows_paths u" and "parsed_info v"
  shows "parseVPA ops u (render_vpa ops v) = Inr v"
  by (rule printed_quantities.parse_render[OF printed_quantities.intro]) (use assms in auto)

theorem parseVPA_reads_back_witness:
  "parseVPA milli_ops plain_unstructured (render_vpa milli_ops (sample_info ''Off'')) = Inr (sample_info ''Off'')"
  by (rule parseVPA_reads_back[OF milli.parse_print plain_follows])
     (auto simp: parsed_info_def parsed_rec_def cpu_memory_def sample_info_def)

end
