(* ===== verification/PodMetrics.thy ===== *)
theory PodMetrics
  imports Cluster
begin

text \<open>
  Package \<^verbatim>\<open>internal/metrics\<close>: the program's Prometheus metrics as a state, the collector of
  container usage, and the allocations read off a pod.  A counter is the number of its
  increments (the program only calls \<^verbatim>\<open>Inc\<close>), a counter vector one number per label tuple, a
  histogram the list of its observations, newest last.
\<close>

section \<open>Prometheus metrics\<close>

record prom =
  PodsMonitored :: float64
  ResourceAdjustments :: "string \<times> string \<times> string \<times> string \<Rightarrow> nat"
  CollectionErrors :: nat
  EvaluationDuration :: "float64 list"
  StarvationEvents :: "string \<times> string \<Rightarrow> nat"
  RecommendationVariance :: "(string \<times> float64) list"

definition inc_adjustments :: "string \<times> string \<times> string \<times> string \<Rightarrow> prom \<Rightarrow> prom" where
  "inc_adjustments labels p =
     p\<lparr>ResourceAdjustments := (ResourceAdjustments p)(labels := Suc (ResourceAdjustments p labels))\<rparr>"

definition observe_variance :: "string \<Rightarrow> float64 \<Rightarrow> prom \<Rightarrow> prom" where
  "observe_variance resource x p = p\<lparr>RecommendationVariance := RecommendationVariance p @ [(resource, x)]\<rparr>"

section \<open>The collector\<close>

definition GetPodMetrics ::
  "('w, 's, 't, 'q) cluster \<Rightarrow> string \<Rightarrow> string \<Rightarrow> 'w \<Rightarrow> (goerr + 'q PodMetrics) \<times> 'w" where
  "GetPodMetrics cl namespace name w =
     (case GetPodMetricsObject cl namespace name w of
        (Inl e, w) \<Rightarrow> (Inl (Wrapf (''failed to get pod metrics for '' @ namespace @ ''/'' @ name) (ApiErr e)), w)
      | (Inr pm, w) \<Rightarrow> (Inr pm, w))"

section \<open>Current allocations\<close>

record ContainerResources =
  CPURequest :: float64
  CPULimit :: float64
  MemoryRequest :: float64
  MemoryLimit :: float64

definition amount :: "'q quantity_ops \<Rightarrow> 'q ResourceList \<Rightarrow> string \<Rightarrow> float64" where
  "amount ops rl key = (case rl_get rl key of Some q \<Rightarrow> AsApproximateFloat64 ops q | None \<Rightarrow> 0)"

definition container_resources :: "'q quantity_ops \<Rightarrow> 'q Container \<Rightarrow> ContainerResources" where
  "container_resources ops c =
     \<lparr>CPURequest = amount ops (ct_Requests c) ResourceCPU,
      CPULimit = amount ops (ct_Limits c) ResourceCPU,
      MemoryRequest = amount ops (ct_Requests c) ResourceMemory,
      MemoryLimit = amount ops (ct_Limits c) ResourceMemory\<rparr>"

definition GetCurrentAllocations :: "'q quantity_ops \<Rightarrow> 'q Pod \<Rightarrow> (string \<rightharpoonup> ContainerResources)" where
  "GetCurrentAllocations ops pod =
     foldl (\<lambda>result c. result(ct_Name c \<mapsto> container_resources ops c)) Map.empty (pod_Containers pod)"

lemma allocations_fold:
  "foldl (\<lambda>result c. result(ct_Name c \<mapsto> f c)) Map.empty cs name =
     (if name \<in> ct_Name ` set cs then Some (f (last (filter (\<lambda>c. ct_Name c = name) cs))) else None)"
  by (induction cs rule: rev_induct) auto

text \<open>
  A container's allocation is the one of the pod's last container of that name, and a name
  has an allocation exactly when some container has it.  (Kubernetes keeps names unique, so it
  is the container's own.)
\<close>

lemma GetCurrentAllocations_lookup:
  "GetCurrentAllocations ops pod name =
     (if name \<in> ct_Name ` set (pod_Containers pod)
      then Some (container_resources ops (last (filter (\<lambda>c. ct_Name c = name) (pod_Containers pod))))
      else None)"
  by (simp only: GetCurrentAllocations_def allocations_fold)

end
