(* ===== verification/GoJson.thy ===== *)
theory GoJson
  imports GoFmt
begin

text \<open>
  What \<^verbatim>\<open>encoding/json\<close> writes for strings, booleans and float64 values.  A number is written
  with the fewest significant digits that read back as the same float64 (\<^verbatim>\<open>strconv\<close>'s shortest
  form), in plain notation from \<^verbatim>\<open>1e-6\<close> to \<^verbatim>\<open>1e21\<close> and with an exponent outside; NaN and the
  infinities are errors.  A string is ASCII or valid UTF-8 without the line separators U+2028
  and U+2029.
\<close>

section \<open>Shortest decimal\<close>

text \<open>The decimal exponent: \<open>10 powi exp10 q \<le> q < 10 powi (exp10 q + 1)\<close> for positive \<open>q\<close>.\<close>

definition exp10 :: "rat \<Rightarrow> int" where
  "exp10 q = (if 1 \<le> q then int (length (dec (nat \<lfloor>q\<rfloor>))) - 1 else - int (length (dec (nat (\<lceil>1 / q\<rceil> - 1)))))"

text \<open>
  The \<open>p\<close>-digit decimals \<open>n * 10 powi k\<close> next to \<open>q\<close>, the nearer one first; the first that reads
  back as \<open>q\<close>.  Rounding up may reach the next power of ten, which is written with fewer digits.
\<close>

definition digits_at :: "rat \<Rightarrow> nat \<Rightarrow> (int \<times> int) option" where
  "digits_at q p =
     (let k = exp10 q - int p + 1;
          x = q / 10 powi k;
          near = rhe x;
          other = (if of_int near \<le> x then near + 1 else near - 1);
          back = (\<lambda>n. rn (of_int n * 10 powi k) = q);
          strip = (\<lambda>n. if n = 10 ^ p then (1, k + int p) else (n, k))
      in if back near then Some (strip near) else if back other then Some (strip other) else None)"

text \<open>Seventeen significant digits determine a float64.\<close>

fun shortest_from :: "rat \<Rightarrow> nat \<Rightarrow> nat \<Rightarrow> int \<times> int" where
  "shortest_from q p 0 = (let k = exp10 q - int p + 1 in (rhe (q / 10 powi k), k))"
| "shortest_from q p (Suc fuel) =
     (case digits_at q p of Some r \<Rightarrow> r | None \<Rightarrow> shortest_from q (Suc p) fuel)"

lemma shortest_from_numeral [float_eval]:
  "shortest_from q p (numeral v) =
     (case digits_at q p of Some r \<Rightarrow> r | None \<Rightarrow> shortest_from q (Suc p) (pred_numeral v))"
  by (simp add: numeral_eq_Suc)

definition shortest :: "rat \<Rightarrow> int \<times> int" where
  "shortest q = shortest_from q 1 16"

section \<open>Values\<close>

definition plain_decimal :: "int \<times> int \<Rightarrow> string" where
  "plain_decimal d =
     (case d of (n, k) \<Rightarrow>
        (let ds = dec (nat n); m = nat (- k)
         in if 0 \<le> k then ds @ replicate (nat k) CHR ''0''
            else if m < length ds then take (length ds - m) ds @ ''.'' @ drop (length ds - m) ds
            else ''0.'' @ replicate (m - length ds) CHR ''0'' @ ds))"

definition exponent_decimal :: "int \<times> int \<Rightarrow> string" where
  "exponent_decimal d =
     (case d of (n, k) \<Rightarrow>
        (let ds = dec (nat n); x = int (length ds) + k - 1
         in take 1 ds @ (if length ds = 1 then [] else ''.'' @ drop 1 ds)
            @ (if x < 0 then ''e-'' else ''e+'') @ dec (nat \<bar>x\<bar>)))"

definition json_float :: "float64 \<Rightarrow> string option" where
  "json_float x =
     (case x of
        Fin s q \<Rightarrow>
          Some ((if s then ''-'' else []) @
                (if q = 0 then ''0''
                 else if Fin False q < lit (1 / 10 ^ 6) \<or> Fin False q \<ge> lit (10 ^ 21) then exponent_decimal (shortest q)
                 else plain_decimal (shortest q)))
      | _ \<Rightarrow> None)"

definition json_char :: "char \<Rightarrow> string" where
  "json_char c =
     (let n = of_char c :: nat
      in if n = 34 \<or> n = 92 then [CHR 0x5C, c]
         else if n = 8 then [CHR 0x5C, CHR ''b'']
         else if n = 12 then [CHR 0x5C, CHR ''f'']
         else if n = 10 then [CHR 0x5C, CHR ''n'']
         else if n = 13 then [CHR 0x5C, CHR ''r'']
         else if n = 9 then [CHR 0x5C, CHR ''t'']
         else if n < 32 \<or> n = 60 \<or> n = 62 \<or> n = 38 then [CHR 0x5C] @ ''u00'' @ hex2 n
         else [c])"

definition json_string :: "string \<Rightarrow> string" where
  "json_string s = [CHR 0x22] @ concat (map json_char s) @ [CHR 0x22]"

definition json_bool :: "bool \<Rightarrow> string" where
  "json_bool b = (if b then ''true'' else ''false'')"

text \<open>A member of an object; a text already encoded, or the float64 that cannot be.\<close>

definition json_member :: "string \<Rightarrow> string \<Rightarrow> string" where
  "json_member name value = json_string name @ '':'' @ value"

fun json_members :: "(string \<times> (float64 + string)) list \<Rightarrow> float64 + string list" where
  "json_members [] = Inr []"
| "json_members ((name, Inr text) # ms) = map_sum id ((#) (json_member name text)) (json_members ms)"
| "json_members ((name, Inl x) # ms) =
     (case json_float x of
        None \<Rightarrow> Inl x
      | Some text \<Rightarrow> map_sum id ((#) (json_member name text)) (json_members ms))"

fun join_commas :: "string list \<Rightarrow> string" where
  "join_commas [] = []"
| "join_commas [s] = s"
| "join_commas (s # ss) = s @ '','' @ join_commas ss"

definition json_object :: "(string \<times> (float64 + string)) list \<Rightarrow> goerr + string" where
  "json_object ms =
     (case json_members ms of
        Inl x \<Rightarrow> Inl (Errorf (''json: unsupported value: '' @ fmt_f 0 x))
      | Inr texts \<Rightarrow> Inr (''{'' @ join_commas texts @ ''}''))"

lemma json_float_fin: "json_float x \<noteq> None \<longleftrightarrow> is_fin x"
  by (auto simp: json_float_def is_fin_def split: float64.splits)

lemma json_members_ok:
  "(\<exists>ts. json_members ms = Inr ts) \<longleftrightarrow> (\<forall>(name, v)\<in>set ms. \<forall>x. v = Inl x \<longrightarrow> is_fin x)"
proof (induction ms rule: json_members.induct)
  case (3 name x ms)
  then show ?case
    using json_float_fin[of x] by (cases "json_members ms") (auto split: option.splits)
next
  case (2 name t ms)
  then show ?case by (cases "json_members ms") auto
qed simp

lemma json_object_ok:
  "(\<exists>t. json_object ms = Inr t) \<longleftrightarrow> (\<forall>(name, v)\<in>set ms. \<forall>x. v = Inl x \<longrightarrow> is_fin x)"
  using json_members_ok[of ms] by (cases "json_members ms") (auto simp: json_object_def)

end
