(* ===== verification/Updater.thy ===== *)
theory Updater
  imports Cluster Calculator GoJson
begin

text \<open>
  Package \<^verbatim>\<open>internal/updater\<close>: applying a recommendation to one container of a pod, in place or
  by annotating and evicting the pod.  The pod is the caller's object: every operation returns
  it as it leaves it in memory, also when it fails.
\<close>

section \<open>Modes\<close>

abbreviation ModeAuto :: string where "ModeAuto \<equiv> ''Auto''"
abbreviation ModeInPlace :: string where "ModeInPlace \<equiv> ''InPlace''"
abbreviation ModeRecreate :: string where "ModeRecreate \<equiv> ''Recreate''"
abbreviation ModeOff :: string where "ModeOff \<equiv> ''Off''"

abbreviation last_recommendation :: string where
  "last_recommendation \<equiv> ''podfather.io/last-recommendation''"

section \<open>Quantities\<close>

definition cpu_quantity :: "'q quantity_ops \<Rightarrow> float64 \<Rightarrow> 'q" where
  "cpu_quantity ops x = NewMilliQuantity ops (to_int64 (Int64OutOfRange ops) (x * lit 1000))"

definition mem_quantity :: "'q quantity_ops \<Rightarrow> float64 \<Rightarrow> 'q" where
  "mem_quantity ops x = NewQuantity ops (to_int64 (Int64OutOfRange ops) x)"

section \<open>In-place resize\<close>

definition set_resources :: "'q quantity_ops \<Rightarrow> ResourceRecommendation \<Rightarrow> 'q Container \<Rightarrow> 'q Container" where
  "set_resources ops rec c =
     c\<lparr>ct_Requests := rl_put (rl_put (ct_Requests c) ResourceCPU (cpu_quantity ops (rr_CPUCoresRequest rec)))
                       ResourceMemory (mem_quantity ops (rr_MemoryBytesRequest rec)),
       ct_Limits := rl_put (rl_put (ct_Limits c) ResourceCPU (cpu_quantity ops (rr_CPUCoresLimit rec)))
                     ResourceMemory (mem_quantity ops (rr_MemoryBytesLimit rec))\<rparr>"

text \<open>The loop, which stops at the first container of the name; the flag is \<open>updated\<close>.\<close>

fun update_container ::
  "'q quantity_ops \<Rightarrow> ResourceRecommendation \<Rightarrow> 'q Container list \<Rightarrow> 'q Container list \<times> bool" where
  "update_container ops rec [] = ([], False)"
| "update_container ops rec (c # cs) =
     (if ct_Name c = rr_ContainerName rec then (set_resources ops rec c # cs, True)
      else (case update_container ops rec cs of (cs', updated) \<Rightarrow> (c # cs', updated)))"

definition applyInPlace ::
  "('w, 's, 't, 'q) cluster \<Rightarrow> 'q quantity_ops \<Rightarrow> 'q Pod \<Rightarrow> ResourceRecommendation \<Rightarrow> 'w
   \<Rightarrow> (goerr option \<times> 'q Pod) \<times> 'w" where
  "applyInPlace cl ops pod rec w =
     (let base = pod;
          (cs, updated) = update_container ops rec (pod_Containers pod);
          pod = pod\<lparr>pod_Containers := cs\<rparr>
      in if \<not> updated
         then ((Some (Errorf (''container '' @ go_quote (rr_ContainerName rec) @ '' not found in pod ''
                       @ pod_Namespace pod @ ''/'' @ pod_Name pod)), pod), w)
         else (case PatchPod cl base pod w of
                 (Inl e, w) \<Rightarrow> ((Some (ApiErr e), pod), w)
               | (Inr pod', w) \<Rightarrow> ((None, pod'), w)))"

section \<open>Eviction\<close>

definition marshal :: "ResourceRecommendation \<Rightarrow> goerr + string" where
  "marshal rec = json_object
     [(''ContainerName'', Inr (json_string (rr_ContainerName rec))),
      (''CPUCoresRequest'', Inl (rr_CPUCoresRequest rec)),
      (''CPUCoresLimit'', Inl (rr_CPUCoresLimit rec)),
      (''MemoryBytesRequest'', Inl (rr_MemoryBytesRequest rec)),
      (''MemoryBytesLimit'', Inl (rr_MemoryBytesLimit rec)),
      (''CPUVariancePercent'', Inl (rr_CPUVariancePercent rec)),
      (''MemoryVariancePercent'', Inl (rr_MemoryVariancePercent rec)),
      (''SignificantVariance'', Inr (json_bool (rr_SignificantVariance rec)))]"

definition annotate :: "string \<Rightarrow> string \<Rightarrow> 'q Pod \<Rightarrow> 'q Pod" where
  "annotate key v pod =
     pod\<lparr>pod_Annotations := Some ((case pod_Annotations pod of None \<Rightarrow> Map.empty | Some m \<Rightarrow> m)(key \<mapsto> v))\<rparr>"

definition applyViaEviction ::
  "('w, 's, 't, 'q) cluster \<Rightarrow> 'q Pod \<Rightarrow> ResourceRecommendation \<Rightarrow> 'w \<Rightarrow> (goerr option \<times> 'q Pod) \<times> 'w" where
  "applyViaEviction cl pod rec w =
     (let base = pod in
      case marshal rec of
        Inl err \<Rightarrow> ((Some (Wrapf ''failed to marshal recommendation'' err), pod), w)
      | Inr recJSON \<Rightarrow>
          (let pod = annotate last_recommendation recJSON pod in
           case PatchPod cl base pod w of
             (Inl e, w) \<Rightarrow> ((Some (Wrapf ''failed to annotate pod'' (ApiErr e)), pod), w)
           | (Inr pod, w) \<Rightarrow>
               (case EvictPod cl (pod_Namespace pod) (pod_Name pod) w of
                  (Some e, w) \<Rightarrow> ((Some (Wrapf ''failed to evict pod'' (ApiErr e)), pod), w)
                | (None, w) \<Rightarrow> ((None, pod), w))))"

section \<open>The strategies\<close>

definition ApplyRecommendation ::
  "('w, 's, 't, 'q) cluster \<Rightarrow> 'q quantity_ops \<Rightarrow> 'q Pod \<Rightarrow> ResourceRecommendation \<Rightarrow> string \<Rightarrow> 'w
   \<Rightarrow> ((goerr + string) \<times> 'q Pod) \<times> 'w" where
  "ApplyRecommendation cl ops pod rec mode w =
     (if mode = ModeOff then ((Inr ''off'', pod), w)
      else if mode = ModeInPlace then
        (case applyInPlace cl ops pod rec w of
           ((Some err, pod), w) \<Rightarrow> ((Inl (Wrapf ''in-place update failed'' err), pod), w)
         | ((None, pod), w) \<Rightarrow> ((Inr ''in-place'', pod), w))
      else if mode = ModeRecreate then
        (case applyViaEviction cl pod rec w of
           ((Some err, pod), w) \<Rightarrow> ((Inl (Wrapf ''eviction update failed'' err), pod), w)
         | ((None, pod), w) \<Rightarrow> ((Inr ''eviction'', pod), w))
      else if mode = ModeAuto then
        (case applyInPlace cl ops pod rec w of
           ((None, pod), w) \<Rightarrow> ((Inr ''in-place'', pod), w)
         | ((Some _, pod), w) \<Rightarrow>
             (case applyViaEviction cl pod rec w of
                ((Some err, pod), w) \<Rightarrow> ((Inl (Wrapf ''fallback eviction also failed'' err), pod), w)
              | ((None, pod), w) \<Rightarrow> ((Inr ''eviction-fallback'', pod), w)))
      else ((Inl (Errorf (''unknown update mode: '' @ mode)), pod), w))"

end
