(* ===== verification/Trace.thy ===== *)
theory Trace
  imports Cluster
begin

text \<open>
  A cluster that keeps a trace of the writes the program asks for.  The program is modelled for
  any cluster, so it runs on a traced one too; what it may or may not write is stated as a
  property of the trace, whatever the cluster answers.
\<close>

datatype ('s, 'q) call =
    PatchCall "'q Pod" "'q Pod"
  | EvictCall string string
  | UpdateCall "('s, 'q) PodAutoscaler"
  | StatusCall "('s, 'q) PodAutoscaler"

type_synonym ('w, 's, 'q) traced_world = "'w \<times> ('s, 'q) call list"

definition untraced :: "('w \<Rightarrow> 'a \<times> 'w) \<Rightarrow> 'w \<times> 'c list \<Rightarrow> 'a \<times> ('w \<times> 'c list)" where
  "untraced f s = (case f (fst s) of (r, w) \<Rightarrow> (r, (w, snd s)))"

definition logged :: "'c \<Rightarrow> ('w \<Rightarrow> 'a \<times> 'w) \<Rightarrow> 'w \<times> 'c list \<Rightarrow> 'a \<times> ('w \<times> 'c list)" where
  "logged c f s = (case f (fst s) of (r, w) \<Rightarrow> (r, (w, snd s @ [c])))"

definition traced :: "('w, 's, 't, 'q) cluster \<Rightarrow> (('w, 's, 'q) traced_world, 's, 't, 'q) cluster" where
  "traced cl =
     \<lparr>GetPodAutoscaler = (\<lambda>ns name. untraced (GetPodAutoscaler cl ns name)),
      UpdatePodAutoscaler = (\<lambda>pa. logged (UpdateCall pa) (UpdatePodAutoscaler cl pa)),
      UpdateStatus = (\<lambda>pa. logged (StatusCall pa) (UpdateStatus cl pa)),
      ListPods = (\<lambda>ns sel. untraced (ListPods cl ns sel)),
      PatchPod = (\<lambda>base pod. logged (PatchCall base pod) (PatchPod cl base pod)),
      EvictPod = (\<lambda>ns name. logged (EvictCall ns name) (EvictPod cl ns name)),
      GetPodMetricsObject = (\<lambda>ns name. untraced (GetPodMetricsObject cl ns name)),
      ListLimitRanges = (\<lambda>ns. untraced (ListLimitRanges cl ns)),
      ListResourceQuotas = (\<lambda>ns. untraced (ListResourceQuotas cl ns)),
      ListVPAsLimit = (\<lambda>n. untraced (ListVPAsLimit cl n)),
      ListVPAs = (\<lambda>ns. untraced (ListVPAs cl ns)),
      GetVPAObject = (\<lambda>ns name. untraced (GetVPAObject cl ns name)),
      Now = untraced (Now cl),
      LabelSelectorAsSelector = LabelSelectorAsSelector cl,
      ContainsFinalizer = ContainsFinalizer cl,
      AddFinalizer = AddFinalizer cl,
      RemoveFinalizer = RemoveFinalizer cl\<rparr>"

section \<open>Growth of a trace\<close>

definition grows :: "('c \<Rightarrow> bool) \<Rightarrow> 'c list \<Rightarrow> 'c list \<Rightarrow> bool" where
  "grows P tr tr' \<longleftrightarrow> (\<exists>new. tr' = tr @ new \<and> list_all P new)"

lemma grows_refl [simp, intro]: "grows P tr tr"
  by (simp add: grows_def)

lemma grows_trans [trans]: "grows P a b \<Longrightarrow> grows P b c \<Longrightarrow> grows P a c"
  by (auto simp: grows_def)

lemma grows_snoc [simp]: "grows P tr (tr @ [c]) \<longleftrightarrow> P c"
  by (simp add: grows_def)

lemma grows_mono: "grows P a b \<Longrightarrow> (\<And>c. P c \<Longrightarrow> Q c) \<Longrightarrow> grows Q a b"
  by (auto simp: grows_def list_all_iff)

lemma grows_append [simp]: "grows P tr (tr @ new) \<longleftrightarrow> list_all P new"
  by (simp add: grows_def)

lemma untraced_trace: "untraced f s = (r, s') \<Longrightarrow> snd s' = snd s"
  by (auto simp: untraced_def split: prod.splits)

lemma logged_trace: "logged c f s = (r, s') \<Longrightarrow> snd s' = snd s @ [c]"
  by (auto simp: logged_def split: prod.splits)

lemma traced_reads:
  "GetPodAutoscaler (traced cl) ns n s = (r1, s1) \<Longrightarrow> snd s1 = snd s"
  "ListPods (traced cl) ns sel s = (r2, s2) \<Longrightarrow> snd s2 = snd s"
  "GetPodMetricsObject (traced cl) ns n s = (r3, s3) \<Longrightarrow> snd s3 = snd s"
  "ListLimitRanges (traced cl) ns s = (r4, s4) \<Longrightarrow> snd s4 = snd s"
  "ListResourceQuotas (traced cl) ns s = (r5, s5) \<Longrightarrow> snd s5 = snd s"
  "ListVPAsLimit (traced cl) k s = (r6, s6) \<Longrightarrow> snd s6 = snd s"
  "ListVPAs (traced cl) ns s = (r7, s7) \<Longrightarrow> snd s7 = snd s"
  "GetVPAObject (traced cl) ns n s = (r8, s8) \<Longrightarrow> snd s8 = snd s"
  "Now (traced cl) s = (r9, s9) \<Longrightarrow> snd s9 = snd s"
  by (simp_all add: traced_def untraced_trace)

lemma traced_writes:
  "UpdatePodAutoscaler (traced cl) pa s = (r1, s1) \<Longrightarrow> snd s1 = snd s @ [UpdateCall pa]"
  "UpdateStatus (traced cl) pa s = (r2, s2) \<Longrightarrow> snd s2 = snd s @ [StatusCall pa]"
  "PatchPod (traced cl) base pod s = (r3, s3) \<Longrightarrow> snd s3 = snd s @ [PatchCall base pod]"
  "EvictPod (traced cl) ns n s = (r4, s4) \<Longrightarrow> snd s4 = snd s @ [EvictCall ns n]"
  by (simp_all add: traced_def logged_trace)

lemma traced_pure [simp]:
  "LabelSelectorAsSelector (traced cl) = LabelSelectorAsSelector cl"
  "ContainsFinalizer (traced cl) = ContainsFinalizer cl"
  "AddFinalizer (traced cl) = AddFinalizer cl"
  "RemoveFinalizer (traced cl) = RemoveFinalizer cl"
  by (simp_all add: traced_def)

section \<open>Kinds of calls\<close>

fun is_patch :: "('s, 'q) call \<Rightarrow> bool" where
  "is_patch (PatchCall base pod) = True" | "is_patch _ = False"

fun is_evict :: "('s, 'q) call \<Rightarrow> bool" where
  "is_evict (EvictCall ns name) = True" | "is_evict _ = False"

definition touches_pod :: "('s, 'q) call \<Rightarrow> bool" where
  "touches_pod c \<longleftrightarrow> is_patch c \<or> is_evict c"

lemma touches_pod_simps [simp]:
  "touches_pod (PatchCall b p)" "touches_pod (EvictCall ns n)" "\<not> touches_pod (UpdateCall pa)" "\<not> touches_pod (StatusCall pa)"
  by (simp_all add: touches_pod_def)

end
