(* ===== verification/UpdaterProps.thy ===== *)
theory UpdaterProps
  imports Updater Trace
begin

text \<open>
  What applying a recommendation writes: which container of the pod it changes, and which calls
  it makes in which mode, on every path.
\<close>

section \<open>The changed container\<close>

lemma update_container_split:
  "update_container ops rec (pre @ c # post) = (pre @ set_resources ops rec c # post, True)"
  if "\<forall>d\<in>set pre. ct_Name d \<noteq> rr_ContainerName rec" "ct_Name c = rr_ContainerName rec"
  using that by (induction pre) auto

lemma update_container_missing:
  "\<forall>c\<in>set cs. ct_Name c \<noteq> rr_ContainerName rec \<Longrightarrow> update_container ops rec cs = (cs, False)"
  by (induction cs) auto

text \<open>
  An in-place resize changes exactly the first container of the recommendation's name and
  reports whether there is one; of that container it sets the CPU and memory entries of requests
  and limits to the recommended quantities and keeps its name and every other resource.
\<close>

lemma update_container_first:
  "case update_container ops rec cs of
     (cs', False) \<Rightarrow> cs' = cs \<and> rr_ContainerName rec \<notin> ct_Name ` set cs
   | (cs', True) \<Rightarrow> \<exists>pre c c' post. cs = pre @ c # post \<and> cs' = pre @ c' # post
       \<and> rr_ContainerName rec \<notin> ct_Name ` set pre
       \<and> ct_Name c = rr_ContainerName rec \<and> ct_Name c' = ct_Name c
       \<and> rl_get (ct_Requests c') = (rl_get (ct_Requests c))
            (''cpu'' \<mapsto> cpu_quantity ops (rr_CPUCoresRequest rec), ''memory'' \<mapsto> mem_quantity ops (rr_MemoryBytesRequest rec))
       \<and> rl_get (ct_Limits c') = (rl_get (ct_Limits c))
            (''cpu'' \<mapsto> cpu_quantity ops (rr_CPUCoresLimit rec), ''memory'' \<mapsto> mem_quantity ops (rr_MemoryBytesLimit rec))"
proof (cases "\<exists>c\<in>set cs. ct_Name c = rr_ContainerName rec")
  case True
  then obtain pre c post where cs: "cs = pre @ c # post" "ct_Name c = rr_ContainerName rec"
    "\<forall>d\<in>set pre. ct_Name d \<noteq> rr_ContainerName rec"
    using split_list_first_prop[OF True] by blast
  show ?thesis
    unfolding cs(1) update_container_split[OF cs(3,2)] prod.case bool.case
    using cs(2,3) by (intro exI[of _ pre] exI[of _ c] exI[of _ "set_resources ops rec c"] exI[of _ post])
      (auto simp: set_resources_def fun_eq_iff)
next
  case False
  then show ?thesis by (auto simp: update_container_missing)
qed

section \<open>Calls\<close>

text \<open>The pod as the in-place patch sends it.\<close>

definition resized :: "'q quantity_ops \<Rightarrow> ResourceRecommendation \<Rightarrow> 'q Pod \<Rightarrow> 'q Pod" where
  "resized ops rec pod = pod\<lparr>pod_Containers := fst (update_container ops rec (pod_Containers pod))\<rparr>"

definition has_container :: "ResourceRecommendation \<Rightarrow> 'q Pod \<Rightarrow> bool" where
  "has_container rec pod \<longleftrightarrow> rr_ContainerName rec \<in> ct_Name ` set (pod_Containers pod)"

lemma update_container_flag: "snd (update_container ops rec cs) \<longleftrightarrow> rr_ContainerName rec \<in> ct_Name ` set cs"
  by (induction cs) (auto split: prod.splits)

lemma resized_missing: "\<not> has_container rec pod \<Longrightarrow> resized ops rec pod = pod"
proof -
  assume "\<not> has_container rec pod"
  then have "\<forall>c\<in>set (pod_Containers pod). ct_Name c \<noteq> rr_ContainerName rec" by (force simp: has_container_def)
  then show ?thesis by (simp add: resized_def update_container_missing)
qed

lemma inplace_trace:
  assumes "applyInPlace (traced cl) ops pod rec s = ((err, pod'), s')"
  shows "snd s' = snd s @ (if has_container rec pod then [PatchCall pod (resized ops rec pod)] else [])"
    and "\<not> has_container rec pod \<Longrightarrow> s' = s \<and> err \<noteq> None \<and> pod' = pod"
    and "err \<noteq> None \<Longrightarrow> pod' = resized ops rec pod"
proof -
  obtain cs u where u: "update_container ops rec (pod_Containers pod) = (cs, u)" by (metis surj_pair)
  have f: "u \<longleftrightarrow> has_container rec pod"
    using update_container_flag[of ops rec "pod_Containers pod"] by (simp add: u has_container_def)
  have r: "resized ops rec pod = pod\<lparr>pod_Containers := cs\<rparr>" by (simp add: resized_def u)
  show "snd s' = snd s @ (if has_container rec pod then [PatchCall pod (resized ops rec pod)] else [])"
    using assms by (auto simp: applyInPlace_def Let_def u f r split: prod.splits sum.splits if_splits dest: traced_writes)
  show "\<not> has_container rec pod \<Longrightarrow> s' = s \<and> err \<noteq> None \<and> pod' = pod"
    using assms resized_missing[of rec pod ops] by (auto simp: applyInPlace_def Let_def u f r)
  show "err \<noteq> None \<Longrightarrow> pod' = resized ops rec pod"
    using assms by (auto simp: applyInPlace_def Let_def u r split: prod.splits sum.splits if_splits)
qed

lemma eviction_trace:
  assumes "applyViaEviction (traced cl) pod rec s = ((err, pod'), s')"
  shows "marshal rec = Inl e \<Longrightarrow> s' = s \<and> err \<noteq> None \<and> pod' = pod"
    and "marshal rec = Inr js \<Longrightarrow>
      snd s' = snd s @ [PatchCall pod (annotate last_recommendation js pod)] \<and> err \<noteq> None \<or>
      snd s' = snd s @ [PatchCall pod (annotate last_recommendation js pod), EvictCall (pod_Namespace pod') (pod_Name pod')]"
  using assms
  by (auto simp: applyViaEviction_def Let_def split: sum.splits prod.splits option.splits dest!: traced_writes)

lemma marshal_ok:
  "(\<exists>js. marshal rec = Inr js) \<longleftrightarrow>
     is_fin (rr_CPUCoresRequest rec) \<and> is_fin (rr_CPUCoresLimit rec) \<and>
     is_fin (rr_MemoryBytesRequest rec) \<and> is_fin (rr_MemoryBytesLimit rec) \<and>
     is_fin (rr_CPUVariancePercent rec) \<and> is_fin (rr_MemoryVariancePercent rec)"
  unfolding marshal_def json_object_ok by auto

section \<open>A sample pod\<close>

definition sample_pod :: "int Pod" where
  "sample_pod =
     \<lparr>pod_Name = ''web-1'', pod_Namespace = ''prod'', pod_Phase = PodRunning, pod_Deleting = False,
      pod_Annotations = None,
      pod_Containers =
        [\<lparr>ct_Name = ''app'', ct_Requests = Some [''cpu'' \<mapsto> 1000, ''memory'' \<mapsto> 536870912000],
          ct_Limits = Some [''cpu'' \<mapsto> 2000, ''memory'' \<mapsto> 1073741824000]\<rparr>]\<rparr>"

abbreviation sample_traced :: "((nat, string, int) traced_world, string, string, int) cluster" where
  "sample_traced \<equiv> traced (fixed_cluster (sample_pa ''Auto'' False) [sample_pod] [] [] [] [])"

lemma sample_has: "has_container sample_rec sample_pod"
  by (simp add: has_container_def sample_rec_def sample_pod_def)

lemma sample_resized: "update_container ops sample_rec (pod_Containers sample_pod) = (pod_Containers (resized ops sample_rec sample_pod), True)"
  by (simp add: resized_def sample_pod_def sample_rec_def)

lemma sample_inplace:
  "ApplyRecommendation sample_traced milli_ops sample_pod sample_rec ''InPlace'' (0, []) =
     ((Inr ''in-place'', resized milli_ops sample_rec sample_pod), (1, [PatchCall sample_pod (resized milli_ops sample_rec sample_pod)]))"
  by (simp add: ApplyRecommendation_def applyInPlace_def sample_resized traced_def logged_def fixed_cluster_def)
     (simp add: resized_def Let_def)

section \<open>The strategies\<close>

definition eviction_calls :: "ResourceRecommendation \<Rightarrow> 'q Pod \<Rightarrow> ('s, 'q) call list \<Rightarrow> bool" where
  "eviction_calls rec pod new \<longleftrightarrow>
     (case marshal rec of
        Inl e \<Rightarrow> new = []
      | Inr js \<Rightarrow> \<exists>rest. new = PatchCall pod (annotate last_recommendation js pod) # rest
          \<and> (rest = [] \<or> (\<exists>ns n. rest = [EvictCall ns n])))"

definition inplace_calls :: "'q quantity_ops \<Rightarrow> ResourceRecommendation \<Rightarrow> 'q Pod \<Rightarrow> ('s, 'q) call list" where
  "inplace_calls ops rec pod = (if has_container rec pod then [PatchCall pod (resized ops rec pod)] else [])"

lemma eviction_grows:
  assumes "applyViaEviction (traced cl) pod rec s = ((err, pod'), s')"
  shows "\<exists>new. snd s' = snd s @ new \<and> eviction_calls rec pod new \<and> (err = None \<longrightarrow> (\<exists>ns n. EvictCall ns n \<in> set new))"
  using eviction_trace[OF assms] by (cases "marshal rec") (auto simp: eviction_calls_def)

lemmas mode_cases = ApplyRecommendation_def

lemma Apply_InPlace:
  assumes "ApplyRecommendation (traced cl) ops pod rec ''InPlace'' s = ((r, pod'), s')"
  shows "snd s' = snd s @ inplace_calls ops rec pod"
    and "r = Inr st \<Longrightarrow> st = ''in-place'' \<and> has_container rec pod"
  using assms inplace_trace(1,2)[of cl ops pod rec s]
  by (auto simp: mode_cases inplace_calls_def split: prod.splits option.splits)

lemma Apply_Recreate:
  assumes "ApplyRecommendation (traced cl) ops pod rec ''Recreate'' s = ((r, pod'), s')"
  shows "\<exists>new. snd s' = snd s @ new \<and> eviction_calls rec pod new
     \<and> (\<forall>st. r = Inr st \<longrightarrow> st = ''eviction'' \<and> (\<exists>ns n. EvictCall ns n \<in> set new))"
proof -
  obtain err p2 s2 where e: "applyViaEviction (traced cl) pod rec s = ((err, p2), s2)" by (metis surj_pair)
  with assms have "s2 = s'" "r = Inr st \<Longrightarrow> err = None \<and> st = ''eviction''" for st
    by (auto simp: mode_cases split: option.splits)
  with eviction_grows[OF e] show ?thesis by blast
qed

lemma Apply_Auto:
  assumes "ApplyRecommendation (traced cl) ops pod rec ''Auto'' s = ((r, pod'), s')"
  shows "if r = Inr ''in-place'' then snd s' = snd s @ inplace_calls ops rec pod \<and> has_container rec pod
    else \<exists>new. snd s' = snd s @ inplace_calls ops rec pod @ new \<and> eviction_calls rec (resized ops rec pod) new
       \<and> (\<forall>st. r = Inr st \<longrightarrow> st = ''eviction-fallback'' \<and> (\<exists>ns n. EvictCall ns n \<in> set new))"
proof -
  obtain err p1 s1 where i: "applyInPlace (traced cl) ops pod rec s = ((err, p1), s1)" by (metis surj_pair)
  note t = inplace_trace[OF i]
  show ?thesis
  proof (cases err)
    case None
    with i assms t(1,2) show ?thesis by (auto simp: mode_cases inplace_calls_def)
  next
    case (Some e1)
    obtain err2 p2 s2 where e: "applyViaEviction (traced cl) p1 rec s1 = ((err2, p2), s2)" by (metis surj_pair)
    have p1: "p1 = resized ops rec pod" using t(3) Some by simp
    have "s2 = s'" "r \<noteq> Inr ''in-place''" "r = Inr st \<Longrightarrow> err2 = None \<and> st = ''eviction-fallback''" for st
      using assms i Some e by (auto simp: mode_cases split: option.splits)
    with eviction_grows[OF e] t(1) p1 show ?thesis by (auto simp: inplace_calls_def)
  qed
qed

text \<open>
  C10. The calls of every mode, whatever the API server answers: \<^verbatim>\<open>Off\<close> and unknown modes make
  none and leave the pod alone; \<^verbatim>\<open>InPlace\<close> sends one resource patch, or nothing if the container is
  missing; \<^verbatim>\<open>Recreate\<close> annotates and then at most evicts; \<^verbatim>\<open>Auto\<close> goes on to the eviction only after
  the in-place attempt has failed.
\<close>

theorem ApplyRecommendation_calls:
  assumes "ApplyRecommendation (traced cl) ops pod rec mode s = ((r, pod'), s')"
  shows "(mode = ''Off'' \<longrightarrow> r = Inr ''off'' \<and> pod' = pod \<and> s' = s)
       \<and> (mode \<notin> {''Off'', ''InPlace'', ''Recreate'', ''Auto''} \<longrightarrow> (\<exists>e. r = Inl e) \<and> pod' = pod \<and> s' = s)
       \<and> (mode = ''InPlace'' \<longrightarrow> snd s' = snd s @ inplace_calls ops rec pod)
       \<and> (mode = ''Recreate'' \<longrightarrow> (\<exists>new. snd s' = snd s @ new \<and> eviction_calls rec pod new))
       \<and> (mode = ''Auto'' \<longrightarrow>
            (if r = Inr ''in-place'' then snd s' = snd s @ inplace_calls ops rec pod
             else \<exists>new. snd s' = snd s @ inplace_calls ops rec pod @ new \<and> eviction_calls rec (resized ops rec pod) new))"
proof (intro conjI impI)
  show "if r = Inr ''in-place'' then snd s' = snd s @ inplace_calls ops rec pod
     else \<exists>new. snd s' = snd s @ inplace_calls ops rec pod @ new \<and> eviction_calls rec (resized ops rec pod) new"
    if "mode = ''Auto''" using Apply_Auto assms that by (fastforce split: if_splits)
  show "\<exists>new. snd s' = snd s @ new \<and> eviction_calls rec pod new" if "mode = ''Recreate''"
    using Apply_Recreate assms that by blast
  show "snd s' = snd s @ inplace_calls ops rec pod" if "mode = ''InPlace''"
    using Apply_InPlace(1) assms that by blast
qed (use assms in \<open>auto simp: mode_cases\<close>)

theorem ApplyRecommendation_calls_witness:
  "[PatchCall sample_pod (resized milli_ops sample_rec sample_pod)] =
     (inplace_calls milli_ops sample_rec sample_pod :: (string, int) call list)"
  using ApplyRecommendation_calls[OF sample_inplace] by simp

text \<open>
  The reported strategy is what happened: after a success the pod was evicted exactly when
  the strategy says so, and it was resized in place exactly when it says that.
\<close>

lemma ApplyRecommendation_strategy:
  fixes cl :: "('w, 's, 't, 'q) cluster"
  assumes "ApplyRecommendation (traced cl) ops pod rec mode s = ((Inr strategy, pod'), s')"
  shows "\<exists>new. snd s' = snd s @ new
       \<and> ((\<exists>c\<in>set new. is_evict c) \<longleftrightarrow> strategy = ''eviction'' \<or> strategy = ''eviction-fallback'')
       \<and> (strategy = ''in-place'' \<longrightarrow> new = [PatchCall pod (resized ops rec pod)])
       \<and> (mode, strategy) \<in> {(''Off'', ''off''), (''InPlace'', ''in-place''), (''Recreate'', ''eviction''),
            (''Auto'', ''in-place''), (''Auto'', ''eviction-fallback'')}"
proof -
  have ev: "EvictCall ns n \<in> set new \<Longrightarrow> \<exists>c\<in>set new. is_evict c" for ns n and new :: "('s, 'q) call list"
    by (metis is_evict.simps(1))
  have "mode = ''Off'' \<or> mode = ''InPlace'' \<or> mode = ''Recreate'' \<or> mode = ''Auto''"
    using assms by (auto simp: mode_cases split: if_splits)
  then consider "mode = ''Off''" | "mode = ''InPlace''" | "mode = ''Recreate''" | "mode = ''Auto''" "strategy = ''in-place''"
    | "mode = ''Auto''" "strategy \<noteq> ''in-place''" by blast
  then show ?thesis
  proof cases
    case 1
    then show ?thesis using assms by (auto simp: mode_cases)
  next
    case 2
    then show ?thesis using assms Apply_InPlace[of cl ops pod rec s] by (auto simp: inplace_calls_def)
  next
    case 3
    with assms have "ApplyRecommendation (traced cl) ops pod rec ''Recreate'' s = ((Inr strategy, pod'), s')" by simp
    from Apply_Recreate[OF this] obtain new where
      "snd s' = snd s @ new" "strategy = ''eviction''" "\<exists>ns n. EvictCall ns n \<in> set new" by auto
    with 3 ev show ?thesis by (intro exI[of _ new]) auto
  next
    case 4
    then show ?thesis using assms Apply_Auto[of cl ops pod rec s "Inr strategy"] by (auto simp: inplace_calls_def)
  next
    case 5
    with assms have "ApplyRecommendation (traced cl) ops pod rec ''Auto'' s = ((Inr strategy, pod'), s')" by simp
    from Apply_Auto[OF this] 5 obtain new where
      "snd s' = snd s @ inplace_calls ops rec pod @ new" "strategy = ''eviction-fallback''" "\<exists>ns n. EvictCall ns n \<in> set new"
      by auto
    with 5 ev[of _ _ new] show ?thesis by (intro exI[of _ "inplace_calls ops rec pod @ new"]) force
  qed
qed

text \<open>
  C32. A recommendation with a NaN or an infinity never causes an eviction or an annotation: the
  only call it can lead to is the in-place patch.
\<close>

theorem nonfinite_never_evicts:
  fixes cl :: "('w, 's, 't, 'q) cluster"
  assumes "ApplyRecommendation (traced cl) ops pod rec mode s = ((r, pod'), s')"
    and "\<not> is_fin (rr_CPUCoresRequest rec) \<or> \<not> is_fin (rr_CPUCoresLimit rec) \<or>
         \<not> is_fin (rr_MemoryBytesRequest rec) \<or> \<not> is_fin (rr_MemoryBytesLimit rec) \<or>
         \<not> is_fin (rr_CPUVariancePercent rec) \<or> \<not> is_fin (rr_MemoryVariancePercent rec)"
  shows "snd s' = snd s \<or> snd s' = snd s @ [PatchCall pod (resized ops rec pod)]"
proof -
  have "\<not> (\<exists>js. marshal rec = Inr js)" using assms(2) marshal_ok by blast
  then have e: "eviction_calls rec p new \<longleftrightarrow> new = []" for p :: "'q Pod" and new :: "('s, 'q) call list"
    by (auto simp: eviction_calls_def split: sum.splits)
  consider "mode = ''Off''" | "mode \<notin> {''Off'', ''InPlace'', ''Recreate'', ''Auto''}" | "mode = ''InPlace''"
    | "mode = ''Recreate''" | "mode = ''Auto''" by blast
  then show ?thesis
  proof cases
    case 3
    with assms(1) have "ApplyRecommendation (traced cl) ops pod rec ''InPlace'' s = ((r, pod'), s')" by simp
    from Apply_InPlace(1)[OF this] show ?thesis by (simp add: inplace_calls_def)
  next
    case 4
    with assms(1) have "ApplyRecommendation (traced cl) ops pod rec ''Recreate'' s = ((r, pod'), s')" by simp
    from Apply_Recreate[OF this] show ?thesis by (auto simp: e)
  next
    case 5
    with assms(1) have "ApplyRecommendation (traced cl) ops pod rec ''Auto'' s = ((r, pod'), s')" by simp
    from Apply_Auto[OF this] show ?thesis by (auto simp: e inplace_calls_def split: if_splits)
  qed (use assms(1) in \<open>auto simp: mode_cases\<close>)
qed

theorem nonfinite_never_evicts_witness:
  "snd (snd (ApplyRecommendation sample_traced milli_ops sample_pod (sample_rec\<lparr>rr_CPUCoresRequest := NaN\<rparr>) ''Recreate'' (0, []))) = []"
proof -
  let ?rec = "sample_rec\<lparr>rr_CPUCoresRequest := NaN\<rparr>"
  have a: "ApplyRecommendation sample_traced milli_ops sample_pod ?rec ''Recreate'' (0, []) =
      ((Inl (Wrapf ''eviction update failed'' (Wrapf ''failed to marshal recommendation'' (Errorf ''json: unsupported value: NaN''))),
        sample_pod), (0, []))"
    by (simp add: ApplyRecommendation_def applyViaEviction_def marshal_def json_object_def json_float_def fmt_f_def)
  show ?thesis
    using nonfinite_never_evicts[OF a] by (simp add: a)
qed

end
