(* ===== verification/Controller.thy ===== *)
theory Controller
  imports NamespaceLimits Vpa PodMetrics Updater
begin

text \<open>
  Package \<^verbatim>\<open>internal/controller\<close>: the reconciler.  A method that changes the PodAutoscaler or a pod
  through a pointer returns it; the outside world, the emitted events and the Prometheus metrics
  are threaded as one state.  Log calls are not modelled.
\<close>

section \<open>The reconciler and its state\<close>

record ('w, 's, 't, 'q) reconciler =
  rc_Client :: "('w, 's, 't, 'q) cluster"
  rc_ops :: "'q quantity_ops"
  rc_uops :: unstructured_ops
  rc_VPAClient :: bool  \<comment> \<open>\<^verbatim>\<open>VPAClient != nil\<close>\<close>
  rc_NamespaceLimitsFetcher :: bool  \<comment> \<open>\<^verbatim>\<open>NamespaceLimitsFetcher != nil\<close>\<close>

record event =
  ev_type :: string
  ev_reason :: string
  ev_message :: string

abbreviation EventTypeNormal :: string where "EventTypeNormal \<equiv> ''Normal''"
abbreviation EventTypeWarning :: string where "EventTypeWarning \<equiv> ''Warning''"

record 'w rstate =
  rs_world :: 'w
  rs_events :: "event list"
  rs_prom :: prom

definition call :: "('w \<Rightarrow> 'a \<times> 'w) \<Rightarrow> 'w rstate \<Rightarrow> 'a \<times> 'w rstate" where
  "call f s = (case f (rs_world s) of (r, w) \<Rightarrow> (r, s\<lparr>rs_world := w\<rparr>))"

definition Eventf :: "string \<Rightarrow> string \<Rightarrow> string \<Rightarrow> 'w rstate \<Rightarrow> 'w rstate" where
  "Eventf ty rsn msg s = s\<lparr>rs_events := rs_events s @ [\<lparr>ev_type = ty, ev_reason = rsn, ev_message = msg\<rparr>]\<rparr>"

definition count :: "(prom \<Rightarrow> prom) \<Rightarrow> 'w rstate \<Rightarrow> 'w rstate" where
  "count f s = s\<lparr>rs_prom := f (rs_prom s)\<rparr>"

abbreviation finalizerName :: string where "finalizerName \<equiv> ''podfather.io/finalizer''"

definition defaultRequeueAfter :: "64 word" where
  "defaultRequeueAfter = 30 * 1000000000"

abbreviation upd_status :: "('q PodAutoscalerStatus \<Rightarrow> 'q PodAutoscalerStatus) \<Rightarrow> ('s, 'q) PodAutoscaler \<Rightarrow> ('s, 'q) PodAutoscaler" where
  "upd_status f pa \<equiv> pa_Status_update f pa"

section \<open>Helpers\<close>

fun set_cond :: "int \<Rightarrow> string \<Rightarrow> string \<Rightarrow> string \<Rightarrow> string \<Rightarrow> Condition list \<Rightarrow> Condition list" where
  "set_cond now condType status rsn message [] =
     [\<lparr>cond_Type = condType, cond_Status = status, cond_Reason = rsn, cond_Message = message,
       cond_LastTransitionTime = now\<rparr>]"
| "set_cond now condType status rsn message (c # cs) =
     (if cond_Type c = condType
      then (if cond_Status c \<noteq> status \<or> cond_Reason c \<noteq> rsn
            then c\<lparr>cond_Status := status, cond_Reason := rsn, cond_Message := message,
                   cond_LastTransitionTime := now\<rparr>
            else c) # cs
      else c # set_cond now condType status rsn message cs)"

definition setCondition ::
  "('w, 's, 't, 'q) reconciler \<Rightarrow> ('s, 'q) PodAutoscaler \<Rightarrow> string \<Rightarrow> string \<Rightarrow> string \<Rightarrow> string
   \<Rightarrow> 'w rstate \<Rightarrow> ('s, 'q) PodAutoscaler \<times> 'w rstate" where
  "setCondition r pa condType status rsn message s =
     (let (now, s) = call (Now (rc_Client r)) s
      in (upd_status (st_Conditions_update (set_cond now condType status rsn message)) pa, s))"

definition requeueInterval :: "('s, 'q) PodAutoscaler \<Rightarrow> 64 word" where
  "requeueInterval pa =
     (case sp_MetricsCollectionIntervalSeconds (pa_Spec pa) of
        Some v \<Rightarrow> (if sint v \<ge> 10 then scast v * 1000000000 else defaultRequeueAfter)
      | None \<Rightarrow> defaultRequeueAfter)"

definition filterRunningPods :: "'q Pod list \<Rightarrow> 'q Pod list" where
  "filterRunningPods pods = filter (\<lambda>p. pod_Phase p = PodRunning \<and> \<not> pod_Deleting p) pods"

definition buildCalculatorConfig :: "('s, 'q) PodAutoscaler \<Rightarrow> Config" where
  "buildCalculatorConfig pa =
     (let cfg = DefaultConfig in
      case sp_VarianceThresholdPercent (pa_Spec pa) of
        Some v \<Rightarrow> cfg\<lparr>VarianceThresholdPercent := lit (of_int (sint v))\<rparr>
      | None \<Rightarrow> cfg)"

definition toStatusRecommendation :: "'q quantity_ops \<Rightarrow> ResourceRecommendation \<Rightarrow> 'q ContainerRecommendation" where
  "toStatusRecommendation ops rec =
     \<lparr>cr_ContainerName = rr_ContainerName rec,
      cr_Target = Some [ResourceCPU \<mapsto> cpu_quantity ops (rr_CPUCoresRequest rec),
                        ResourceMemory \<mapsto> mem_quantity ops (rr_MemoryBytesRequest rec)],
      cr_LowerBound = None,
      cr_UpperBound = Some [ResourceCPU \<mapsto> cpu_quantity ops (rr_CPUCoresLimit rec),
                            ResourceMemory \<mapsto> mem_quantity ops (rr_MemoryBytesLimit rec)]\<rparr>"

definition buildNamespaceConstraintsStatus ::
  "'q quantity_ops \<Rightarrow> NamespaceConstraints \<Rightarrow> NamespaceConstraintsStatus option" where
  "buildNamespaceConstraintsStatus ops nc =
     (if \<not> nc_LimitRangeFound nc \<and> \<not> nc_ResourceQuotaFound nc then None
      else Some
        \<lparr>ns_LimitRangeFound = nc_LimitRangeFound nc,
         ns_ResourceQuotaFound = nc_ResourceQuotaFound nc,
         ns_EffectiveMinCPU = (if nc_MinCPUCores nc > 0 then QuantityString ops (cpu_quantity ops (nc_MinCPUCores nc)) else []),
         ns_EffectiveMaxCPU = (if nc_MaxCPUCores nc < lit (10 ^ 300) then QuantityString ops (cpu_quantity ops (nc_MaxCPUCores nc)) else []),
         ns_EffectiveMinMemory = (if nc_MinMemoryBytes nc > 0 then QuantityString ops (mem_quantity ops (nc_MinMemoryBytes nc)) else []),
         ns_EffectiveMaxMemory = (if nc_MaxMemoryBytes nc < lit (10 ^ 300) then QuantityString ops (mem_quantity ops (nc_MaxMemoryBytes nc)) else []),
         ns_ClampReasons = []\<rparr>)"

definition ctrl_variancePercent :: "float64 \<Rightarrow> float64 \<Rightarrow> float64" where
  "ctrl_variancePercent recommended current =
     (if feq current 0 then lit 100
      else let diff = recommended - current;
               diff = (if diff < 0 then - diff else diff)
           in diff / current * lit 100)"

definition clampFloat :: "float64 \<Rightarrow> float64 \<Rightarrow> float64 \<Rightarrow> float64" where
  "clampFloat v mn mx = (if v < mn then mn else if v > mx then mx else v)"

section \<open>VPA integration\<close>

record 'q vpaCheckResult =
  vc_status :: "VPAIntegrationStatus option"
  vc_recommendations :: "'q VPAContainerRecommendation list"

definition vpa_status :: "bool \<Rightarrow> VPAIntegrationStatus" where
  "vpa_status installed =
     \<lparr>vs_VPAInstalled = installed, vs_MatchingVPAName = [], vs_VPAUpdateMode = [],
      vs_UsingVPARecommendations = False, vs_VPAConflict = []\<rparr>"

text \<open>The lookup: by name if the policy names a VPA, else by target; an error counts as no match.\<close>

definition lookup_vpa ::
  "('w, 's, 't, 'q) reconciler \<Rightarrow> ('s, 'q) PodAutoscaler \<Rightarrow> 'w rstate \<Rightarrow> 'q VPAInfo option \<times> 'w rstate" where
  "lookup_vpa r pa s =
     (let found = (\<lambda>x. case x of (Inl err, s) \<Rightarrow> (None, s) | (Inr v, s) \<Rightarrow> (v, s));
          by_target = (case sp_TargetRef (pa_Spec pa) of
             Some t \<Rightarrow> found (call (FindMatchingVPA (rc_Client r) (rc_ops r) (rc_uops r) (pa_Namespace pa) (ref_Kind t) (ref_Name t)) s)
           | None \<Rightarrow> (None, s))
      in case sp_VPAPolicy (pa_Spec pa) of
           Some p \<Rightarrow>
             (if vp_VPAName p \<noteq> []
              then found (call (GetVPA (rc_Client r) (rc_ops r) (rc_uops r) (pa_Namespace pa) (vp_VPAName p)) s)
              else by_target)
         | None \<Rightarrow> by_target)"

definition vpa_disabled :: "('s, 'q) PodAutoscaler \<Rightarrow> bool" where
  "vpa_disabled pa = (case sp_VPAPolicy (pa_Spec pa) of Some p \<Rightarrow> vp_Enabled p = Some False | None \<Rightarrow> False)"

definition checkVPAIntegration ::
  "('w, 's, 't, 'q) reconciler \<Rightarrow> ('s, 'q) PodAutoscaler \<Rightarrow> 'w rstate
   \<Rightarrow> ('q vpaCheckResult \<times> ('s, 'q) PodAutoscaler) \<times> 'w rstate" where
  "checkVPAIntegration r pa s =
     (if \<not> rc_VPAClient r then ((\<lparr>vc_status = None, vc_recommendations = []\<rparr>, pa), s)
      else if vpa_disabled pa then ((\<lparr>vc_status = Some (vpa_status False), vc_recommendations = []\<rparr>, pa), s)
      else case call (IsVPAInstalled (rc_Client r)) s of
        (False, s) \<Rightarrow> ((\<lparr>vc_status = Some (vpa_status False), vc_recommendations = []\<rparr>, pa), s)
      | (True, s) \<Rightarrow>
          (let status = vpa_status True in
           case lookup_vpa r pa s of
             (None, s) \<Rightarrow> ((\<lparr>vc_status = Some status, vc_recommendations = []\<rparr>, pa), s)
           | (Some v, s) \<Rightarrow>
               (let status = status\<lparr>vs_MatchingVPAName := vi_Name v, vs_VPAUpdateMode := vi_UpdateMode v\<rparr> in
                case ValidateVPAMode (Some v) of
                  Some err \<Rightarrow>
                    (let s = Eventf EventTypeWarning ''VPAModeConflict''
                           (''VPA '' @ vi_Name v @ '' has updateMode='' @ vi_UpdateMode v
                            @ '' (must be Off to avoid conflicts with Podfather)'') s
                     in ((\<lparr>vc_status = Some (status\<lparr>vs_VPAConflict := err_text err\<rparr>), vc_recommendations = []\<rparr>, pa), s))
                | None \<Rightarrow>
                    (let (pa, s) = setCondition r pa ''VPAConflict'' ConditionFalse ''NoConflict'' ''VPA is in Off mode'' s in
                     if \<not> vi_HasRecommendation v \<or> vi_ContainerRecommendations v = []
                     then (let s = Eventf EventTypeNormal ''VPANoRecommendation''
                                 (''VPA '' @ vi_Name v @ '' found but has no recommendations yet; falling back to Podfather algorithm'') s
                           in ((\<lparr>vc_status = Some status, vc_recommendations = []\<rparr>, pa), s))
                     else (let s = Eventf EventTypeNormal ''UsingVPARecommendations''
                                 (''Using recommendations from VPA '' @ vi_Name v @ '' for ''
                                  @ dec (length (vi_ContainerRecommendations v)) @ '' containers'') s
                           in ((\<lparr>vc_status = Some (status\<lparr>vs_UsingVPARecommendations := True\<rparr>),
                                 vc_recommendations = vi_ContainerRecommendations v\<rparr>, pa), s))))))"

definition shouldHaltForVPAConflict :: "('s, 'q) PodAutoscaler \<Rightarrow> 'q vpaCheckResult \<Rightarrow> bool" where
  "shouldHaltForVPAConflict pa result =
     (case (vc_status result, sp_VPAPolicy (pa_Spec pa)) of
        (Some st, Some p) \<Rightarrow> vs_VPAConflict st \<noteq> [] \<and> vp_StrictMode p
      | _ \<Rightarrow> False)"

text \<open>A limit is the upper bound, or one and a half times the request if there is none.\<close>

definition vpa_limit :: "'q quantity_ops \<Rightarrow> 'q ResourceList \<Rightarrow> string \<Rightarrow> float64 \<Rightarrow> float64" where
  "vpa_limit ops upper key req =
     (case rl_get upper key of Some q \<Rightarrow> AsApproximateFloat64 ops q | None \<Rightarrow> req * lit (15 / 10))"

definition vpaRecommendationToCalculatorRec ::
  "'q quantity_ops \<Rightarrow> 'q VPAContainerRecommendation \<Rightarrow> Constraints \<Rightarrow> ResourceRecommendation" where
  "vpaRecommendationToCalculatorRec ops rec constraints =
     (let cpuReq = amount ops (vcr_Target rec) ResourceCPU;
          memReq = amount ops (vcr_Target rec) ResourceMemory;
          cpuLim = vpa_limit ops (vcr_UpperBound rec) ResourceCPU cpuReq;
          memLim = vpa_limit ops (vcr_UpperBound rec) ResourceMemory memReq
      in \<lparr>rr_ContainerName = vcr_ContainerName rec,
          rr_CPUCoresRequest = clampFloat cpuReq (cst_MinCPUCores constraints) (cst_MaxCPUCores constraints),
          rr_CPUCoresLimit = clampFloat cpuLim (cst_MinCPUCores constraints) (cst_MaxCPUCores constraints),
          rr_MemoryBytesRequest = clampFloat memReq (cst_MinMemoryBytes constraints) (cst_MaxMemoryBytes constraints),
          rr_MemoryBytesLimit = clampFloat memLim (cst_MinMemoryBytes constraints) (cst_MaxMemoryBytes constraints),
          rr_CPUVariancePercent = 0, rr_MemoryVariancePercent = 0, rr_SignificantVariance = False\<rparr>)"

section \<open>Applying one recommendation\<close>

definition applyRecommendation ::
  "('w, 's, 't, 'q) reconciler \<Rightarrow> ('s, 'q) PodAutoscaler \<Rightarrow> 'q Pod \<Rightarrow> ResourceRecommendation \<Rightarrow> string
   \<Rightarrow> 'w rstate \<Rightarrow> (64 word \<times> 'q Pod) \<times> 'w rstate" where
  "applyRecommendation r pa pod rec source s =
     (let mode = (case sp_UpdatePolicy (pa_Spec pa) of Some p \<Rightarrow> up_UpdateMode p | None \<Rightarrow> ModeAuto) in
      case call (ApplyRecommendation (rc_Client r) (rc_ops r) pod rec mode) s of
        ((Inl err, pod), s) \<Rightarrow>
          (let s = Eventf EventTypeWarning ''UpdateFailed''
                 (''Failed to update pod '' @ pod_Name pod @ '' container '' @ rr_ContainerName rec @ '': '' @ err_text err) s
           in ((0, pod), s))
      | ((Inr strategy, pod), s) \<Rightarrow>
          (let s = Eventf EventTypeNormal ''PodResourceAdjusted''
                 (''Applied '' @ source @ '' recommendation to pod '' @ pod_Name pod @ '' container '' @ rr_ContainerName rec
                  @ '' via '' @ strategy @ '' (cpu='' @ fmt_f 3 (rr_CPUCoresRequest rec)
                  @ '', mem='' @ fmt_f 0 (rr_MemoryBytesRequest rec / lit (1024 * 1024)) @ ''Mi)'') s;
               s = count (inc_adjustments (pod_Namespace pod, pod_Name pod, rr_ContainerName rec, ''cpu'')) s;
               s = count (inc_adjustments (pod_Namespace pod, pod_Name pod, rr_ContainerName rec, ''memory'')) s
           in ((1, pod), s)))"

end
