(* ===== verification/Reconcile.thy ===== *)
theory Reconcile
  imports Controller
begin

text \<open>
  The per-pod evaluations, the finalizer, the discovery of pods and the reconciliation loop of
  \<^verbatim>\<open>internal/controller\<close>.
\<close>

section \<open>Evaluating a pod\<close>

text \<open>What the loops over a pod's containers accumulate; the pod is mutated on the way.\<close>

record 'q eval =
  ea_pod :: "'q Pod"
  ea_recs :: "'q ContainerRecommendation list"
  ea_adj :: "64 word"
  ea_reasons :: "string list"

definition eval_start :: "'q Pod \<Rightarrow> 'q eval" where
  "eval_start pod = \<lparr>ea_pod = pod, ea_recs = [], ea_adj = 0, ea_reasons = []\<rparr>"

definition clamp_to_namespace ::
  "NamespaceConstraints \<Rightarrow> ResourceRecommendation \<Rightarrow> ResourceRecommendation \<times> string list" where
  "clamp_to_namespace nc rec =
     (if nc_LimitRangeFound nc \<or> nc_ResourceQuotaFound nc
      then let ((cpuReq, cpuLim), (memReq, memLim), reasons) =
                 ClampRecommendation (rr_CPUCoresRequest rec) (rr_CPUCoresLimit rec)
                   (rr_MemoryBytesRequest rec) (rr_MemoryBytesLimit rec) nc
           in (rec\<lparr>rr_CPUCoresRequest := cpuReq, rr_CPUCoresLimit := cpuLim,
                   rr_MemoryBytesRequest := memReq, rr_MemoryBytesLimit := memLim\<rparr>, reasons)
      else (rec, []))"

definition observe_rec :: "ResourceRecommendation \<Rightarrow> 'w rstate \<Rightarrow> 'w rstate" where
  "observe_rec rec s =
     count (observe_variance ''memory'' (rr_MemoryVariancePercent rec))
       (count (observe_variance ''cpu'' (rr_CPUVariancePercent rec)) s)"

text \<open>One iteration over the VPA's recommendations.\<close>

definition set_variance :: "Config \<Rightarrow> (string \<rightharpoonup> ContainerResources) \<Rightarrow> ResourceRecommendation \<Rightarrow> ResourceRecommendation" where
  "set_variance cfg currentAllocs rec =
     (case currentAllocs (rr_ContainerName rec) of
        None \<Rightarrow> rec
      | Some alloc \<Rightarrow>
          (let cpu = ctrl_variancePercent (rr_CPUCoresRequest rec) (CPURequest alloc);
               mem = ctrl_variancePercent (rr_MemoryBytesRequest rec) (MemoryRequest alloc)
           in rec\<lparr>rr_CPUVariancePercent := cpu, rr_MemoryVariancePercent := mem,
                  rr_SignificantVariance := (cpu \<ge> VarianceThresholdPercent cfg \<or> mem \<ge> VarianceThresholdPercent cfg)\<rparr>))"

definition vpa_step ::
  "('w, 's, 't, 'q) reconciler \<Rightarrow> ('s, 'q) PodAutoscaler \<Rightarrow> NamespaceConstraints \<Rightarrow> Constraints \<Rightarrow> Config
   \<Rightarrow> 'q eval \<times> 'w rstate \<Rightarrow> 'q VPAContainerRecommendation \<Rightarrow> 'q eval \<times> 'w rstate" where
  "vpa_step r pa nc constraints cfg acc vpaRec =
     (case acc of (ev, s) \<Rightarrow>
        (let (rec, reasons) = clamp_to_namespace nc (vpaRecommendationToCalculatorRec (rc_ops r) vpaRec constraints);
             rec = set_variance cfg (GetCurrentAllocations (rc_ops r) (ea_pod ev)) rec;
             s = observe_rec rec s;
             ev = ev\<lparr>ea_reasons := ea_reasons ev @ reasons,
                     ea_recs := ea_recs ev @ [toStatusRecommendation (rc_ops r) rec]\<rparr>
         in if rr_SignificantVariance rec \<and> \<not> sp_DryRun (pa_Spec pa)
            then (let ((adj, pod), s) = applyRecommendation r pa (ea_pod ev) rec ''vpa'' s
                  in (ev\<lparr>ea_pod := pod, ea_adj := ea_adj ev + adj\<rparr>, s))
            else (ev, s)))"

definition evaluateVPAPod ::
  "('w, 's, 't, 'q) reconciler \<Rightarrow> ('s, 'q) PodAutoscaler \<Rightarrow> 'q VPAContainerRecommendation list
   \<Rightarrow> NamespaceConstraints \<Rightarrow> Constraints \<Rightarrow> Config \<Rightarrow> 'q Pod \<Rightarrow> 'w rstate \<Rightarrow> 'q eval \<times> 'w rstate" where
  "evaluateVPAPod r pa vpaRecs nc constraints cfg pod s =
     foldl (vpa_step r pa nc constraints cfg) (eval_start pod, s) vpaRecs"

text \<open>One iteration over the pod's container metrics.\<close>

definition usage_of :: "'q quantity_ops \<Rightarrow> 'q ContainerMetrics \<Rightarrow> ResourceUsage" where
  "usage_of ops cm =
     (let cpu = AsApproximateFloat64 ops (case rl_get (cm_Usage cm) ResourceCPU of Some q \<Rightarrow> q | None \<Rightarrow> ZeroDecimal ops);
          mem = AsApproximateFloat64 ops (case rl_get (cm_Usage cm) ResourceMemory of Some q \<Rightarrow> q | None \<Rightarrow> ZeroBinary ops)
      in \<lparr>ru_ContainerName = cm_Name cm, ru_CPUCoresAvg = cpu, ru_CPUCoresPeak = cpu,
          ru_MemoryBytesAvg = mem, ru_MemoryBytesPeak = mem\<rparr>)"

definition allocation_of :: "string \<Rightarrow> ContainerResources \<Rightarrow> ResourceAllocation" where
  "allocation_of name alloc =
     \<lparr>ra_ContainerName = name, ra_CPUCoresRequest = CPURequest alloc, ra_CPUCoresLimit = CPULimit alloc,
      ra_MemoryBytesRequest = MemoryRequest alloc, ra_MemoryBytesLimit = MemoryLimit alloc\<rparr>"

definition metrics_step ::
  "('w, 's, 't, 'q) reconciler \<Rightarrow> ('s, 'q) PodAutoscaler \<Rightarrow> NamespaceConstraints \<Rightarrow> Constraints \<Rightarrow> Config
   \<Rightarrow> (string \<rightharpoonup> ContainerResources) \<Rightarrow> 'q eval \<times> 'w rstate \<Rightarrow> 'q ContainerMetrics \<Rightarrow> 'q eval \<times> 'w rstate" where
  "metrics_step r pa nc constraints cfg currentAllocs acc cm =
     (case currentAllocs (cm_Name cm) of
        None \<Rightarrow> acc
      | Some alloc \<Rightarrow>
          (case Calculate (usage_of (rc_ops r) cm) (allocation_of (cm_Name cm) alloc) cfg constraints of
             Inl calcErr \<Rightarrow> acc
           | Inr rec \<Rightarrow>
               (case acc of (ev, s) \<Rightarrow>
                  (let (rec, reasons) = clamp_to_namespace nc rec;
                       s = observe_rec rec s;
                       ev = ev\<lparr>ea_reasons := ea_reasons ev @ reasons,
                               ea_recs := ea_recs ev @ [toStatusRecommendation (rc_ops r) rec]\<rparr>
                   in if rr_SignificantVariance rec \<and> \<not> sp_DryRun (pa_Spec pa)
                      then (let ((adj, pod), s) = applyRecommendation r pa (ea_pod ev) rec ''podfather'' s
                            in (ev\<lparr>ea_pod := pod, ea_adj := ea_adj ev + adj\<rparr>, s))
                      else if rr_SignificantVariance rec \<and> sp_DryRun (pa_Spec pa)
                      then (ev, Eventf EventTypeNormal ''DryRunRecommendation''
                              (''Would update pod '' @ pod_Name (ea_pod ev) @ '' container '' @ rr_ContainerName rec
                               @ '' (cpuVar='' @ fmt_f 1 (rr_CPUVariancePercent rec) @ ''%, memVar=''
                               @ fmt_f 1 (rr_MemoryVariancePercent rec) @ ''%)'') s)
                      else (ev, s)))))"

definition evaluatePodMetrics ::
  "('w, 's, 't, 'q) reconciler \<Rightarrow> ('s, 'q) PodAutoscaler \<Rightarrow> NamespaceConstraints \<Rightarrow> Constraints \<Rightarrow> Config
   \<Rightarrow> 'q Pod \<Rightarrow> 'w rstate \<Rightarrow> ('q eval \<times> bool) \<times> 'w rstate" where
  "evaluatePodMetrics r pa nc constraints cfg pod s =
     (case call (GetPodMetrics (rc_Client r) (pod_Namespace pod) (pod_Name pod)) s of
        (Inl mErr, s) \<Rightarrow> ((eval_start pod, False), count (\<lambda>p. p\<lparr>CollectionErrors := Suc (CollectionErrors p)\<rparr>) s)
      | (Inr podMetrics, s) \<Rightarrow>
          (let currentAllocs = GetCurrentAllocations (rc_ops r) pod;
               (ev, s) = foldl (metrics_step r pa nc constraints cfg currentAllocs) (eval_start pod, s) podMetrics
           in ((ev, True), s)))"

section \<open>Finalizer\<close>

definition cleanup_pod :: "('w, 's, 't, 'q) reconciler \<Rightarrow> 'w rstate \<Rightarrow> 'q Pod \<Rightarrow> 'w rstate" where
  "cleanup_pod r s pod =
     (case pod_Annotations pod of
        Some m \<Rightarrow>
          (if m last_recommendation \<noteq> None
           then snd (call (PatchPod (rc_Client r) pod (pod\<lparr>pod_Annotations := Some (m(last_recommendation := None))\<rparr>)) s)
           else s)
      | None \<Rightarrow> s)"

definition cleanupManagedPods :: "('w, 's, 't, 'q) reconciler \<Rightarrow> ('s, 'q) PodAutoscaler \<Rightarrow> 'w rstate \<Rightarrow> 'w rstate" where
  "cleanupManagedPods r pa s =
     (case LabelSelectorAsSelector (rc_Client r) (sp_Selector (pa_Spec pa)) of
        Inl err \<Rightarrow> s
      | Inr selector \<Rightarrow>
          (case call (ListPods (rc_Client r) (pa_Namespace pa) selector) s of
             (Inl err, s) \<Rightarrow> s
           | (Inr pods, s) \<Rightarrow> foldl (cleanup_pod r) s pods))"

definition handleFinalizer ::
  "('w, 's, 't, 'q) reconciler \<Rightarrow> ('s, 'q) PodAutoscaler \<Rightarrow> 'w rstate
   \<Rightarrow> ((bool \<times> goerr option) \<times> ('s, 'q) PodAutoscaler) \<times> 'w rstate" where
  "handleFinalizer r pa s =
     (if pa_Deleting pa then
        (if ContainsFinalizer (rc_Client r) (pa_Finalizers pa) finalizerName then
           (let s = cleanupManagedPods r pa s;
                pa = pa\<lparr>pa_Finalizers := RemoveFinalizer (rc_Client r) (pa_Finalizers pa) finalizerName\<rparr> in
            case call (UpdatePodAutoscaler (rc_Client r) pa) s of
              (Inl e, s) \<Rightarrow> (((True, Some (Wrapf ''failed to remove finalizer'' (ApiErr e))), pa), s)
            | (Inr pa, s) \<Rightarrow> (((True, None), pa), s))
         else (((True, None), pa), s))
      else if \<not> ContainsFinalizer (rc_Client r) (pa_Finalizers pa) finalizerName then
        (let pa = pa\<lparr>pa_Finalizers := AddFinalizer (rc_Client r) (pa_Finalizers pa) finalizerName\<rparr> in
         case call (UpdatePodAutoscaler (rc_Client r) pa) s of
           (Inl e, s) \<Rightarrow> (((True, Some (Wrapf ''failed to add finalizer'' (ApiErr e))), pa), s)
         | (Inr pa, s) \<Rightarrow> (((False, None), pa), s))
      else (((False, None), pa), s))"

section \<open>Discovery\<close>

text \<open>\<^verbatim>\<open>_ = r.Status().Update(ctx, pa)\<close>: the answer is stored, an error ignored.\<close>

definition status_update_ignored ::
  "('w, 's, 't, 'q) reconciler \<Rightarrow> ('s, 'q) PodAutoscaler \<Rightarrow> 'w rstate \<Rightarrow> ('s, 'q) PodAutoscaler \<times> 'w rstate" where
  "status_update_ignored r pa s =
     (case call (UpdateStatus (rc_Client r) pa) s of (Inl e, s) \<Rightarrow> (pa, s) | (Inr pa, s) \<Rightarrow> (pa, s))"

definition discoverRunningPods ::
  "('w, 's, 't, 'q) reconciler \<Rightarrow> ('s, 'q) PodAutoscaler \<Rightarrow> 'w rstate
   \<Rightarrow> ((goerr + 'q Pod list) \<times> ('s, 'q) PodAutoscaler) \<times> 'w rstate" where
  "discoverRunningPods r pa s =
     (case LabelSelectorAsSelector (rc_Client r) (sp_Selector (pa_Spec pa)) of
        Inl err \<Rightarrow>
          (let (pa, s) = setCondition r pa ''Ready'' ConditionFalse ''InvalidSelector'' (err_text err) s;
               pa = upd_status (st_Phase_update (\<lambda>_. PhaseError)) pa;
               (pa, s) = status_update_ignored r pa s
           in ((Inl (Wrapf ''invalid label selector'' err), pa), s))
      | Inr selector \<Rightarrow>
          (case call (ListPods (rc_Client r) (pa_Namespace pa) selector) s of
             (Inl e, s) \<Rightarrow> ((Inl (Wrapf ''failed to list pods'' (ApiErr e)), pa), s)
           | (Inr pods, s) \<Rightarrow> ((Inr (filterRunningPods pods), pa), s)))"

section \<open>The reconciliation\<close>

record 'q cycle =
  cy_recs :: "'q ContainerRecommendation list"
  cy_adj :: "64 word"
  cy_metricsAvailable :: bool
  cy_reasons :: "string list"

definition cycle_step ::
  "('w, 's, 't, 'q) reconciler \<Rightarrow> ('s, 'q) PodAutoscaler \<Rightarrow> bool \<Rightarrow> 'q VPAContainerRecommendation list
   \<Rightarrow> NamespaceConstraints \<Rightarrow> Constraints \<Rightarrow> Config \<Rightarrow> 'q cycle \<times> 'w rstate \<Rightarrow> 'q Pod \<Rightarrow> 'q cycle \<times> 'w rstate" where
  "cycle_step r pa usingVPA vpaRecs nc constraints cfg acc pod =
     (case acc of (cy, s) \<Rightarrow>
        (if usingVPA
         then (let (ev, s) = evaluateVPAPod r pa vpaRecs nc constraints cfg pod s
               in (cy\<lparr>cy_recs := cy_recs cy @ ea_recs ev, cy_adj := cy_adj cy + ea_adj ev,
                      cy_reasons := cy_reasons cy @ ea_reasons ev\<rparr>, s))
         else (let ((ev, ok), s) = evaluatePodMetrics r pa nc constraints cfg pod s
               in (cy\<lparr>cy_recs := cy_recs cy @ ea_recs ev, cy_adj := cy_adj cy + ea_adj ev,
                      cy_metricsAvailable := (if \<not> ok then False else cy_metricsAvailable cy),
                      cy_reasons := cy_reasons cy @ ea_reasons ev\<rparr>, s))))"

definition fetch_constraints ::
  "('w, 's, 't, 'q) reconciler \<Rightarrow> ('s, 'q) PodAutoscaler \<Rightarrow> 'w rstate \<Rightarrow> NamespaceConstraints \<times> 'w rstate" where
  "fetch_constraints r pa s =
     (if rc_NamespaceLimitsFetcher r
      then (case call (GetNamespaceConstraints (rc_Client r) (rc_ops r) (pa_Namespace pa)) s of
              ((nc, Some ncErr), s) \<Rightarrow> (EmptyConstraints, s)
            | ((nc, None), s) \<Rightarrow> (nc, s))
      else (EmptyConstraints, s))"

text \<open>\<^verbatim>\<open>time.Duration.Seconds\<close>: whole seconds and nanoseconds, each converted, then added.\<close>

definition duration_seconds :: "int \<Rightarrow> float64" where
  "duration_seconds d =
     (let sec = sgn d * (\<bar>d\<bar> div 1000000000); nsec = sgn d * (\<bar>d\<bar> mod 1000000000)
      in lit (of_int sec) + lit (of_int nsec) / lit 1000000000)"

definition run_cycle ::
  "('w, 's, 't, 'q) reconciler \<Rightarrow> ('s, 'q) PodAutoscaler \<Rightarrow> bool \<Rightarrow> 'q VPAContainerRecommendation list
   \<Rightarrow> NamespaceConstraints \<Rightarrow> 'q Pod list \<Rightarrow> 'w rstate \<Rightarrow> 'q cycle \<times> 'w rstate" where
  "run_cycle r pa usingVPA vpaRecs nc pods s =
     (let cfg = buildCalculatorConfig pa;
          constraints = ToCalculatorConstraints nc DefaultConstraints;
          (evalStart, s) = call (Now (rc_Client r)) s;
          (cy, s) = foldl (cycle_step r pa usingVPA vpaRecs nc constraints cfg)
                      (\<lparr>cy_recs = [], cy_adj = 0, cy_metricsAvailable = True, cy_reasons = []\<rparr>, s) pods;
          (evalEnd, s) = call (Now (rc_Client r)) s;
          s = count (\<lambda>p. p\<lparr>EvaluationDuration := EvaluationDuration p @ [duration_seconds (evalEnd - evalStart)]\<rparr>) s
      in (cy, s))"

text \<open>Step 7: the status of the finished cycle, but for the conditions.\<close>

definition status_of_cycle :: "int \<Rightarrow> ('s, 'q) PodAutoscaler \<Rightarrow> 'q cycle \<Rightarrow> 'q PodAutoscalerStatus" where
  "status_of_cycle now pa cy =
     (let st = pa_Status pa;
          st = st\<lparr>st_LastEvaluationTime := Some now, st_ObservedGeneration := pa_Generation pa,
                  st_TotalAdjustments := st_TotalAdjustments st + cy_adj cy\<rparr>;
          st = (if sint (cy_adj cy) > 0 then st\<lparr>st_LastUpdateTime := Some now\<rparr> else st);
          st = (if cy_recs cy \<noteq> [] then st\<lparr>st_Recommendation := Some (cy_recs cy)\<rparr> else st)
      in st\<lparr>st_Phase := (if cy_metricsAvailable cy then PhaseActive else PhaseDegraded)\<rparr>)"

text \<open>The clamp reasons go into the status and are announced by an event.\<close>

definition report_reasons ::
  "('s, 'q) PodAutoscaler \<Rightarrow> 'q cycle \<Rightarrow> 'w rstate \<Rightarrow> ('s, 'q) PodAutoscaler \<times> 'w rstate" where
  "report_reasons pa cy s =
     (case st_NamespaceConstraints (pa_Status pa) of
        Some n \<Rightarrow>
          (if cy_reasons cy \<noteq> []
           then (upd_status (st_NamespaceConstraints_update (\<lambda>_. Some (n\<lparr>ns_ClampReasons := cy_reasons cy\<rparr>))) pa,
                 Eventf EventTypeNormal ''RecommendationClamped''
                   (''Recommendations adjusted due to namespace constraints: '' @ dec (length (cy_reasons cy)) @ '' adjustments'') s)
           else (pa, s))
      | None \<Rightarrow> (pa, s))"

definition finish_cycle ::
  "('w, 's, 't, 'q) reconciler \<Rightarrow> ('s, 'q) PodAutoscaler \<Rightarrow> bool \<Rightarrow> 'q cycle \<Rightarrow> 'w rstate
   \<Rightarrow> (64 word \<times> goerr option) \<times> 'w rstate" where
  "finish_cycle r pa usingVPA cy s =
     (let (pa, s) = report_reasons pa cy s;
          (now, s) = call (Now (rc_Client r)) s;
          pa = pa\<lparr>pa_Status := status_of_cycle now pa cy\<rparr>;
          (pa, s) =
            (if cy_metricsAvailable cy
             then (let (pa, s) = setCondition r pa ''Ready'' ConditionTrue ''Reconciled''
                         (''Successfully evaluated all pods (source='' @ (if usingVPA then ''vpa'' else ''podfather'') @ '')'') s
                   in setCondition r pa ''MetricsAvailable'' ConditionTrue ''MetricsCollected'' ''Metrics API responsive'' s)
             else setCondition r pa ''MetricsAvailable'' ConditionFalse ''MetricsUnavailable''
                    ''Failed to collect metrics for some pods'' s)
      in case call (UpdateStatus (rc_Client r) pa) s of
           (Inl e, s) \<Rightarrow> ((0, Some (Wrapf ''failed to update status'' (ApiErr e))), s)
         | (Inr pa, s) \<Rightarrow> ((requeueInterval pa, None), s))"

text \<open>Steps 4 to 8, with running pods.\<close>

definition reconcile_pods ::
  "('w, 's, 't, 'q) reconciler \<Rightarrow> ('s, 'q) PodAutoscaler \<Rightarrow> 'q Pod list \<Rightarrow> 'w rstate \<Rightarrow> (64 word \<times> goerr option) \<times> 'w rstate" where
  "reconcile_pods r pa runningPods s =
     (let ((vpaResult, pa), s) = checkVPAIntegration r pa s;
          pa = upd_status (st_VPAStatus_update (\<lambda>_. vc_status vpaResult)) pa;
          usingVPA = (case vc_status vpaResult of Some st \<Rightarrow> vs_UsingVPARecommendations st | None \<Rightarrow> False)
      in if shouldHaltForVPAConflict pa vpaResult
         then (let conflict = (case vc_status vpaResult of Some st \<Rightarrow> vs_VPAConflict st | None \<Rightarrow> []);
                   pa = upd_status (st_Phase_update (\<lambda>_. PhaseDegraded)) pa;
                   (pa, s) = setCondition r pa ''VPAConflict'' ConditionTrue ''VPAConflict'' conflict s;
                   (pa, s) = status_update_ignored r pa s;
                   s = Eventf EventTypeWarning ''VPAConflict'' conflict s
               in ((requeueInterval pa, None), s))
         else (let (nc, s) = fetch_constraints r pa s;
                   pa = upd_status (st_NamespaceConstraints_update (\<lambda>_. buildNamespaceConstraintsStatus (rc_ops r) nc)) pa;
                   (cy, s) = run_cycle r pa usingVPA (vc_recommendations vpaResult) nc runningPods s
               in finish_cycle r pa usingVPA cy s))"

definition Reconcile ::
  "('w, 's, 't, 'q) reconciler \<Rightarrow> string \<Rightarrow> string \<Rightarrow> 'w rstate \<Rightarrow> (64 word \<times> goerr option) \<times> 'w rstate" where
  "Reconcile r namespace name s =
     (case call (GetPodAutoscaler (rc_Client r) namespace name) s of
        (Inl e, s) \<Rightarrow>
          (if ae_not_found e then ((0, None), s)
           else ((0, Some (Wrapf ''failed to get PodAutoscaler'' (ApiErr e))), s))
      | (Inr pa, s) \<Rightarrow>
          (case handleFinalizer r pa s of
             (((True, fErr), pa), s) \<Rightarrow> ((0, fErr), s)
           | (((False, fErr), pa), s) \<Rightarrow>
               (case discoverRunningPods r pa s of
                  ((Inl err, pa), s) \<Rightarrow> ((0, Some err), s)
                | ((Inr runningPods, pa), s) \<Rightarrow>
                    (let pa = upd_status (st_MonitoredPods_update (\<lambda>_. word_of_nat (length runningPods))) pa;
                         s = count (\<lambda>p. p\<lparr>PodsMonitored := lit (of_nat (length runningPods))\<rparr>) s
                     in if runningPods = []
                        then (let pa = upd_status (st_Phase_update (\<lambda>_. PhasePending)) pa;
                                  (pa, s) = setCondition r pa ''Ready'' ConditionFalse ''NoPodsFound'' ''No running pods match the selector'' s;
                                  (pa, s) = status_update_ignored r pa s
                              in ((requeueInterval pa, None), s))
                        else reconcile_pods r pa runningPods s))))"

end
