(* ===== verification/ControllerProps.thy ===== *)
theory ControllerProps
  imports Reconcile NamespaceProps
begin

text \<open>
  Properties of the controller's helpers: conditions, the requeue interval, the second copies of
  the clamp and of the variance, the VPA decision, and the recommendation pipeline across the
  calculator and the namespace bounds.
\<close>

section \<open>Sample values\<close>

definition sample_reconciler ::
  "(string, int) PodAutoscaler \<Rightarrow> int Pod list \<Rightarrow> int PodMetrics \<Rightarrow> imap list \<Rightarrow> (nat, string, string, int) reconciler" where
  "sample_reconciler pa pods metrics vpas =
     \<lparr>rc_Client = fixed_cluster pa pods metrics [] [] vpas, rc_ops = milli_ops, rc_uops = plain_unstructured,
      rc_VPAClient = True, rc_NamespaceLimitsFetcher = True\<rparr>"

definition empty_prom :: prom where
  "empty_prom =
     \<lparr>PodsMonitored = 0, ResourceAdjustments = (\<lambda>_. 0), CollectionErrors = 0, EvaluationDuration = [],
      StarvationEvents = (\<lambda>_. 0), RecommendationVariance = []\<rparr>"

definition start :: "'w \<Rightarrow> 'w rstate" where
  "start w = \<lparr>rs_world = w, rs_events = [], rs_prom = empty_prom\<rparr>"

section \<open>Conditions\<close>

lemma set_cond_types:
  "cond_Type ` set (set_cond now t st rsn msg cs) = insert t (cond_Type ` set cs)"
  by (induction cs) auto

lemma set_cond_distinct:
  "distinct (map cond_Type cs) \<Longrightarrow> distinct (map cond_Type (set_cond now t st rsn msg cs))"
  by (induction cs) (auto simp flip: set_map, auto simp: set_cond_types)

lemma set_cond_others:
  "filter (\<lambda>c. cond_Type c \<noteq> t) (set_cond now t st rsn msg cs) = filter (\<lambda>c. cond_Type c \<noteq> t) cs"
  by (induction cs) auto

lemma set_cond_holds:
  "\<exists>c\<in>set (set_cond now t st rsn msg cs). cond_Type c = t \<and> cond_Status c = st \<and> cond_Reason c = rsn"
  by (induction cs) auto

lemma set_cond_same:
  "distinct (map cond_Type cs) \<Longrightarrow> c \<in> set cs \<Longrightarrow> cond_Type c = t \<Longrightarrow> cond_Status c = st \<Longrightarrow> cond_Reason c = rsn \<Longrightarrow>
     set_cond now t st rsn msg cs = cs"
  by (induction cs) auto

text \<open>
  Setting a condition keeps the condition types distinct, leaves every other condition as it
  is and in its place, and makes the condition hold with the given status and reason; when it
  already holds so, nothing changes at all, neither the transition time nor the message.
\<close>

lemma setCondition_effect:
  assumes "setCondition r pa t st rsn msg s = (pa', s')"
    and "distinct (map cond_Type (st_Conditions (pa_Status pa)))"
  shows "distinct (map cond_Type (st_Conditions (pa_Status pa')))
       \<and> filter (\<lambda>c. cond_Type c \<noteq> t) (st_Conditions (pa_Status pa')) = filter (\<lambda>c. cond_Type c \<noteq> t) (st_Conditions (pa_Status pa))
       \<and> (\<exists>c\<in>set (st_Conditions (pa_Status pa')). cond_Type c = t \<and> cond_Status c = st \<and> cond_Reason c = rsn)
       \<and> ((\<exists>c\<in>set (st_Conditions (pa_Status pa)). cond_Type c = t \<and> cond_Status c = st \<and> cond_Reason c = rsn) \<longrightarrow> pa' = pa)"
  using assms set_cond_distinct set_cond_others set_cond_holds set_cond_same
  by (fastforce simp: setCondition_def split: prod.splits)

section \<open>Requeue interval\<close>

lemma requeue_value:
  "sint (requeueInterval pa) =
     (case sp_MetricsCollectionIntervalSeconds (pa_Spec pa) of
        Some v \<Rightarrow> if 10 \<le> sint v then sint v * 1000000000 else 30000000000
      | None \<Rightarrow> 30000000000)
   \<and> 10000000000 \<le> sint (requeueInterval pa)"
proof -
  have "sint (scast v * 1000000000 :: 64 word) = sint v * 1000000000" if "10 \<le> sint v" for v :: "32 word"
  proof -
    have b: "sint v < 2 ^ 31" using sint_lt[of v] by simp
    have "scast v * 1000000000 = (word_of_int (sint v * 1000000000) :: 64 word)"
      by (simp only: scast_eq of_int_mult of_int_numeral)
    also have "sint \<dots> = sint v * 1000000000"
      unfolding sint_sbintrunc' using b that by (intro signed_take_bit_int_eq_self) simp_all
    finally show ?thesis .
  qed
  then show ?thesis
    by (auto simp: requeueInterval_def defaultRequeueAfter_def split: option.split)
qed

text \<open>
  The requeue interval is never below ten seconds and never overflows: an interval of at
  least ten seconds in the spec gives exactly that many seconds in nanoseconds, anything else
  thirty seconds.
\<close>

lemma requeueInterval_value:
  "sint (requeueInterval pa) =
     (case sp_MetricsCollectionIntervalSeconds (pa_Spec pa) of
        Some v \<Rightarrow> if 10 \<le> sint v then sint v * 1000000000 else 30000000000
      | None \<Rightarrow> 30000000000)
   \<and> 10000000000 \<le> sint (requeueInterval pa)"
  by (rule requeue_value)

section \<open>The second clamp and the second variance\<close>

interpretation ctrl_clamp: float_clamp clampFloat
  by unfold_locales (simp_all add: clampFloat_def)

lemma on_grid_multiple: "on_grid q \<Longrightarrow> \<exists>n. q = of_int n * 2 powi (- 1074)"
proof -
  assume "on_grid q"
  then have q: "q = of_int (rhe (q / 2 powi uexp q)) * 2 powi uexp q"
    by (simp add: on_grid_def rn_def Let_def)
  have "uexp q = (uexp q + 1074) + - 1074" by simp
  then have "2 powi uexp q = (2 :: rat) powi ((uexp q + 1074) + - 1074)" by (rule arg_cong)
  also have "\<dots> = 2 powi (uexp q + 1074) * 2 powi (- 1074)" by (rule power_int_add) simp
  also have "(2 :: rat) powi (uexp q + 1074) = of_int (2 ^ nat (uexp q + 1074))"
    using uexp_ge[of q] by (simp add: power_int_def)
  finally have "q = of_int (rhe (q / 2 powi uexp q) * 2 ^ nat (uexp q + 1074)) * 2 powi (- 1074)"
    using q by (metis mult.assoc of_int_mult)
  then show ?thesis by blast
qed

lemma rn_multiple_pos:
  assumes "v = of_int m * 2 powi (- 1074)" "0 < v"
  shows "0 < rn v"
proof -
  have "1 \<le> m" using assms zero_less_mult_pos2[of "of_int m" "2 powi (- 1074) :: rat"] by simp
  then have "1 * 2 powi (- 1074) \<le> v" unfolding assms(1) by (intro mult_right_mono) auto
  moreover have "on_grid (2 powi (- 1074))" using on_grid_dyadic[of 1 "- 1074"] by simp
  ultimately have "2 powi (- 1074) \<le> rn v" by (intro rne.R_ge) auto
  then show ?thesis using powi_pos[of "- 1074"] by linarith
qed

lemma sub_neg_zero:
  assumes "is_f64 a" "is_f64 b" "a - b = Fin True 0"
  shows "feq b 0"
proof -
  obtain s p t q where ab: "a = Fin s p" "b = Fin t q"
    using assms(3) by (cases a; cases b) (auto simp: minus_float64_def split: if_splits)
  obtain m n where g: "p = of_int m * 2 powi (- 1074)" "q = of_int n * 2 powi (- 1074)"
    using assms(1,2) on_grid_multiple by (auto simp: ab is_f64_def) blast
  define k where "k = (if s then - m else m) - (if t then - n else n)"
  define v where "v = sval s p - sval t q"
  have v: "v = of_int k * 2 powi (- 1074)" by (simp add: v_def k_def g sval_def algebra_simps)
  have n: "sval (\<not> t) q = - sval t q" by (simp add: sval_def)
  have d: "a - b = (if v = 0 then Fin (s \<and> \<not> t) 0 else rnd (v < 0) \<bar>v\<bar>)"
    by (simp only: ab minus_float64_def fneg.simps fadd.simps Let_def n v_def diff_conv_add_uminus)
  have "v = 0"
  proof (rule ccontr)
    assume "v \<noteq> 0"
    have a: "\<bar>v\<bar> = of_int \<bar>k\<bar> * 2 powi (- 1074)" unfolding v by (simp add: abs_mult)
    have "0 < \<bar>v\<bar>" using \<open>v \<noteq> 0\<close> by simp
    with a have "0 < rn \<bar>v\<bar>" by (rule rn_multiple_pos)
    with d \<open>v \<noteq> 0\<close> assms(3) show False by (auto simp: rnd_def Let_def split: if_splits)
  qed
  with d assms(3) have "s" "\<not> t" by auto
  moreover have "0 \<le> p" "0 \<le> q" using assms(1,2) by (auto simp: ab is_f64_def on_grid_def)
  ultimately have "q = 0" using \<open>v = 0\<close> by (auto simp: v_def sval_def)
  then show ?thesis by (simp add: ab feq_def fkey_def sval_def zero_float64_def)
qed

lemma ctrl_variance_eq:
  assumes "is_f64 recommended" and "is_f64 current"
  shows "ctrl_variancePercent recommended current = variancePercent recommended current"
proof (cases "feq current 0")
  case False
  have "(if d < 0 then - d else d) = \<bar>d\<bar>" if "d = recommended - current" for d
  proof (cases d)
    case (Fin b q)
    have "is_f64 d" using assms that by (simp add: is_f64_sub)
    then have "0 \<le> q" by (auto simp: Fin intro: f64_Fin_nonneg)
    moreover have "\<not> (b \<and> q = 0)" using sub_neg_zero[OF assms] False that Fin by auto
    ultimately show ?thesis
      by (auto simp: Fin abs_float64_def uminus_float64_def less_float64_def fkey_def sval_def zero_float64_def)
  qed (auto simp: abs_float64_def uminus_float64_def less_float64_def fkey_def zero_float64_def sval_def)
  then show ?thesis using False by (simp add: ctrl_variancePercent_def variancePercent_def Let_def)
qed (simp add: ctrl_variancePercent_def variancePercent_def)

text \<open>
  C33. The controller's own variance formula, which negates a negative difference, agrees with the
  calculator's, which takes the absolute value, on all float64 values, zeros of both signs,
  infinities and NaN included.
\<close>

theorem ctrl_variance_agrees:
  assumes "is_f64 recommended" and "is_f64 current"
  shows "ctrl_variancePercent recommended current = variancePercent recommended current"
  by (rule ctrl_variance_eq[OF assms])

theorem ctrl_variance_agrees_witness:
  "ctrl_variancePercent (lit 1) (lit 2) = variancePercent (lit 1) (lit 2)"
  by (rule ctrl_variance_agrees) (simp_all add: is_f64_lit)

section \<open>Recommendations taken from a VPA\<close>

text \<open>
  A recommendation taken from a VPA has all four values inside the calculator bounds, and its
  limits cover its requests unless the VPA's upper bound is below its own target.
\<close>

lemma vpa_rec_within_constraints:
  assumes "constraints_ok c"
    and "\<And>q. AsApproximateFloat64 ops q \<noteq> NaN \<and> is_f64 (AsApproximateFloat64 ops q)"
    and "rec = vpaRecommendationToCalculatorRec ops vrec c"
  shows "cst_MinCPUCores c \<le> rr_CPUCoresRequest rec \<and> rr_CPUCoresRequest rec \<le> cst_MaxCPUCores c
       \<and> cst_MinCPUCores c \<le> rr_CPUCoresLimit rec \<and> rr_CPUCoresLimit rec \<le> cst_MaxCPUCores c
       \<and> cst_MinMemoryBytes c \<le> rr_MemoryBytesRequest rec \<and> rr_MemoryBytesRequest rec \<le> cst_MaxMemoryBytes c
       \<and> cst_MinMemoryBytes c \<le> rr_MemoryBytesLimit rec \<and> rr_MemoryBytesLimit rec \<le> cst_MaxMemoryBytes c
       \<and> (amount ops (vcr_Target vrec) ''cpu'' \<le> vpa_limit ops (vcr_UpperBound vrec) ''cpu'' (amount ops (vcr_Target vrec) ''cpu'')
            \<longrightarrow> rr_CPUCoresRequest rec \<le> rr_CPUCoresLimit rec)
       \<and> (amount ops (vcr_Target vrec) ''memory'' \<le> vpa_limit ops (vcr_UpperBound vrec) ''memory'' (amount ops (vcr_Target vrec) ''memory'')
            \<longrightarrow> rr_MemoryBytesRequest rec \<le> rr_MemoryBytesLimit rec)"
proof -
  have half: "is_f64 (lit (15 / 10))" "is_fin (lit (15 / 10))" "0 < lit (15 / 10)"
    by (simp add: is_f64_lit) (simp_all add: float_eval)
  have a: "amount ops rl k \<noteq> NaN" "is_f64 (amount ops rl k)" for rl k
    using assms(2) by (simp_all add: amount_def split: option.split)
  have m: "x * lit (15 / 10) \<noteq> NaN" if "is_f64 x" "x \<noteq> NaN" for x
    using that half by (cases x) (auto simp: times_float64_def lit_def rnd_def Let_def float_eval split: if_splits)
  have l: "vpa_limit ops rl k (amount ops rl' k') \<noteq> NaN" for rl k rl' k'
    using assms(2) a m by (simp add: vpa_limit_def split: option.split)
  have b: "cst_MinCPUCores c \<le> cst_MaxCPUCores c" "cst_MinMemoryBytes c \<le> cst_MaxMemoryBytes c"
    using assms(1) by (auto simp: constraints_ok_def bounds_ok_def)
  note B = ctrl_clamp.bounds[OF a(1) b(1)] ctrl_clamp.bounds[OF a(1) b(2)]
    ctrl_clamp.bounds[OF l b(1)] ctrl_clamp.bounds[OF l b(2)]
  show ?thesis
    using B by (auto simp: assms(3) vpaRecommendationToCalculatorRec_def Let_def intro!: ctrl_clamp.mono b)
qed

section \<open>The VPA decision\<close>

text \<open>
  C19. Recommendations of a VPA are used only if VPA integration is enabled, the CRD is installed
  and the matched VPA is in mode \<^verbatim>\<open>Off\<close>; a conflict is reported only for a matched VPA in another
  mode, and then none of its recommendations are used.
\<close>

theorem vpa_used_only_when_Off:
  assumes "checkVPAIntegration r pa s = ((res, pa'), s')" and "vc_status res = Some st"
  shows "(vc_recommendations res \<noteq> [] \<longleftrightarrow> vs_UsingVPARecommendations st)
       \<and> (vs_UsingVPARecommendations st \<longrightarrow> vs_VPAInstalled st \<and> vs_VPAUpdateMode st = ''Off''
            \<and> vs_VPAConflict st = [] \<and> \<not> vpa_disabled pa)
       \<and> (vs_VPAConflict st \<noteq> [] \<longrightarrow> vs_VPAInstalled st \<and> vs_VPAUpdateMode st \<noteq> ''Off''
            \<and> vc_recommendations res = [] \<and> pa' = pa)"
  using assms
  by (auto simp: checkVPAIntegration_def vpa_status_def ValidateVPAMode_def Let_def
      split: if_splits prod.splits option.splits bool.splits)

theorem vpa_used_only_when_Off_witness:
  "\<exists>res pa' s' st. checkVPAIntegration (sample_reconciler (sample_pa ''Auto'' False) [] [] [sample_vpa ''Off''])
        (sample_pa ''Auto'' False) (start 0) = ((res, pa'), s') \<and> vc_status res = Some st
     \<and> vs_UsingVPARecommendations st \<and> vs_VPAUpdateMode st = ''Off''"
proof -
  let ?r = "sample_reconciler (sample_pa ''Auto'' False) [] [] [sample_vpa ''Off'']"
  let ?pa = "sample_pa ''Auto'' False"
  have i: "call (IsVPAInstalled (rc_Client ?r)) (start 0) = (True, start 0)"
    by (simp add: call_def IsVPAInstalled_def sample_reconciler_def fixed_cluster_def start_def)
  have l: "lookup_vpa ?r ?pa (start 0) = (Some (sample_info ''Off''), start 0)"
    by (simp add: lookup_vpa_def sample_pa_def sample_spec_def call_def FindMatchingVPA_def sample_reconciler_def
        fixed_cluster_def start_def sample_parse)
       (simp add: sample_info_def)
  obtain pa' s' where c: "setCondition ?r ?pa ''VPAConflict'' ConditionFalse ''NoConflict'' ''VPA is in Off mode'' (start 0) = (pa', s')"
    by (metis surj_pair)
  have f: "rc_VPAClient ?r" "\<not> vpa_disabled ?pa"
    by (simp_all add: sample_reconciler_def vpa_disabled_def sample_pa_def sample_spec_def)
  have v: "ValidateVPAMode (Some (sample_info ''Off'')) = None" by (simp add: ValidateVPAMode_def sample_info_def)
  obtain res s2 where e: "checkVPAIntegration ?r ?pa (start 0) = ((res, pa'), s2)" "vc_recommendations res \<noteq> []"
      "vc_status res \<noteq> None"
    by (simp add: checkVPAIntegration_def f i l c v Let_def) (simp add: sample_info_def)
  then obtain st where "vc_status res = Some st" by blast
  with vpa_used_only_when_Off[OF e(1) this] e show ?thesis by blast
qed

section \<open>The pipeline of a recommendation\<close>

text \<open>Bounds as Kubernetes admits them: \<open>0 \<le> min \<le> max\<close>, a ratio of at least one where one is set.\<close>

definition valid_bounds :: "resource_bounds \<Rightarrow> bool" where
  "valid_bounds b \<longleftrightarrow> rb_f64 b \<and> 0 \<le> rb_min b \<and> rb_min b \<le> rb_max b \<and>
     (rb_ratio b \<le> 0 \<or> is_fin (rb_ratio b) \<and> 1 \<le> rb_ratio b)"

lemma valid_boundsD:
  "valid_bounds b \<Longrightarrow> rb_f64 b \<and> rb_min b \<noteq> NaN \<and> 0 \<le> rb_max b \<and>
     (\<not> 0 < rb_ratio b \<or> is_fin (rb_ratio b) \<and> 1 \<le> rb_ratio b)"
  by (auto simp: valid_bounds_def float_ord)

lemma config_of_spec_ok: "config_ok (buildCalculatorConfig pa)"
  using DefaultConfig_ok by (simp add: buildCalculatorConfig_def config_ok_def Let_def split: option.split)

text \<open>
  C4. From usage to the applied recommendation, on the path from metrics: whatever the spec's threshold, a
  recommendation computed from admissible usage under valid bounds of the namespace and then clamped to them has
  its requests covered by its limits, its limits within the LimitRange maximum of the resource if there
  is one, and its requests within the quota headroom of the resource if that is positive.  A headroom of
  zero or less bounds nothing, so nothing is claimed for an exhausted quota.
\<close>

theorem recommendation_pipeline_safe:
  assumes "usage_ok u" and "valid_bounds (cpu_bounds nc)" and "valid_bounds (memory_bounds nc)"
    and "nc_LimitRangeFound nc \<or> nc_ResourceQuotaFound nc"
    and "Calculate u a (buildCalculatorConfig pa) (ToCalculatorConstraints nc DefaultConstraints) = Inr rec"
    and "clamp_to_namespace nc rec = (rec', rs)"
  shows "rr_CPUCoresRequest rec' \<le> rr_CPUCoresLimit rec' \<and> rr_MemoryBytesRequest rec' \<le> rr_MemoryBytesLimit rec'
       \<and> (nc_MaxCPUCores nc < MaxFloat64 \<longrightarrow> rr_CPUCoresLimit rec' \<le> nc_MaxCPUCores nc)
       \<and> (nc_MaxMemoryBytes nc < MaxFloat64 \<longrightarrow> rr_MemoryBytesLimit rec' \<le> nc_MaxMemoryBytes nc)
       \<and> (0 < nc_QuotaCPURemaining nc \<and> nc_QuotaCPURemaining nc < MaxFloat64 \<longrightarrow> rr_CPUCoresRequest rec' \<le> nc_QuotaCPURemaining nc)
       \<and> (0 < nc_QuotaMemoryRemaining nc \<and> nc_QuotaMemoryRemaining nc < MaxFloat64 \<longrightarrow> rr_MemoryBytesRequest rec' \<le> nc_QuotaMemoryRemaining nc)"
proof -
  let ?c = "ToCalculatorConstraints nc DefaultConstraints"
  have b: "rb_f64 (cpu_bounds nc)" "rb_f64 (memory_bounds nc)"
    "nc_MinCPUCores nc \<noteq> NaN" "nc_MinMemoryBytes nc \<noteq> NaN" "0 \<le> nc_MaxCPUCores nc" "0 \<le> nc_MaxMemoryBytes nc"
    using valid_boundsD[OF assms(2)] valid_boundsD[OF assms(3)] by simp_all
  have c: "constraints_ok ?c" using to_constraints_ok[OF DefaultConstraints_ok b refl] by blast
  note B = Calculate_bounds[OF assms(1) config_of_spec_ok c assms(5)]
  have p: "pair_f64 (rr_CPUCoresRequest rec, rr_CPUCoresLimit rec)" "pair_f64 (rr_MemoryBytesRequest rec, rr_MemoryBytesLimit rec)"
    using B f_le_not_NaN[OF B(6)] f_le_not_NaN[OF B(9)] by (simp_all add: pair_f64_def)
  obtain cr cl mr ml rs' where k: "ClampRecommendation (rr_CPUCoresRequest rec) (rr_CPUCoresLimit rec)
      (rr_MemoryBytesRequest rec) (rr_MemoryBytesLimit rec) nc = ((cr, cl), (mr, ml), rs')"
    by (metis surj_pair)
  have r: "rr_CPUCoresRequest rec' = cr" "rr_CPUCoresLimit rec' = cl" "rr_MemoryBytesRequest rec' = mr" "rr_MemoryBytesLimit rec' = ml"
    using assms(4,6) k by (auto simp: clamp_to_namespace_def)
  show ?thesis
    unfolding r using clamp_guarantees[OF k p b(1,2)] valid_boundsD[OF assms(2)] valid_boundsD[OF assms(3)] by simp
qed

theorem recommendation_pipeline_safe_witness:
  "\<exists>rec rec' rs. Calculate sample_usage sample_alloc (buildCalculatorConfig (sample_pa ''Auto'' False))
        (ToCalculatorConstraints sample_nc DefaultConstraints) = Inr rec
     \<and> clamp_to_namespace sample_nc rec = (rec', rs) \<and> rr_CPUCoresRequest rec' \<le> nc_QuotaCPURemaining sample_nc"
proof -
  have v: "valid_bounds (cpu_bounds sample_nc)" "valid_bounds (memory_bounds sample_nc)"
    by (simp_all add: valid_bounds_def sample_nc_f64 sample_nc_values) (simp_all add: float_eval)
  have f: "nc_LimitRangeFound sample_nc \<or> nc_ResourceQuotaFound sample_nc" by (simp add: sample_nc_def)
  obtain rec where c: "Calculate sample_usage sample_alloc (buildCalculatorConfig (sample_pa ''Auto'' False))
      (ToCalculatorConstraints sample_nc DefaultConstraints) = Inr rec"
    using Calculate_total[of sample_usage] by (fastforce simp: sample_usage_def)
  obtain rec' rs where k: "clamp_to_namespace sample_nc rec = (rec', rs)" by (metis surj_pair)
  have "rr_CPUCoresRequest rec' \<le> nc_QuotaCPURemaining sample_nc"
    using recommendation_pipeline_safe[OF sample_usage_ok v f c k]
    by (simp add: sample_nc_values) (simp add: MaxFloat64_def float_eval)
  with c k show ?thesis by blast
qed

end
