(* ===== verification/ReconcileTrace.thy ===== *)
theory ReconcileTrace
  imports ControllerProps UpdaterProps
begin

text \<open>
  Which writes a reconciliation asks the API server for.  The reconciler runs on a traced
  client; each operation's contribution to the trace is bounded by what the PodAutoscaler's
  dry-run flag and update mode permit.
\<close>

section \<open>The traced reconciler\<close>

definition traced_rec ::
  "('w, 's, 't, 'q) reconciler \<Rightarrow> (('w, 's, 'q) traced_world, 's, 't, 'q) reconciler" where
  "traced_rec r =
     \<lparr>rc_Client = traced (rc_Client r), rc_ops = rc_ops r, rc_uops = rc_uops r,
      rc_VPAClient = rc_VPAClient r, rc_NamespaceLimitsFetcher = rc_NamespaceLimitsFetcher r\<rparr>"

lemma traced_rec_simps [simp]:
  "rc_Client (traced_rec r) = traced (rc_Client r)" "rc_ops (traced_rec r) = rc_ops r"
  "rc_uops (traced_rec r) = rc_uops r" "rc_VPAClient (traced_rec r) = rc_VPAClient r"
  "rc_NamespaceLimitsFetcher (traced_rec r) = rc_NamespaceLimitsFetcher r"
  by (simp_all add: traced_rec_def)

abbreviation tr :: "('w \<times> 'c list) rstate \<Rightarrow> 'c list" where
  "tr s \<equiv> snd (rs_world s)"

section \<open>Operations that write nothing\<close>

definition quiet :: "('w \<times> 'c list \<Rightarrow> 'a \<times> ('w \<times> 'c list)) \<Rightarrow> bool" where
  "quiet f \<longleftrightarrow> (\<forall>s. snd (snd (f s)) = snd s)"

lemma quietI: "(\<And>s r s'. f s = (r, s') \<Longrightarrow> snd s' = snd s) \<Longrightarrow> quiet f"
  unfolding quiet_def by (metis prod.collapse)

lemma quietD: "quiet f \<Longrightarrow> f s = (r, s') \<Longrightarrow> snd s' = snd s"
  unfolding quiet_def by (metis snd_conv)

lemma call_quiet: "quiet f \<Longrightarrow> call f s = (x, s') \<Longrightarrow> tr s' = tr s"
  by (auto simp: call_def split: prod.splits dest: quietD)

lemma call_logged: "(\<And>w y w'. f w = (y, w') \<Longrightarrow> snd w' = snd w @ new) \<Longrightarrow> call f s = (x, s') \<Longrightarrow> tr s' = tr s @ new"
  by (cases "rs_world s"; cases "f (rs_world s)") (auto simp: call_def)

lemma tr_simps [simp]: "tr (Eventf ty rsn msg s) = tr s" "tr (count f s) = tr s" "tr (observe_rec rec s) = tr s"
  by (simp_all add: Eventf_def count_def observe_rec_def)

lemma quiet_reads:
  "quiet (GetPodAutoscaler (traced cl) ns name)"
  "quiet (ListPods (traced cl) ns sel)"
  "quiet (Now (traced cl))"
  "quiet (GetPodMetrics (traced cl) ns name)"
  "quiet (GetNamespaceConstraints (traced cl) ops ns)"
  "quiet (IsVPAInstalled (traced cl))"
  "quiet (FindMatchingVPA (traced cl) ops u ns kind name)"
  "quiet (GetVPA (traced cl) ops u ns name)"
  by (rule quietI,
      auto simp: GetPodMetrics_def GetNamespaceConstraints_def IsVPAInstalled_def FindMatchingVPA_def GetVPA_def Let_def
        split: prod.splits sum.splits if_splits dest!: traced_reads)+

lemmas call_reads = quiet_reads[THEN call_quiet]

lemma call_writes:
  "call (UpdatePodAutoscaler (traced cl) pa) s = (x1, s1) \<Longrightarrow> tr s1 = tr s @ [UpdateCall pa]"
  "call (UpdateStatus (traced cl) pa) s = (x2, s2) \<Longrightarrow> tr s2 = tr s @ [StatusCall pa]"
  "call (PatchPod (traced cl) base pod) s = (x3, s3) \<Longrightarrow> tr s3 = tr s @ [PatchCall base pod]"
  by (erule call_logged[rotated], erule traced_writes)+

lemma setCondition_trace: "setCondition (traced_rec r) pa t st rsn msg s = (pa', s') \<Longrightarrow> tr s' = tr s"
  by (auto simp: setCondition_def split: prod.splits dest!: call_reads)

lemma lookup_vpa_trace: "lookup_vpa (traced_rec r) pa s = (v, s') \<Longrightarrow> tr s' = tr s"
  by (auto simp: lookup_vpa_def Let_def split: prod.splits sum.splits if_splits option.splits dest!: call_reads)

lemma checkVPA_trace: "checkVPAIntegration (traced_rec r) pa s = ((res, pa'), s') \<Longrightarrow> tr s' = tr s"
  by (auto simp: checkVPAIntegration_def Let_def split: prod.splits if_splits option.splits bool.splits
      dest!: call_reads lookup_vpa_trace setCondition_trace)

lemma fetch_trace: "fetch_constraints (traced_rec r) pa s = (nc, s') \<Longrightarrow> tr s' = tr s"
  by (auto simp: fetch_constraints_def split: prod.splits option.splits if_splits dest!: call_reads)

section \<open>What a spec permits\<close>

definition update_mode :: "('s, 'q) PodAutoscaler \<Rightarrow> string" where
  "update_mode pa = (case sp_UpdatePolicy (pa_Spec pa) of Some p \<Rightarrow> up_UpdateMode p | None \<Rightarrow> ModeAuto)"

definition permitted :: "('s, 'q) PodAutoscaler \<Rightarrow> ('s, 'q) call \<Rightarrow> bool" where
  "permitted pa c \<longleftrightarrow> \<not> sp_DryRun (pa_Spec pa) \<and>
     (is_patch c \<and> update_mode pa \<in> {''InPlace'', ''Recreate'', ''Auto''} \<or>
      is_evict c \<and> update_mode pa \<in> {''Recreate'', ''Auto''})"

definition permitted_mode :: "string \<Rightarrow> ('s, 'q) call \<Rightarrow> bool" where
  "permitted_mode mode c \<longleftrightarrow>
     is_patch c \<and> mode \<in> {''InPlace'', ''Recreate'', ''Auto''} \<or> is_evict c \<and> mode \<in> {''Recreate'', ''Auto''}"

lemma eviction_calls_permitted:
  "eviction_calls rec pod new \<Longrightarrow> mode \<in> {''Recreate'', ''Auto''} \<Longrightarrow> list_all (permitted_mode mode) new"
  by (auto simp: eviction_calls_def permitted_mode_def split: sum.splits)

lemma Apply_permitted:
  assumes "ApplyRecommendation (traced cl) ops pod rec mode s = ((r, pod'), s')"
  shows "grows (permitted_mode mode) (snd s) (snd s')"
proof -
  consider "mode = ''InPlace''" | "mode = ''Recreate''" | "mode = ''Auto''" | "mode \<notin> {''InPlace'', ''Recreate'', ''Auto''}"
    by blast
  then show ?thesis
  proof cases
    case 1
    with assms Apply_InPlace(1)[of cl ops pod rec s r pod' s'] show ?thesis
      by (simp add: inplace_calls_def permitted_mode_def)
  next
    case 2
    with assms Apply_Recreate[of cl ops pod rec s r pod' s'] eviction_calls_permitted[of rec pod _ mode]
    show ?thesis by (auto simp: grows_def)
  next
    case 3
    have "list_all (permitted_mode mode) (inplace_calls ops rec pod)"
      using 3 by (simp add: inplace_calls_def permitted_mode_def)
    with 3 assms Apply_Auto[of cl ops pod rec s r pod' s'] eviction_calls_permitted[of rec "resized ops rec pod" _ mode]
    show ?thesis by (auto simp: grows_def split: if_splits)
  next
    case 4
    with assms have "s' = s" by (auto simp: ApplyRecommendation_def split: if_splits)
    then show ?thesis by simp
  qed
qed

lemma applyRecommendation_trace:
  fixes r :: "('w, 's, 't, 'q) reconciler"
  assumes "applyRecommendation (traced_rec r) pa pod rec source s = ((adj, pod'), s')" "\<not> sp_DryRun (pa_Spec pa)"
  shows "grows (permitted pa) (tr s) (tr s')"
proof -
  obtain x p w where a: "ApplyRecommendation (traced (rc_Client r)) (rc_ops r) pod rec (update_mode pa) (rs_world s) = ((x, p), w)"
    by (metis surj_pair)
  have "tr s' = snd w"
    using assms(1) a by (auto simp: applyRecommendation_def update_mode_def call_def Let_def split: sum.splits)
  moreover have "permitted_mode (update_mode pa) c \<Longrightarrow> permitted pa c" for c :: "('s, 'q) call"
    by (auto simp: permitted_def permitted_mode_def assms(2))
  ultimately show ?thesis using grows_mono[OF Apply_permitted[OF a]] by simp
qed

section \<open>Loops\<close>

text \<open>A loop each of whose iterations extends a trace by calls with a property.\<close>

locale trace_loop =
  fixes trace :: "'a \<Rightarrow> 'c list" and step :: "'a \<Rightarrow> 'b \<Rightarrow> 'a" and P :: "'c \<Rightarrow> bool"
  assumes step_grows: "grows P (trace a) (trace (step a x))"
begin

lemma loop_grows: "grows P (trace a) (trace (foldl step a xs))"
proof (induction xs arbitrary: a)
  case (Cons x xs)
  show ?case using grows_trans[OF step_grows Cons.IH] by simp
qed simp

end

lemma vpa_step_trace: "grows (permitted pa) (tr (snd a)) (tr (snd (vpa_step (traced_rec r) pa nc cst cfg a v)))"
  by (cases a) (auto simp: vpa_step_def Let_def split: prod.splits dest: applyRecommendation_trace)

lemma metrics_step_trace:
  "grows (permitted pa) (tr (snd a)) (tr (snd (metrics_step (traced_rec r) pa nc cst cfg allocs a cm)))"
  by (cases a) (auto simp: metrics_step_def Let_def split: prod.splits option.splits sum.splits dest: applyRecommendation_trace)

interpretation vpa_loop: trace_loop "\<lambda>a. tr (snd a)" "vpa_step (traced_rec r) pa nc cst cfg" "permitted pa" for r pa nc cst cfg
  by unfold_locales (rule vpa_step_trace)

interpretation metrics_loop: trace_loop "\<lambda>a. tr (snd a)" "metrics_step (traced_rec r) pa nc cst cfg allocs" "permitted pa"
    for r pa nc cst cfg allocs
  by unfold_locales (rule metrics_step_trace)

lemma evaluateVPAPod_trace:
  "evaluateVPAPod (traced_rec r) pa recs nc cst cfg pod s = (ev, s') \<Longrightarrow> grows (permitted pa) (tr s) (tr s')"
  using vpa_loop.loop_grows[of pa "(eval_start pod, s)" r nc cst cfg recs] by (simp add: evaluateVPAPod_def)

lemma evaluatePodMetrics_trace:
  assumes "evaluatePodMetrics (traced_rec r) pa nc cst cfg pod s = ((ev, ok), s')"
  shows "grows (permitted pa) (tr s) (tr s')"
proof -
  obtain x s1 where g: "call (GetPodMetrics (traced (rc_Client r)) (pod_Namespace pod) (pod_Name pod)) s = (x, s1)"
    by (metis surj_pair)
  have q: "tr s1 = tr s" using g by (rule call_reads)
  show ?thesis
  proof (cases x)
    case (Inl e)
    with assms g q show ?thesis by (auto simp: evaluatePodMetrics_def)
  next
    case (Inr pm)
    then have "s' = snd (foldl (metrics_step (traced_rec r) pa nc cst cfg (GetCurrentAllocations (rc_ops r) pod)) (eval_start pod, s1) pm)"
      using assms g by (auto simp: evaluatePodMetrics_def Let_def split: prod.splits)
    with q metrics_loop.loop_grows[of pa "(eval_start pod, s1)" r nc cst cfg "GetCurrentAllocations (rc_ops r) pod" pm]
    show ?thesis by simp
  qed
qed

interpretation cycle_loop: trace_loop "\<lambda>a. tr (snd a)" "cycle_step (traced_rec r) pa usingVPA recs nc cst cfg" "permitted pa"
    for r pa usingVPA recs nc cst cfg
  by unfold_locales
     (auto simp: cycle_step_def Let_def split: prod.splits dest: evaluateVPAPod_trace evaluatePodMetrics_trace)

lemma run_cycle_trace:
  assumes "run_cycle (traced_rec r) pa usingVPA recs nc pods s = (cy, s')"
  shows "grows (permitted pa) (tr s) (tr s')"
proof -
  let ?cst = "ToCalculatorConstraints nc DefaultConstraints" and ?cfg = "buildCalculatorConfig pa"
  let ?init = "\<lparr>cy_recs = [], cy_adj = 0, cy_metricsAvailable = True, cy_reasons = []\<rparr>"
  obtain t1 s1 where n1: "call (Now (traced (rc_Client r))) s = (t1, s1)" by (metis surj_pair)
  obtain c2 s2 where f: "foldl (cycle_step (traced_rec r) pa usingVPA recs nc ?cst ?cfg) (?init, s1) pods = (c2, s2)"
    by (metis surj_pair)
  obtain t3 s3 where n3: "call (Now (traced (rc_Client r))) s2 = (t3, s3)" by (metis surj_pair)
  have "tr s1 = tr s" "tr s3 = tr s2" using n1 n3 by (auto dest: call_reads)
  moreover have "tr s' = tr s3"
    using assms by (auto simp: run_cycle_def Let_def n1 f n3)
  moreover have "grows (permitted pa) (tr s1) (tr s2)"
    using cycle_loop.loop_grows[of pa "(?init, s1)" r usingVPA recs nc ?cst ?cfg pods] by (simp add: f)
  ultimately show ?thesis by simp
qed

end
