(* ===== verification/ReconcileProps.thy ===== *)
theory ReconcileProps
  imports ReconcileTrace
begin

text \<open>
  Properties of whole reconciliations: what they may write, the finalizer's life cycle, halting
  on a VPA conflict, the status a finished cycle reports, and the accounting of adjustments.
\<close>

section \<open>The spec and the identity survive\<close>

definition same_object :: "('s, 'q) PodAutoscaler \<Rightarrow> ('s, 'q) PodAutoscaler \<Rightarrow> bool" where
  "same_object pa pa' \<longleftrightarrow> (\<exists>st. pa' = pa\<lparr>pa_Status := st\<rparr>)"

lemma same_object_refl [simp]: "same_object pa pa"
  unfolding same_object_def by (rule exI[of _ "pa_Status pa"]) simp

lemma same_object_trans [trans]: "same_object a b \<Longrightarrow> same_object b c \<Longrightarrow> same_object a c"
  by (auto simp: same_object_def)

lemma same_object_upd [simp]: "same_object pa (upd_status f pa')" if "same_object pa pa'"
  using that by (auto simp: same_object_def) (metis (no_types, lifting) PodAutoscaler.surjective PodAutoscaler.update_convs(7) PodAutoscaler.fold_congs(7))

lemma setCondition_same: "setCondition r pa t st rsn msg s = (pa', s') \<Longrightarrow> same_object pa pa'"
  by (auto simp: setCondition_def split: prod.splits)

lemma checkVPA_same: "checkVPAIntegration r pa s = ((res, pa'), s') \<Longrightarrow> same_object pa pa'"
  by (auto simp: checkVPAIntegration_def Let_def split: prod.splits if_splits option.splits bool.splits dest!: setCondition_same)

lemma same_permitted: "same_object pa pa' \<Longrightarrow> permitted pa' = permitted pa"
  by (auto simp: same_object_def permitted_def update_mode_def fun_eq_iff)

section \<open>The finished cycle\<close>

lemma status_update_ignored_trace:
  "status_update_ignored (traced_rec r) pa s = (pa', s') \<Longrightarrow> tr s' = tr s @ [StatusCall pa]"
  by (auto simp: status_update_ignored_def split: prod.splits sum.splits dest!: call_writes)

definition cond_holds :: "string \<Rightarrow> string \<Rightarrow> Condition list \<Rightarrow> bool" where
  "cond_holds t v cs \<longleftrightarrow> (\<exists>c\<in>set cs. cond_Type c = t \<and> cond_Status c = v)"

abbreviation holds :: "string \<Rightarrow> string \<Rightarrow> 'q PodAutoscalerStatus \<Rightarrow> bool" where
  "holds t v st \<equiv> cond_holds t v (st_Conditions st)"

lemma cond_holds_set [simp]: "cond_holds t v (set_cond now t v rsn msg cs)"
  using set_cond_holds[of now t v rsn msg cs] by (auto simp: cond_holds_def)

lemma cond_holds_other [simp]:
  assumes "t \<noteq> t'"
  shows "cond_holds t v (set_cond now t' v' rsn msg cs) \<longleftrightarrow> cond_holds t v cs"
proof -
  have "cond_holds t v x \<longleftrightarrow> (\<exists>c\<in>set (filter (\<lambda>c. cond_Type c \<noteq> t') x). cond_Type c = t \<and> cond_Status c = v)" for x
    using assms by (auto simp: cond_holds_def)
  from this[of "set_cond now t' v' rsn msg cs"] this[of cs] show ?thesis
    by (simp add: set_cond_others)
qed

text \<open>The status a finished cycle is reported with.\<close>

definition reports :: "('s, 'q) PodAutoscaler \<Rightarrow> 'q cycle \<Rightarrow> ('s, 'q) PodAutoscaler \<Rightarrow> bool" where
  "reports pa cy pa' \<longleftrightarrow>
     (let st = pa_Status pa; st' = pa_Status pa' in
      same_object pa pa'
      \<and> st_Phase st' = (if cy_metricsAvailable cy then ''Active'' else ''Degraded'')
      \<and> st_ObservedGeneration st' = pa_Generation pa
      \<and> st_TotalAdjustments st' = st_TotalAdjustments st + cy_adj cy
      \<and> st_LastEvaluationTime st' \<noteq> None
      \<and> st_LastUpdateTime st' = (if 0 < sint (cy_adj cy) then st_LastEvaluationTime st' else st_LastUpdateTime st)
      \<and> st_Recommendation st' = (if cy_recs cy = [] then st_Recommendation st else Some (cy_recs cy))
      \<and> st_MonitoredPods st' = st_MonitoredPods st \<and> st_VPAStatus st' = st_VPAStatus st
      \<and> map_option ns_ClampReasons (st_NamespaceConstraints st') =
          (if cy_reasons cy = [] then map_option ns_ClampReasons (st_NamespaceConstraints st)
           else map_option (\<lambda>_. cy_reasons cy) (st_NamespaceConstraints st))
      \<and> (if cy_metricsAvailable cy then holds ''Ready'' ''True'' st' \<and> holds ''MetricsAvailable'' ''True'' st'
         else holds ''MetricsAvailable'' ''False'' st' \<and> (\<forall>v. holds ''Ready'' v st' \<longleftrightarrow> holds ''Ready'' v st))
      \<and> (\<forall>v. holds ''VPAConflict'' v st' \<longleftrightarrow> holds ''VPAConflict'' v st))"

text \<open>The object with its clamp reasons and the new status, before the conditions are set.\<close>

definition with_reasons :: "'q cycle \<Rightarrow> ('s, 'q) PodAutoscaler \<Rightarrow> ('s, 'q) PodAutoscaler" where
  "with_reasons cy pa =
     (case st_NamespaceConstraints (pa_Status pa) of
        Some n \<Rightarrow> if cy_reasons cy \<noteq> []
                  then upd_status (st_NamespaceConstraints_update (\<lambda>_. Some (n\<lparr>ns_ClampReasons := cy_reasons cy\<rparr>))) pa
                  else pa
      | None \<Rightarrow> pa)"

definition cond_upd :: "int \<Rightarrow> string \<Rightarrow> string \<Rightarrow> string \<Rightarrow> string \<Rightarrow> ('s, 'q) PodAutoscaler \<Rightarrow> ('s, 'q) PodAutoscaler" where
  "cond_upd now t st rsn msg pa = upd_status (st_Conditions_update (set_cond now t st rsn msg)) pa"

lemma setCondition_cond: "setCondition r pa t st rsn msg s = (pa', s') \<Longrightarrow> \<exists>now. pa' = cond_upd now t st rsn msg pa"
  by (auto simp: setCondition_def cond_upd_def split: prod.splits)

lemma with_reasons_reports:
  assumes "p = (with_reasons cy pa)\<lparr>pa_Status := status_of_cycle now (with_reasons cy pa) cy\<rparr>"
  shows "cy_metricsAvailable cy \<Longrightarrow>
      reports pa cy (cond_upd n2 ''MetricsAvailable'' ''True'' r2 m2 (cond_upd n1 ''Ready'' ''True'' r1 m1 p))"
    and "\<not> cy_metricsAvailable cy \<Longrightarrow> reports pa cy (cond_upd n1 ''MetricsAvailable'' ''False'' r1 m1 p)"
proof -
  obtain st0 where w: "with_reasons cy pa = pa\<lparr>pa_Status := st0\<rparr>" and st0: "st0 = pa_Status (with_reasons cy pa)"
    by (auto simp: with_reasons_def split: option.splits)
  have f: "st_Conditions st0 = st_Conditions (pa_Status pa)" "st_TotalAdjustments st0 = st_TotalAdjustments (pa_Status pa)"
    "st_LastUpdateTime st0 = st_LastUpdateTime (pa_Status pa)" "st_Recommendation st0 = st_Recommendation (pa_Status pa)"
    "st_MonitoredPods st0 = st_MonitoredPods (pa_Status pa)" "st_VPAStatus st0 = st_VPAStatus (pa_Status pa)"
    "map_option ns_ClampReasons (st_NamespaceConstraints st0) =
       (if cy_reasons cy = [] then map_option ns_ClampReasons (st_NamespaceConstraints (pa_Status pa))
        else map_option (\<lambda>_. cy_reasons cy) (st_NamespaceConstraints (pa_Status pa)))"
    by (auto simp: st0 with_reasons_def split: option.splits)
  have same: "same_object pa (pa\<lparr>pa_Status := x\<rparr>)" for x by (auto simp: same_object_def)
  show "cy_metricsAvailable cy \<Longrightarrow>
      reports pa cy (cond_upd n2 ''MetricsAvailable'' ''True'' r2 m2 (cond_upd n1 ''Ready'' ''True'' r1 m1 p))"
    by (simp add: reports_def assms cond_upd_def w same status_of_cycle_def Let_def f)
  show "\<not> cy_metricsAvailable cy \<Longrightarrow> reports pa cy (cond_upd n1 ''MetricsAvailable'' ''False'' r1 m1 p)"
    by (simp add: reports_def assms cond_upd_def w same status_of_cycle_def Let_def f)
qed

lemma report_reasons_eq:
  "fst (report_reasons pa cy s) = with_reasons cy pa"
  "rs_world (snd (report_reasons pa cy s)) = rs_world s"
  by (simp_all add: report_reasons_def with_reasons_def Eventf_def split: option.split)

lemma finish_cycle_status:
  assumes "finish_cycle (traced_rec r) pa usingVPA cy s = ((d, err), s')"
  shows "\<exists>pa'. tr s' = tr s @ [StatusCall pa'] \<and> reports pa cy pa'"
proof -
  obtain s0 where s0: "report_reasons pa cy s = (with_reasons cy pa, s0)" and t0: "tr s0 = tr s"
    using report_reasons_eq[of pa cy s] by (cases "report_reasons pa cy s") auto
  obtain now s1 where n: "call (Now (traced (rc_Client r))) s0 = (now, s1)" by (metis surj_pair)
  define p where "p = (with_reasons cy pa)\<lparr>pa_Status := status_of_cycle now (with_reasons cy pa) cy\<rparr>"
  note R = with_reasons_reports[OF p_def]
  have t1: "tr s1 = tr s" using n t0 by (auto dest: call_reads)
  show ?thesis
  proof (cases "cy_metricsAvailable cy")
    case True
    let ?m = "''Successfully evaluated all pods (source='' @ (if usingVPA then ''vpa'' else ''podfather'') @ '')''"
    obtain p2 s2 where c2: "setCondition (traced_rec r) p ''Ready'' ConditionTrue ''Reconciled'' ?m s1 = (p2, s2)" by (metis surj_pair)
    obtain p3 s3 where c3: "setCondition (traced_rec r) p2 ''MetricsAvailable'' ConditionTrue ''MetricsCollected'' ''Metrics API responsive'' s2 = (p3, s3)"
      by (metis surj_pair)
    obtain x s4 where u: "call (UpdateStatus (traced (rc_Client r)) p3) s3 = (x, s4)" by (metis surj_pair)
    have "s' = s4" using assms True by (simp add: finish_cycle_def s0 n c2[simplified] c3[simplified] u flip: p_def split: sum.splits)
    moreover have "tr s4 = tr s @ [StatusCall p3]"
      using u c2 c3 t1 by (simp add: call_writes(2) setCondition_trace)
    moreover have "reports pa cy p3"
      using setCondition_cond[OF c2] setCondition_cond[OF c3] R(1)[OF True] by blast
    ultimately show ?thesis by blast
  next
    case False
    obtain p2 s2 where c2: "setCondition (traced_rec r) p ''MetricsAvailable'' ConditionFalse ''MetricsUnavailable''
        ''Failed to collect metrics for some pods'' s1 = (p2, s2)" by (metis surj_pair)
    obtain x s4 where u: "call (UpdateStatus (traced (rc_Client r)) p2) s2 = (x, s4)" by (metis surj_pair)
    have "s' = s4" using assms False by (simp add: finish_cycle_def s0 n c2[simplified] u flip: p_def split: sum.splits)
    moreover have "tr s4 = tr s @ [StatusCall p2]"
      using u c2 t1 by (simp add: call_writes(2) setCondition_trace)
    moreover have "reports pa cy p2" using setCondition_cond[OF c2] R(2)[OF False] by blast
    ultimately show ?thesis by blast
  qed
qed

section \<open>Reconciling running pods\<close>

text \<open>The object the cycle runs on.\<close>

definition cycle_object ::
  "'q quantity_ops \<Rightarrow> 'q vpaCheckResult \<Rightarrow> NamespaceConstraints \<Rightarrow> ('s, 'q) PodAutoscaler \<Rightarrow> ('s, 'q) PodAutoscaler" where
  "cycle_object ops vres nc pa1 =
     upd_status (st_NamespaceConstraints_update (\<lambda>_. buildNamespaceConstraintsStatus ops nc))
       (upd_status (st_VPAStatus_update (\<lambda>_. vc_status vres)) pa1)"

definition uses_vpa :: "'q vpaCheckResult \<Rightarrow> bool" where
  "uses_vpa vres = (case vc_status vres of Some st \<Rightarrow> vs_UsingVPARecommendations st | None \<Rightarrow> False)"

lemma halt_status: "shouldHaltForVPAConflict (upd_status f pa) vres = shouldHaltForVPAConflict pa vres"
  by (simp add: shouldHaltForVPAConflict_def)

lemma same_halt: "same_object pa pa' \<Longrightarrow> shouldHaltForVPAConflict pa' vres = shouldHaltForVPAConflict pa vres"
  by (auto simp: same_object_def shouldHaltForVPAConflict_def split: option.splits)

lemma reconcile_halts:
  assumes c: "checkVPAIntegration (traced_rec r) pa s = ((vres, pa1), s1)"
    and h: "shouldHaltForVPAConflict pa vres" and st: "vc_status vres = Some st"
    and e: "reconcile_pods (traced_rec r) pa pods s = ((d, err), s')"
  shows "err = None \<and> 10000000000 \<le> sint d \<and> (\<exists>pa'. tr s' = tr s @ [StatusCall pa'] \<and> same_object pa pa'
      \<and> st_Phase (pa_Status pa') = PhaseDegraded \<and> st_VPAStatus (pa_Status pa') = Some st
      \<and> holds ''VPAConflict'' ''True'' (pa_Status pa'))"
proof -
  define p where "p = upd_status (st_Phase_update (\<lambda>_. PhaseDegraded)) (upd_status (st_VPAStatus_update (\<lambda>_. vc_status vres)) pa1)"
  have same: "same_object pa p" unfolding p_def using checkVPA_same[OF c] by simp
  have h1: "shouldHaltForVPAConflict (upd_status (st_VPAStatus_update (\<lambda>_. vc_status vres)) pa1) vres"
    using h same_halt[OF checkVPA_same[OF c]] halt_status by blast
  obtain p2 s2 where c2: "setCondition (traced_rec r) p ''VPAConflict'' ConditionTrue ''VPAConflict'' (vs_VPAConflict st) s1 = (p2, s2)"
    by (metis surj_pair)
  obtain p3 s3 where u: "status_update_ignored (traced_rec r) p2 s2 = (p3, s3)" by (metis surj_pair)
  have "reconcile_pods (traced_rec r) pa pods s
      = ((requeueInterval p3, None), Eventf EventTypeWarning ''VPAConflict'' (vs_VPAConflict st) s3)"
    by (simp only: reconcile_pods_def c Let_def prod.case h1[unfolded st] if_True st option.case c2[unfolded p_def st] u)
  with e have r: "d = requeueInterval p3" "err = None" "s' = Eventf EventTypeWarning ''VPAConflict'' (vs_VPAConflict st) s3"
    by simp_all
  have "tr s' = tr s @ [StatusCall p2]"
    using r(3) status_update_ignored_trace[OF u] setCondition_trace[OF c2] checkVPA_trace[OF c] by simp
  moreover obtain now where p2: "p2 = cond_upd now ''VPAConflict'' ConditionTrue ''VPAConflict'' (vs_VPAConflict st) p"
    using setCondition_cond[OF c2] by blast
  moreover have "same_object pa p2" using same setCondition_same[OF c2] by (rule same_object_trans)
  ultimately show ?thesis using r(1,2) requeue_value[of p3] by (auto simp: cond_upd_def p_def st)
qed

lemma reconcile_cycle:
  assumes c: "checkVPAIntegration (traced_rec r) pa s = ((vres, pa1), s1)"
    and h: "\<not> shouldHaltForVPAConflict pa vres"
    and f: "fetch_constraints (traced_rec r) (upd_status (st_VPAStatus_update (\<lambda>_. vc_status vres)) pa1) s1 = (nc, s2)"
    and run: "run_cycle (traced_rec r) (cycle_object (rc_ops r) vres nc pa1) (uses_vpa vres) (vc_recommendations vres) nc pods s2 = (cy, s3)"
    and e: "reconcile_pods (traced_rec r) pa pods s = (res, s')"
  shows "\<exists>new pa'. tr s' = tr s @ new @ [StatusCall pa'] \<and> list_all (permitted pa) new
      \<and> reports (cycle_object (rc_ops r) vres nc pa1) cy pa'"
proof -
  let ?p = "cycle_object (rc_ops r) vres nc pa1"
  have h1: "\<not> shouldHaltForVPAConflict (upd_status (st_VPAStatus_update (\<lambda>_. vc_status vres)) pa1) vres"
    using h same_halt[OF checkVPA_same[OF c]] halt_status by blast
  have same: "same_object pa ?p" unfolding cycle_object_def using checkVPA_same[OF c] by simp
  obtain d err where res: "res = (d, err)" by (cases res)
  have fin: "finish_cycle (traced_rec r) ?p (uses_vpa vres) cy s3 = ((d, err), s')"
    using e by (simp only: reconcile_pods_def c Let_def prod.case h1 if_False f traced_rec_simps res run
        flip: cycle_object_def uses_vpa_def)
  have "tr s2 = tr s" using fetch_trace[OF f] checkVPA_trace[OF c] by simp
  moreover obtain new where "tr s3 = tr s2 @ new" "list_all (permitted pa) new"
    using run_cycle_trace[OF run] by (auto simp: grows_def same_permitted[OF same])
  ultimately show ?thesis using finish_cycle_status[OF fin] by auto
qed

lemma reconcile_pods_grows:
  assumes e: "reconcile_pods (traced_rec r) pa pods s = (res, s')"
  shows "grows (\<lambda>c. touches_pod c \<longrightarrow> permitted pa c) (tr s) (tr s')"
proof -
  obtain vres pa1 s1 where c: "checkVPAIntegration (traced_rec r) pa s = ((vres, pa1), s1)" by (metis surj_pair)
  show ?thesis
  proof (cases "shouldHaltForVPAConflict pa vres")
    case True
    then obtain st where "vc_status vres = Some st" by (auto simp: shouldHaltForVPAConflict_def split: option.splits)
    moreover obtain d err where "res = (d, err)" by (cases res)
    ultimately obtain pa' where "tr s' = tr s @ [StatusCall pa']" using reconcile_halts[OF c True] e by blast
    then show ?thesis by simp
  next
    case False
    obtain nc s2 where f: "fetch_constraints (traced_rec r) (upd_status (st_VPAStatus_update (\<lambda>_. vc_status vres)) pa1) s1 = (nc, s2)"
      by (metis surj_pair)
    obtain cy s3 where run: "run_cycle (traced_rec r) (cycle_object (rc_ops r) vres nc pa1) (uses_vpa vres) (vc_recommendations vres) nc pods s2 = (cy, s3)"
      by (metis surj_pair)
    from reconcile_cycle[OF c False f run e] show ?thesis
      by (auto simp: list_all_iff)
  qed
qed

text \<open>The hypotheses hold for a Deployment with a VPA in mode \<^verbatim>\<open>Auto\<close> and a strict policy.\<close>

abbreviation conflict_rec :: "((nat, string, int) traced_world, string, string, int) reconciler" where
  "conflict_rec \<equiv> traced_rec (sample_reconciler (sample_pa ''Auto'' False) [sample_pod] [] [sample_vpa ''Auto''])"

lemma traced_rec_sample:
  "call (IsVPAInstalled (rc_Client conflict_rec)) (start (0, [])) = (True, start (0, []))"
  "lookup_vpa conflict_rec (sample_pa ''Auto'' False) (start (0, [])) = (Some (sample_info ''Auto''), start (0, []))"
proof -
  show "call (IsVPAInstalled (rc_Client conflict_rec)) (start (0, [])) = (True, start (0, []))"
    by (simp add: call_def IsVPAInstalled_def traced_def untraced_def sample_reconciler_def fixed_cluster_def start_def)
  show "lookup_vpa conflict_rec (sample_pa ''Auto'' False) (start (0, [])) = (Some (sample_info ''Auto''), start (0, []))"
    by (simp add: lookup_vpa_def sample_pa_def sample_spec_def call_def FindMatchingVPA_def traced_def untraced_def
        sample_reconciler_def fixed_cluster_def start_def sample_parse)
       (simp add: sample_info_def)
qed

lemma sample_conflict:
  "\<exists>vres s1 st. checkVPAIntegration conflict_rec (sample_pa ''Auto'' False) (start (0, [])) = ((vres, sample_pa ''Auto'' False), s1)
     \<and> vc_status vres = Some st \<and> vs_VPAConflict st \<noteq> []"
proof -
  have f: "rc_VPAClient conflict_rec" "\<not> vpa_disabled (sample_pa ''Auto'' False)"
    by (simp_all add: sample_reconciler_def vpa_disabled_def sample_pa_def sample_spec_def)
  obtain err where v: "ValidateVPAMode (Some (sample_info ''Auto'')) = Some err" "err_text err \<noteq> []"
    by (simp add: ValidateVPAMode_def sample_info_def)
  show ?thesis
    by (simp only: checkVPAIntegration_def f traced_rec_sample v(1) Let_def simp_thms if_False bool.case option.case prod.case)
       (simp add: vpa_status_def v(2))
qed

text \<open>
  C13. A VPA that is not \<^verbatim>\<open>Off\<close> stops the reconciliation in strict mode: nothing is evaluated and no
  pod is touched; the only write reports phase Degraded, the conflict and the condition
  \<^verbatim>\<open>VPAConflict\<close>, and the object is requeued without an error.
\<close>

theorem strict_conflict_halts:
  assumes "checkVPAIntegration (traced_rec r) pa s = ((vres, pa1), s1)"
    and "vc_status vres = Some st" and "vs_VPAConflict st \<noteq> []"
    and "sp_VPAPolicy (pa_Spec pa) = Some p" and "vp_StrictMode p"
    and "reconcile_pods (traced_rec r) pa pods s = ((d, err), s')"
  shows "err = None \<and> 10000000000 \<le> sint d \<and> (\<exists>pa'. tr s' = tr s @ [StatusCall pa'] \<and> same_object pa pa'
      \<and> st_Phase (pa_Status pa') = ''Degraded'' \<and> st_VPAStatus (pa_Status pa') = Some st
      \<and> holds ''VPAConflict'' ''True'' (pa_Status pa'))"
  using assms by (intro reconcile_halts) (auto simp: shouldHaltForVPAConflict_def)

theorem strict_conflict_halts_witness:
  "\<exists>d err s'. reconcile_pods conflict_rec (sample_pa ''Auto'' False) [sample_pod] (start (0, [])) = ((d, err), s')
     \<and> (\<exists>pa'. tr s' = [StatusCall pa'] \<and> st_Phase (pa_Status pa') = ''Degraded'')"
proof -
  obtain vres s1 st where c: "checkVPAIntegration conflict_rec (sample_pa ''Auto'' False) (start (0, [])) = ((vres, sample_pa ''Auto'' False), s1)"
    "vc_status vres = Some st" "vs_VPAConflict st \<noteq> []"
    using sample_conflict by blast
  obtain d err s' where e: "reconcile_pods conflict_rec (sample_pa ''Auto'' False) [sample_pod] (start (0, [])) = ((d, err), s')"
    by (metis surj_pair)
  have p: "sp_VPAPolicy (pa_Spec (sample_pa ''Auto'' False)) = Some \<lparr>vp_Enabled = None, vp_VPAName = [], vp_StrictMode = True\<rparr>"
    by (simp add: sample_pa_def sample_spec_def)
  from strict_conflict_halts[OF c p _ e] e show ?thesis by (auto simp: start_def)
qed

text \<open>
  C5. What a full cycle writes: its patches and evictions are permitted by the spec, and then
  comes exactly one status update, the last write of all, which reports the cycle: the phase is
  Active exactly when the metrics of all pods were available, the adjustments of the cycle are
  added to the total, the update time moves exactly when something was adjusted, the observed
  generation is the object's, and the conditions say whether metrics were available and keep
  what they said of a VPA conflict.
\<close>

theorem cycle_is_reported:
  assumes "checkVPAIntegration (traced_rec r) pa s = ((vres, pa1), s1)"
    and "\<not> shouldHaltForVPAConflict pa vres"
    and "fetch_constraints (traced_rec r) (upd_status (st_VPAStatus_update (\<lambda>_. vc_status vres)) pa1) s1 = (nc, s2)"
    and "run_cycle (traced_rec r) (cycle_object (rc_ops r) vres nc pa1) (uses_vpa vres) (vc_recommendations vres) nc pods s2 = (cy, s3)"
    and "reconcile_pods (traced_rec r) pa pods s = (res, s')"
  shows "\<exists>new pa'. tr s' = tr s @ new @ [StatusCall pa'] \<and> list_all (permitted pa) new
      \<and> reports (cycle_object (rc_ops r) vres nc pa1) cy pa'"
  by (rule reconcile_cycle[OF assms])

theorem cycle_is_reported_witness:
  "\<exists>res s' new pa'. reconcile_pods (traced_rec ((sample_reconciler (sample_pa ''Auto'' False) [sample_pod] [] [])\<lparr>rc_VPAClient := False\<rparr>))
       (sample_pa ''Auto'' False) [sample_pod] (start (0, [])) = (res, s')
     \<and> tr s' = new @ [StatusCall pa'] \<and> st_ObservedGeneration (pa_Status pa') = 1"
proof -
  let ?r = "(sample_reconciler (sample_pa ''Auto'' False) [sample_pod] [] [])\<lparr>rc_VPAClient := False\<rparr>" and ?pa = "sample_pa ''Auto'' False"
  let ?v = "\<lparr>vc_status = None, vc_recommendations = []\<rparr> :: int vpaCheckResult"
  have c: "checkVPAIntegration (traced_rec ?r) ?pa (start (0, [])) = ((?v, ?pa), start (0, []))"
    by (simp add: checkVPAIntegration_def)
  have h: "\<not> shouldHaltForVPAConflict ?pa ?v" by (simp add: shouldHaltForVPAConflict_def)
  obtain nc s2 where f: "fetch_constraints (traced_rec ?r) (upd_status (st_VPAStatus_update (\<lambda>_. vc_status ?v)) ?pa) (start (0, [])) = (nc, s2)"
    by (metis surj_pair)
  obtain cy s3 where run: "run_cycle (traced_rec ?r) (cycle_object (rc_ops ?r) ?v nc ?pa) (uses_vpa ?v) (vc_recommendations ?v) nc [sample_pod] s2 = (cy, s3)"
    by (metis surj_pair)
  obtain res s' where e: "reconcile_pods (traced_rec ?r) ?pa [sample_pod] (start (0, [])) = (res, s')" by (metis surj_pair)
  obtain new pa' where n: "tr s' = new @ [StatusCall pa']" "reports (cycle_object (rc_ops ?r) ?v nc ?pa) cy pa'"
    using cycle_is_reported[OF c h f run e] by (auto simp: start_def)
  have "st_ObservedGeneration (pa_Status pa') = 1"
    using n(2) by (simp add: reports_def Let_def cycle_object_def sample_pa_def)
  with n(1) e show ?thesis by (auto simp: start_def)
qed

section \<open>The finalizer\<close>

text \<open>A pod without its annotation.\<close>

definition cleaned :: "'q Pod \<Rightarrow> 'q Pod" where
  "cleaned pod = pod\<lparr>pod_Annotations := map_option (\<lambda>m. m(last_recommendation := None)) (pod_Annotations pod)\<rparr>"

definition annotated :: "'q Pod \<Rightarrow> bool" where
  "annotated pod \<longleftrightarrow> (\<exists>m. pod_Annotations pod = Some m \<and> m last_recommendation \<noteq> None)"

lemma cleanup_pod_trace:
  "tr (cleanup_pod (traced_rec r) s pod) = tr s @ (if annotated pod then [PatchCall pod (cleaned pod)] else [])"
proof (cases "pod_Annotations pod")
  case (Some m)
  obtain x s2 where p: "call (PatchPod (traced (rc_Client r)) pod (pod\<lparr>pod_Annotations := Some (m(last_recommendation := None))\<rparr>)) s = (x, s2)"
    by (metis surj_pair)
  then have "tr s2 = tr s @ [PatchCall pod (cleaned pod)]" by (simp add: call_writes(3) cleaned_def Some)
  then show ?thesis by (simp add: cleanup_pod_def annotated_def Some p)
qed (simp add: cleanup_pod_def annotated_def)

lemma cleanup_fold_trace:
  "tr (foldl (cleanup_pod (traced_rec r)) s pods) = tr s @ map (\<lambda>p. PatchCall p (cleaned p)) (filter annotated pods)"
  by (induction pods arbitrary: s) (simp_all add: cleanup_pod_trace)

text \<open>The cleanup's patches: one for every annotated pod the selector lists.\<close>

definition cleanup_calls ::
  "('w, 's, 't, 'q) reconciler \<Rightarrow> ('s, 'q) PodAutoscaler \<Rightarrow> 'w \<Rightarrow> ('s, 'q) call list" where
  "cleanup_calls r pa w =
     (case LabelSelectorAsSelector (rc_Client r) (sp_Selector (pa_Spec pa)) of
        Inl err \<Rightarrow> []
      | Inr sel \<Rightarrow>
          (case fst (ListPods (rc_Client r) (pa_Namespace pa) sel w) of
             Inl err \<Rightarrow> []
           | Inr pods \<Rightarrow> map (\<lambda>p. PatchCall p (cleaned p)) (filter annotated pods)))"

lemma cleanup_trace:
  "tr (cleanupManagedPods (traced_rec r) pa s) = tr s @ cleanup_calls r pa (fst (rs_world s))"
proof (cases "LabelSelectorAsSelector (rc_Client r) (sp_Selector (pa_Spec pa))")
  case (Inr sel)
  obtain x s2 where l: "call (ListPods (traced (rc_Client r)) (pa_Namespace pa) sel) s = (x, s2)" by (metis surj_pair)
  then have "tr s2 = tr s" by (rule call_reads)
  moreover have "fst (ListPods (rc_Client r) (pa_Namespace pa) sel (fst (rs_world s))) = x"
    using l by (auto simp: call_def traced_def untraced_def split: prod.splits)
  ultimately show ?thesis using l Inr cleanup_fold_trace[of r s2]
    by (cases x) (simp_all add: cleanupManagedPods_def cleanup_calls_def)
qed (simp add: cleanupManagedPods_def cleanup_calls_def)

text \<open>
  C14. The finalizer's life cycle.  A deletion with the finalizer set removes Podfather's
  annotation from the listed pods that have it, then removes the finalizer and stops; without
  the finalizer it stops at once.  An object not being deleted leaves this step with the
  finalizer requested, by one update if it was missing, and reconciliation goes on unless that
  update fails.
\<close>

theorem handleFinalizer_lifecycle:
  assumes "handleFinalizer (traced_rec r) pa s = (((stop, err), pa'), s')"
    and "has = ContainsFinalizer (rc_Client r) (pa_Finalizers pa) finalizerName"
  shows "(pa_Deleting pa \<and> has \<longrightarrow> stop \<and> tr s' = tr s @ cleanup_calls r pa (fst (rs_world s))
            @ [UpdateCall (pa\<lparr>pa_Finalizers := RemoveFinalizer (rc_Client r) (pa_Finalizers pa) finalizerName\<rparr>)])
       \<and> (pa_Deleting pa \<and> \<not> has \<longrightarrow> stop \<and> err = None \<and> s' = s)
       \<and> (\<not> pa_Deleting pa \<and> has \<longrightarrow> \<not> stop \<and> pa' = pa \<and> s' = s)
       \<and> (\<not> pa_Deleting pa \<and> \<not> has \<longrightarrow> stop = (err \<noteq> None)
            \<and> tr s' = tr s @ [UpdateCall (pa\<lparr>pa_Finalizers := AddFinalizer (rc_Client r) (pa_Finalizers pa) finalizerName\<rparr>)])"
  using assms cleanup_trace[of r pa s]
  by (auto simp: handleFinalizer_def Let_def split: prod.splits sum.splits dest!: call_writes)

theorem handleFinalizer_lifecycle_witness:
  "\<exists>stop err pa' s'. handleFinalizer (traced_rec (sample_reconciler (sample_pa ''Auto'' False) [] [] [])) (sample_pa ''Auto'' False) (start (0, []))
       = (((stop, err), pa'), s') \<and> (\<exists>q. tr s' = [UpdateCall q] \<and> pa_Finalizers q = [''podfather.io/finalizer''])"
proof -
  let ?r = "sample_reconciler (sample_pa ''Auto'' False) [] [] []" and ?pa = "sample_pa ''Auto'' False"
  obtain stop err pa' s' where e: "handleFinalizer (traced_rec ?r) ?pa (start (0, [])) = (((stop, err), pa'), s')" by (metis surj_pair)
  have "\<not> ContainsFinalizer (rc_Client ?r) (pa_Finalizers ?pa) finalizerName" "\<not> pa_Deleting ?pa"
    "AddFinalizer (rc_Client ?r) (pa_Finalizers ?pa) finalizerName = [finalizerName]"
    by (simp_all add: sample_reconciler_def fixed_cluster_def sample_pa_def)
  with handleFinalizer_lifecycle[OF e refl] e show ?thesis by (simp add: start_def)
qed

section \<open>What a reconciliation may write\<close>

text \<open>The API server keeps the spec when it answers an update.\<close>

definition keeps_spec :: "('w, 's, 't, 'q) cluster \<Rightarrow> bool" where
  "keeps_spec cl \<longleftrightarrow> (\<forall>pa w pa' w'. UpdatePodAutoscaler cl pa w = (Inr pa', w') \<longrightarrow> pa_Spec pa' = pa_Spec pa)"

lemma handleFinalizer_grows:
  assumes "handleFinalizer (traced_rec r) pa s = (((stop, err), pa'), s')" "\<not> pa_Deleting pa" "keeps_spec (rc_Client r)"
  shows "grows (\<lambda>c. \<not> touches_pod c) (tr s) (tr s')" "\<not> stop \<Longrightarrow> pa_Spec pa' = pa_Spec pa"
proof -
  let ?q = "pa\<lparr>pa_Finalizers := AddFinalizer (rc_Client r) (pa_Finalizers pa) finalizerName\<rparr>"
  have k: "x = Inr pa'' \<Longrightarrow> pa_Spec pa'' = pa_Spec pa" if "call (UpdatePodAutoscaler (traced (rc_Client r)) ?q) s = (x, s2)" for x s2 pa''
  proof -
    have "UpdatePodAutoscaler (rc_Client r) ?q w = (Inr p, w') \<Longrightarrow> pa_Spec p = pa_Spec ?q" for w w' p
      using assms(3) unfolding keeps_spec_def by blast
    then show "x = Inr pa'' \<Longrightarrow> pa_Spec pa'' = pa_Spec pa"
      using that by (simp add: call_def traced_def logged_def split: prod.splits)
  qed
  show "grows (\<lambda>c. \<not> touches_pod c) (tr s) (tr s')"
    using assms(1,2) by (auto simp: handleFinalizer_def Let_def split: prod.splits sum.splits if_splits dest!: call_writes)
  show "\<not> stop \<Longrightarrow> pa_Spec pa' = pa_Spec pa"
    using assms(1,2) k by (auto simp: handleFinalizer_def Let_def split: prod.splits sum.splits if_splits)
qed

lemma discover_grows:
  assumes "discoverRunningPods (traced_rec r) pa s = ((x, pa'), s')"
  shows "grows (\<lambda>c. \<not> touches_pod c) (tr s) (tr s')" "x = Inr pods \<Longrightarrow> pa' = pa"
  using assms
  by (auto simp: discoverRunningPods_def Let_def split: prod.splits sum.splits
      dest!: call_reads setCondition_trace status_update_ignored_trace)

lemma Reconcile_grows:
  assumes g: "call (GetPodAutoscaler (rc_Client (traced_rec r)) ns name) s = (Inr pa, s1)"
    and d: "\<not> pa_Deleting pa" and k: "keeps_spec (rc_Client r)"
    and e: "Reconcile (traced_rec r) ns name s = (res, s')"
  shows "grows (\<lambda>c. touches_pod c \<longrightarrow> permitted pa c) (tr s) (tr s')"
proof -
  let ?P = "\<lambda>c. touches_pod c \<longrightarrow> permitted pa c"
  have weak: "grows (\<lambda>c. \<not> touches_pod c) a b \<Longrightarrow> grows ?P a b" for a b by (erule grows_mono) blast
  have t1: "tr s1 = tr s" using g by (auto dest: call_reads)
  obtain stop err pa2 s2 where f: "handleFinalizer (traced_rec r) pa s1 = (((stop, err), pa2), s2)" by (metis surj_pair)
  note F = handleFinalizer_grows[OF f d k]
  have g2: "grows ?P (tr s) (tr s2)" using weak[OF F(1)] t1 by simp
  show ?thesis
  proof (cases stop)
    case True
    with e g f have "s' = s2" by (simp add: Reconcile_def)
    with g2 show ?thesis by simp
  next
    case False
    have p2: "permitted pa2 = permitted pa" using F(2)[OF False] by (simp add: permitted_def update_mode_def fun_eq_iff)
    obtain x pa3 s3 where ds: "discoverRunningPods (traced_rec r) pa2 s2 = ((x, pa3), s3)" by (metis surj_pair)
    have g3: "grows ?P (tr s) (tr s3)" using g2 weak[OF discover_grows(1)[OF ds]] by (rule grows_trans)
    show ?thesis
    proof (cases x)
      case (Inl er)
      with e g f False ds have "s' = s3" by (simp add: Reconcile_def)
      with g3 show ?thesis by simp
    next
      case (Inr pods)
      have pa3: "pa3 = pa2" using discover_grows(2)[OF ds Inr] .
      define q where "q = upd_status (st_MonitoredPods_update (\<lambda>_. word_of_nat (length pods))) pa2"
      define s4 where "s4 = count (\<lambda>p. p\<lparr>PodsMonitored := lit (of_nat (length pods))\<rparr>) s3"
      have q: "permitted q = permitted pa" using p2 same_permitted[of pa2 q] by (simp add: q_def)
      show ?thesis
      proof (cases "pods = []")
        case True
        define q2 where "q2 = upd_status (st_Phase_update (\<lambda>_. PhasePending)) q"
        obtain p5 s5 where c: "setCondition (traced_rec r) q2 ''Ready'' ConditionFalse ''NoPodsFound'' ''No running pods match the selector'' s4 = (p5, s5)"
          by (metis surj_pair)
        obtain p6 s6 where u: "status_update_ignored (traced_rec r) p5 s5 = (p6, s6)" by (metis surj_pair)
        have "s' = s6" using e g
          by (simp only: Reconcile_def f ds Inr False bool.case prod.case sum.case Let_def True if_True simp_thms pa3
              q_def[symmetric] s4_def[symmetric, unfolded True] q2_def[symmetric, unfolded q_def True] c u prod.inject)
        then show ?thesis
          using g3 status_update_ignored_trace[OF u] setCondition_trace[OF c] by (simp add: s4_def grows_def) auto
      next
        case False2: False
        have "reconcile_pods (traced_rec r) q pods s4 = (res, s')"
          using e g f ds Inr False False2 pa3 by (simp add: Reconcile_def q_def s4_def)
        from reconcile_pods_grows[OF this] have "grows ?P (tr s4) (tr s')" by (simp add: q)
        with g3 show ?thesis by (auto simp: s4_def intro: grows_trans)
      qed
    qed
  qed
qed

lemma evict_not_patch: "is_evict c \<Longrightarrow> \<not> is_patch c"
  by (cases c) auto

text \<open>What the reconciliation of an object that is being deleted may do to pods: take its annotation from them.\<close>

definition cleans :: "('s, 'q) call \<Rightarrow> bool" where
  "cleans c \<longleftrightarrow> (\<exists>p. annotated p \<and> c = PatchCall p (cleaned p))"

lemma cleans_simps [simp]: "cleans c \<Longrightarrow> \<not> is_evict c"
  by (auto simp: cleans_def)

lemma Reconcile_deleting:
  assumes g: "call (GetPodAutoscaler (rc_Client (traced_rec r)) ns name) s = (Inr pa, s1)"
    and d: "pa_Deleting pa" and e: "Reconcile (traced_rec r) ns name s = (res, s')"
  shows "grows (\<lambda>c. touches_pod c \<longrightarrow> cleans c) (tr s) (tr s')"
proof -
  have t1: "tr s1 = tr s" using g by (auto dest: call_reads)
  obtain stop err pa2 s2 where f: "handleFinalizer (traced_rec r) pa s1 = (((stop, err), pa2), s2)" by (metis surj_pair)
  have c: "list_all cleans (cleanup_calls r pa w)" for w
    by (auto simp: cleanup_calls_def cleans_def list_all_iff split: sum.split)
  have "stop \<and> grows (\<lambda>c. touches_pod c \<longrightarrow> cleans c) (tr s1) (tr s2)"
    using f d cleanup_trace[of r pa s1] list.pred_mono_strong[OF c, of _ "\<lambda>c. touches_pod c \<longrightarrow> cleans c"]
    by (auto simp: handleFinalizer_def Let_def split: prod.splits sum.splits if_splits dest!: call_writes)
  with e g f t1 show ?thesis by (simp add: Reconcile_def)
qed

text \<open>
  C1. Dry-run and the update modes are respected by whole reconciliations, whatever the API
  server answers: with dry-run, or in mode \<^verbatim>\<open>Off\<close>, no pod is evicted, and none is patched unless the object is
  being deleted; then annotated pods lose Podfather's annotation, and no other patch is made.  In mode
  \<^verbatim>\<open>InPlace\<close> no pod is evicted.  The one assumption on the server is that its answer to an update of
  the object has the spec that was sent.
\<close>

theorem Reconcile_respects_mode:
  assumes "GetPodAutoscaler (rc_Client r) ns name (fst (rs_world s)) = (Inr pa, w1)" and "keeps_spec (rc_Client r)"
    and "Reconcile (traced_rec r) ns name s = (res, s')"
  shows "\<exists>new. tr s' = tr s @ new
       \<and> (sp_DryRun (pa_Spec pa) \<or> update_mode pa = ''Off'' \<longrightarrow>
            (\<forall>c\<in>set new. \<not> is_evict c
               \<and> (is_patch c \<longrightarrow> pa_Deleting pa \<and> (\<exists>p. annotated p \<and> c = PatchCall p (cleaned p)))))
       \<and> (update_mode pa = ''InPlace'' \<longrightarrow> (\<forall>c\<in>set new. \<not> is_evict c))"
proof -
  have g: "call (GetPodAutoscaler (rc_Client (traced_rec r)) ns name) s = (Inr pa, s\<lparr>rs_world := (w1, tr s)\<rparr>)"
    using assms(1) by (simp add: call_def traced_def untraced_def)
  show ?thesis
  proof (cases "pa_Deleting pa")
    case True
    from Reconcile_deleting[OF g this assms(3)] True show ?thesis
      by (fastforce simp: grows_def list_all_iff touches_pod_def cleans_def)
  next
    case False
    from Reconcile_grows[OF g False assms(2,3)] show ?thesis
      by (auto simp: grows_def list_all_iff permitted_def touches_pod_def evict_not_patch)
  qed
qed

lemma sample_keeps_spec: "keeps_spec (rc_Client (sample_reconciler pa pods metrics vpas))"
  by (simp add: keeps_spec_def sample_reconciler_def fixed_cluster_def)

theorem Reconcile_respects_mode_witness:
  "\<exists>res s'. Reconcile (traced_rec (sample_reconciler (sample_pa ''Auto'' True) [sample_pod] [] [])) ''prod'' ''web'' (start (0, [])) = (res, s')
     \<and> (\<forall>c\<in>set (tr s'). \<not> is_patch c \<and> \<not> is_evict c)"
proof -
  let ?r = "sample_reconciler (sample_pa ''Auto'' True) [sample_pod] [] []"
  obtain res s' where e: "Reconcile (traced_rec ?r) ''prod'' ''web'' (start (0, [])) = (res, s')" by (metis surj_pair)
  have "GetPodAutoscaler (rc_Client ?r) ''prod'' ''web'' (fst (rs_world (start (0, [] :: (string, int) call list)))) = (Inr (sample_pa ''Auto'' True), 0)"
    by (simp add: sample_reconciler_def fixed_cluster_def start_def)
  from Reconcile_respects_mode[OF this sample_keeps_spec e] e show ?thesis
    by (auto simp: sample_pa_def sample_spec_def start_def)
qed

lemma requeue_ge: "10000000000 \<le> sint (requeueInterval pa)"
  using requeue_value by blast

text \<open>
  C31. Results of a reconciliation: an error comes without a requeue interval; a result without
  an error requeues after at least ten seconds, unless the object is gone or being deleted.
\<close>

theorem Reconcile_result:
  assumes "Reconcile r ns name s = ((d, err), s')"
  shows "(err \<noteq> None \<longrightarrow> d = 0)
       \<and> (err = None \<longrightarrow> 10000000000 \<le> sint d
            \<or> d = 0 \<and> (case fst (GetPodAutoscaler (rc_Client r) ns name (rs_world s)) of
                           Inl e \<Rightarrow> ae_not_found e | Inr pa \<Rightarrow> pa_Deleting pa))"
proof -
  have f: "stop \<Longrightarrow> err' = None \<Longrightarrow> pa_Deleting pa" "\<not> stop \<Longrightarrow> err' = None"
    if "handleFinalizer r pa s1 = (((stop, err'), pa2), s2)" for pa s1 stop err' pa2 s2
    using that by (auto simp: handleFinalizer_def Let_def split: prod.splits sum.splits if_splits)
  have fin: "if e' = None then 10000000000 \<le> sint d' else d' = 0"
    if "finish_cycle r p v cy s1 = ((d', e'), s2)" for p v cy s1 d' e' s2
    using that by (auto simp: finish_cycle_def Let_def requeue_ge split: prod.splits sum.splits if_splits)
  have pods: "if e' = None then 10000000000 \<le> sint d' else d' = 0"
    if "reconcile_pods r p pods s1 = ((d', e'), s2)" for p pods s1 d' e' s2
    using that by (auto simp: reconcile_pods_def Let_def requeue_ge split: prod.splits if_splits dest: fin)
  obtain x s1 where g: "call (GetPodAutoscaler (rc_Client r) ns name) s = (x, s1)" by (metis surj_pair)
  then have x: "fst (GetPodAutoscaler (rc_Client r) ns name (rs_world s)) = x" by (auto simp: call_def split: prod.splits)
  show ?thesis
  proof (cases x)
    case (Inl e)
    with assms g x show ?thesis by (auto simp: Reconcile_def split: if_splits)
  next
    case (Inr pa)
    obtain stop err1 pa2 s2 where h: "handleFinalizer r pa s1 = (((stop, err1), pa2), s2)" by (metis surj_pair)
    show ?thesis
    proof (cases stop)
      case True
      with assms g Inr h have "d = 0" "err = err1" by (auto simp: Reconcile_def)
      with f(1)[OF h True] Inr x show ?thesis by simp
    next
      case False
      with assms g Inr h have "if err = None then 10000000000 \<le> sint d else d = 0"
        by (auto simp: Reconcile_def Let_def requeue_ge split: prod.splits sum.splits if_splits dest: pods)
      then show ?thesis by (cases err) auto
    qed
  qed
qed

theorem Reconcile_result_witness:
  "\<exists>d err s'. Reconcile (sample_reconciler (sample_pa ''Auto'' False) [] [] []) ''prod'' ''web'' (start 0) = ((d, err), s')
     \<and> (err \<noteq> None \<or> 10000000000 \<le> sint d)"
proof -
  let ?r = "sample_reconciler (sample_pa ''Auto'' False) [] [] []"
  obtain d err s' where e: "Reconcile ?r ''prod'' ''web'' (start 0) = ((d, err), s')" by (metis surj_pair)
  have "fst (GetPodAutoscaler (rc_Client ?r) ''prod'' ''web'' (rs_world (start 0))) = Inr (sample_pa ''Auto'' False)"
    by (simp add: sample_reconciler_def fixed_cluster_def)
  with Reconcile_result[OF e] e show ?thesis by (auto simp: sample_pa_def)
qed

section \<open>Accounting\<close>

definition adjusted_event :: "event \<Rightarrow> bool" where
  "adjusted_event e \<longleftrightarrow> ev_reason e = ''PodResourceAdjusted''"

definition adjusted :: "'w rstate \<Rightarrow> 64 word" where
  "adjusted s = word_of_nat (length (filter adjusted_event (rs_events s)))"

lemma events_simps [simp]:
  "rs_events (count f s) = rs_events s" "rs_events (observe_rec rec s) = rs_events s"
  "rs_events (Eventf ty rsn msg s) = rs_events s @ [\<lparr>ev_type = ty, ev_reason = rsn, ev_message = msg\<rparr>]"
  by (simp_all add: count_def observe_rec_def Eventf_def)

lemma call_events: "call f s = (x, s') \<Longrightarrow> rs_events s' = rs_events s"
  by (auto simp: call_def split: prod.splits)

lemma adjusted_simps [simp]:
  "adjusted (count f s) = adjusted s" "adjusted (observe_rec rec s) = adjusted s"
  "adjusted (Eventf ty rsn msg s) = (if rsn = ''PodResourceAdjusted'' then adjusted s + 1 else adjusted s)"
  by (simp_all add: adjusted_def adjusted_event_def)

lemma call_adjusted: "call f s = (x, s') \<Longrightarrow> adjusted s' = adjusted s"
  by (simp add: adjusted_def call_events)

lemma applyRecommendation_account:
  assumes "applyRecommendation r pa pod rec source s = ((adj, pod'), s')"
  shows "adjusted s' = adjusted s + adj \<and> grows (\<lambda>_. True) (rs_events s) (rs_events s')"
proof -
  obtain x p s1 where c: "call (ApplyRecommendation (rc_Client r) (rc_ops r) pod rec
      (case sp_UpdatePolicy (pa_Spec pa) of Some p \<Rightarrow> up_UpdateMode p | None \<Rightarrow> ModeAuto)) s = ((x, p), s1)"
    by (metis surj_pair)
  from assms call_events[OF c] call_adjusted[OF c] show ?thesis
    by (cases x) (auto simp: applyRecommendation_def Let_def c)
qed

text \<open>The number of adjustments made so far, less the number of events announcing one.\<close>

definition unannounced :: "'q eval \<times> 'w rstate \<Rightarrow> 64 word" where
  "unannounced acc = ea_adj (fst acc) - adjusted (snd acc)"

lemma vpa_step_account:
  "unannounced (vpa_step r pa nc cst cfg acc v) = unannounced acc
   \<and> grows (\<lambda>_. True) (rs_events (snd acc)) (rs_events (snd (vpa_step r pa nc cst cfg acc v)))"
  by (cases acc)
     (auto simp: vpa_step_def unannounced_def Let_def split: prod.splits dest!: applyRecommendation_account)

lemma metrics_step_account:
  "unannounced (metrics_step r pa nc cst cfg allocs acc cm) = unannounced acc
   \<and> grows (\<lambda>_. True) (rs_events (snd acc)) (rs_events (snd (metrics_step r pa nc cst cfg allocs acc cm)))"
  by (cases acc)
     (auto simp: metrics_step_def unannounced_def Let_def split: prod.splits option.splits sum.splits
       dest!: applyRecommendation_account)

interpretation vpa_account: untouched unannounced "vpa_step r pa nc cst cfg" for r pa nc cst cfg
  by unfold_locales (simp add: vpa_step_account)

interpretation metrics_account: untouched unannounced "metrics_step r pa nc cst cfg allocs" for r pa nc cst cfg allocs
  by unfold_locales (simp add: metrics_step_account)

interpretation vpa_events: trace_loop "\<lambda>a. rs_events (snd a)" "vpa_step r pa nc cst cfg" "\<lambda>_. True" for r pa nc cst cfg
  by unfold_locales (simp add: vpa_step_account)

interpretation metrics_events: trace_loop "\<lambda>a. rs_events (snd a)" "metrics_step r pa nc cst cfg allocs" "\<lambda>_. True"
    for r pa nc cst cfg allocs
  by unfold_locales (simp add: metrics_step_account)

lemma start_unannounced: "unannounced (eval_start pod, s) = - adjusted s"
  by (simp add: unannounced_def eval_start_def)

lemma evaluateVPAPod_account:
  assumes "evaluateVPAPod r pa recs nc cst cfg pod s = (ev, s')"
  shows "adjusted s' = adjusted s + ea_adj ev \<and> grows (\<lambda>_. True) (rs_events s) (rs_events s')"
proof -
  have "unannounced (ev, s') = - adjusted s"
    unfolding assms[unfolded evaluateVPAPod_def, symmetric] start_unannounced[of pod s, symmetric]
    by (rule vpa_account.get_foldl)
  moreover have "grows (\<lambda>_. True) (rs_events s) (rs_events s')"
    using vpa_events.loop_grows[where a = "(eval_start pod, s)" and xs = recs] assms by (metis evaluateVPAPod_def snd_conv)
  ultimately show ?thesis by (simp add: unannounced_def algebra_simps)
qed

lemma evaluatePodMetrics_account:
  assumes "evaluatePodMetrics r pa nc cst cfg pod s = ((ev, ok), s')"
  shows "adjusted s' = adjusted s + ea_adj ev \<and> grows (\<lambda>_. True) (rs_events s) (rs_events s')"
proof -
  obtain x s1 where g: "call (GetPodMetrics (rc_Client r) (pod_Namespace pod) (pod_Name pod)) s = (x, s1)"
    by (metis surj_pair)
  note q = call_events[OF g] call_adjusted[OF g]
  show ?thesis
  proof (cases x)
    case (Inl e)
    with assms g q show ?thesis by (auto simp: evaluatePodMetrics_def eval_start_def)
  next
    case (Inr pm)
    let ?a = "GetCurrentAllocations (rc_ops r) pod"
    have f: "foldl (metrics_step r pa nc cst cfg ?a) (eval_start pod, s1) pm = (ev, s')"
      using assms g Inr by (auto simp: evaluatePodMetrics_def Let_def split: prod.splits)
    have "unannounced (ev, s') = - adjusted s1"
      using metrics_account.get_foldl[of r pa nc cst cfg ?a "(eval_start pod, s1)" pm] by (simp add: f start_unannounced)
    moreover have "grows (\<lambda>_. True) (rs_events s1) (rs_events s')"
      using metrics_events.loop_grows[of "(eval_start pod, s1)" r pa nc cst cfg ?a pm] by (simp add: f)
    ultimately show ?thesis using q by (simp add: unannounced_def algebra_simps)
  qed
qed

definition cycle_unannounced :: "'q cycle \<times> 'w rstate \<Rightarrow> 64 word" where
  "cycle_unannounced acc = cy_adj (fst acc) - adjusted (snd acc)"

lemma cycle_step_account:
  "cycle_unannounced (cycle_step r pa v recs nc cst cfg acc pod) = cycle_unannounced acc
   \<and> grows (\<lambda>_. True) (rs_events (snd acc)) (rs_events (snd (cycle_step r pa v recs nc cst cfg acc pod)))"
  by (cases acc)
     (auto simp: cycle_step_def cycle_unannounced_def Let_def split: prod.splits
       dest!: evaluateVPAPod_account evaluatePodMetrics_account)

interpretation cycle_account: untouched cycle_unannounced "cycle_step r pa v recs nc cst cfg" for r pa v recs nc cst cfg
  by unfold_locales (simp add: cycle_step_account)

interpretation cycle_events: trace_loop "\<lambda>a. rs_events (snd a)" "cycle_step r pa v recs nc cst cfg" "\<lambda>_. True"
    for r pa v recs nc cst cfg
  by unfold_locales (simp add: cycle_step_account)

text \<open>
  C21. The books balance: the adjustments a cycle reports are exactly the \<^verbatim>\<open>PodResourceAdjusted\<close>
  events it emitted (as a 64-bit integer), over all pods and both evaluation paths.
\<close>

theorem cycle_accounting:
  assumes "run_cycle r pa usingVPA recs nc pods s = (cy, s')"
  shows "\<exists>new. rs_events s' = rs_events s @ new \<and> cy_adj cy = word_of_nat (length (filter adjusted_event new))"
proof -
  let ?cst = "ToCalculatorConstraints nc DefaultConstraints" and ?cfg = "buildCalculatorConfig pa"
  let ?init = "\<lparr>cy_recs = [], cy_adj = 0, cy_metricsAvailable = True, cy_reasons = []\<rparr>"
  obtain t1 s1 where n1: "call (Now (rc_Client r)) s = (t1, s1)" by (metis surj_pair)
  obtain c2 s2 where f: "foldl (cycle_step r pa usingVPA recs nc ?cst ?cfg) (?init, s1) pods = (c2, s2)" by (metis surj_pair)
  obtain t3 s3 where n3: "call (Now (rc_Client r)) s2 = (t3, s3)" by (metis surj_pair)
  have e: "cy = c2" "rs_events s' = rs_events s2" "rs_events s1 = rs_events s"
    using assms call_events[OF n1] call_events[OF n3] by (auto simp: run_cycle_def Let_def n1 f n3)
  have "cycle_unannounced (c2, s2) = - adjusted s1"
    using cycle_account.get_foldl[of r pa usingVPA recs nc ?cst ?cfg "(?init, s1)" pods] by (simp add: f cycle_unannounced_def)
  then have a: "adjusted s2 = adjusted s1 + cy_adj c2" by (simp add: cycle_unannounced_def algebra_simps)
  have "grows (\<lambda>_. True) (rs_events s1) (rs_events s2)"
    using cycle_events.loop_grows[of "(?init, s1)" r pa usingVPA recs nc ?cst ?cfg pods] by (simp add: f)
  then obtain new where "rs_events s2 = rs_events s1 @ new" by (auto simp: grows_def)
  with a e show ?thesis by (intro exI[of _ new]) (simp add: adjusted_def)
qed

theorem cycle_accounting_witness:
  "\<exists>cy s'. run_cycle (sample_reconciler (sample_pa ''Auto'' False) [] [] []) (sample_pa ''Auto'' False) False [] EmptyConstraints
       [sample_pod] (start 0) = (cy, s') \<and> cy_adj cy = word_of_nat (length (filter adjusted_event (rs_events s')))"
proof -
  obtain cy s' where e: "run_cycle (sample_reconciler (sample_pa ''Auto'' False) [] [] []) (sample_pa ''Auto'' False) False []
      EmptyConstraints [sample_pod] (start 0) = (cy, s')" by (metis surj_pair)
  with cycle_accounting[OF e] show ?thesis by (auto simp: start_def)
qed

text \<open>
  C37. In mode \<^verbatim>\<open>Off\<close> a significant recommendation counts as an adjustment although nothing is
  applied: no call is made and the pod is unchanged, but the event \<^verbatim>\<open>PodResourceAdjusted\<close> is emitted
  and both counters of the container go up.
\<close>

theorem Off_counts_as_adjustment:
  assumes "update_mode pa = ''Off''" and "applyRecommendation r pa pod rec source s = ((adj, pod'), s')"
  shows "adj = 1 \<and> pod' = pod \<and> rs_world s' = rs_world s
       \<and> (\<exists>e. rs_events s' = rs_events s @ [e] \<and> adjusted_event e)
       \<and> (\<forall>res\<in>{''cpu'', ''memory''}. ResourceAdjustments (rs_prom s') (pod_Namespace pod, pod_Name pod, rr_ContainerName rec, res)
            = Suc (ResourceAdjustments (rs_prom s) (pod_Namespace pod, pod_Name pod, rr_ContainerName rec, res)))"
proof -
  have m: "(case sp_UpdatePolicy (pa_Spec pa) of Some p \<Rightarrow> up_UpdateMode p | None \<Rightarrow> ModeAuto) = ''Off''"
    using assms(1) by (simp add: update_mode_def)
  have "call (ApplyRecommendation (rc_Client r) (rc_ops r) pod rec ''Off'') s = ((Inr ''off'', pod), s)"
    by (simp add: call_def ApplyRecommendation_def)
  then show ?thesis
    using assms(2) unfolding applyRecommendation_def m
    by (auto simp: Let_def Eventf_def count_def inc_adjustments_def adjusted_event_def)
qed

theorem Off_counts_as_adjustment_witness:
  "\<exists>adj pod s'. applyRecommendation (sample_reconciler (sample_pa ''Off'' False) [] [] []) (sample_pa ''Off'' False) sample_pod
       sample_rec ''podfather'' (start 0) = ((adj, pod), s') \<and> adj = 1 \<and> pod = sample_pod"
proof -
  obtain adj pod s' where e: "applyRecommendation (sample_reconciler (sample_pa ''Off'' False) [] [] []) (sample_pa ''Off'' False) sample_pod
       sample_rec ''podfather'' (start 0) = ((adj, pod), s')" by (metis surj_pair)
  have "update_mode (sample_pa ''Off'' False) = ''Off''" by (simp add: update_mode_def sample_pa_def sample_spec_def)
  from Off_counts_as_adjustment[OF this e] e show ?thesis by blast
qed

end
