(* ===== verification/ReconcileInv.thy ===== *)
theory ReconcileInv
  imports ReconcileProps
begin

text \<open>
  A contract for invariants of the outside world under whole reconciliations, in three parts that
  extend one another: what the calls must keep that read, that write the object and that write pods,
  given what the program knows of what it sends.  In return a reconciliation keeps the invariant.
\<close>

lemma foldl_inv:
  assumes "\<And>a x. J a \<Longrightarrow> J (step a x)" and "J a"
  shows "J (foldl step a xs)"
  using assms(2) by (induction xs arbitrary: a) (simp_all add: assms(1))

lemma foldl_inv_on:
  assumes "\<And>a x. x \<in> set xs \<Longrightarrow> J a \<Longrightarrow> J (step a x)" and "J a"
  shows "J (foldl step a xs)"
  using assms by (induction xs arbitrary: a) auto

abbreviation running :: "'q Pod \<Rightarrow> bool" where
  "running p \<equiv> pod_Phase p = PodRunning \<and> \<not> pod_Deleting p"

text \<open>The part about the calls that read.\<close>

locale read_inv =
  fixes r :: "('w, 's, 't, 'q) reconciler" and I :: "'w \<Rightarrow> bool"
  assumes reads:
      "I w \<Longrightarrow> I (snd (GetPodAutoscaler (rc_Client r) ns n w))"
      "I w \<Longrightarrow> I (snd (GetPodMetricsObject (rc_Client r) ns n w))"
      "I w \<Longrightarrow> I (snd (ListLimitRanges (rc_Client r) ns w))"
      "I w \<Longrightarrow> I (snd (ListResourceQuotas (rc_Client r) ns w))"
      "I w \<Longrightarrow> I (snd (ListVPAsLimit (rc_Client r) m w))"
      "I w \<Longrightarrow> I (snd (ListVPAs (rc_Client r) ns w))"
      "I w \<Longrightarrow> I (snd (GetVPAObject (rc_Client r) ns n w))"
      "I w \<Longrightarrow> I (snd (Now (rc_Client r) w))"
begin

abbreviation Is :: "'w rstate \<Rightarrow> bool" where "Is s \<equiv> I (rs_world s)"

lemma world_simps [simp]:
  "rs_world (Eventf ty rsn msg s) = rs_world s" "rs_world (count f s) = rs_world s" "rs_world (observe_rec rec s) = rs_world s"
  by (simp_all add: Eventf_def count_def observe_rec_def)

definition keeps :: "('w \<Rightarrow> 'a \<times> 'w) \<Rightarrow> bool" where
  "keeps f \<longleftrightarrow> (\<forall>w. I w \<longrightarrow> I (snd (f w)))"

lemma keepsD: "keeps f \<Longrightarrow> f w = (x, w') \<Longrightarrow> I w \<Longrightarrow> I w'"
  unfolding keeps_def by (metis snd_conv)

lemma call_keeps: "keeps f \<Longrightarrow> call f s = (x, s') \<Longrightarrow> Is s \<Longrightarrow> Is s'"
  by (auto simp: call_def split: prod.splits dest: keepsD)

lemma callE:
  assumes "call f s = (x, s')"
  obtains w' where "f (rs_world s) = (x, w')" "s' = s\<lparr>rs_world := w'\<rparr>"
  using assms by (auto simp: call_def split: prod.splits)

lemma keeps_reads:
  "keeps (GetPodAutoscaler (rc_Client r) ns n)" "keeps (GetPodMetricsObject (rc_Client r) ns n)"
  "keeps (ListLimitRanges (rc_Client r) ns)" "keeps (ListResourceQuotas (rc_Client r) ns)"
  "keeps (ListVPAsLimit (rc_Client r) k)" "keeps (ListVPAs (rc_Client r) ns)" "keeps (GetVPAObject (rc_Client r) ns n)"
  "keeps (Now (rc_Client r))"
  by (simp_all add: keeps_def reads)

lemmas readsD = keeps_reads[THEN keepsD]

lemma keeps_derived:
  "keeps (GetPodMetrics (rc_Client r) ns name)"
  "keeps (GetNamespaceConstraints (rc_Client r) ops ns)"
  "keeps (IsVPAInstalled (rc_Client r))"
  "keeps (FindMatchingVPA (rc_Client r) ops u ns kind name)"
  "keeps (GetVPA (rc_Client r) ops u ns name)"
  by (auto simp: keeps_def GetPodMetrics_def GetNamespaceConstraints_def IsVPAInstalled_def FindMatchingVPA_def GetVPA_def Let_def
        split: prod.splits sum.splits if_splits dest: readsD)

lemmas call_reads_keep = keeps_reads[THEN call_keeps] keeps_derived[THEN call_keeps]

lemma setCondition_keeps: "setCondition r pa t v rsn msg s = (pa', s') \<Longrightarrow> Is s \<Longrightarrow> Is s' \<and> (\<exists>now. pa' = cond_upd now t v rsn msg pa)"
  by (auto simp: setCondition_def cond_upd_def split: prod.splits dest: call_reads_keep)

lemma lookup_keeps: "lookup_vpa r pa s = (v, s') \<Longrightarrow> Is s \<Longrightarrow> Is s'"
  by (auto simp: lookup_vpa_def Let_def split: prod.splits sum.splits if_splits option.splits dest: call_reads_keep)

lemma checkVPA_world: "checkVPAIntegration r pa s = ((res, pa'), s') \<Longrightarrow> Is s \<Longrightarrow> Is s'"
  by (auto simp: checkVPAIntegration_def Let_def split: prod.splits if_splits option.splits bool.splits
      dest!: setCondition_keeps lookup_keeps dest: call_reads_keep)

lemma fetch_keeps: "fetch_constraints r pa s = (nc, s') \<Longrightarrow> Is s \<Longrightarrow> Is s'"
  by (auto simp: fetch_constraints_def split: prod.splits option.splits if_splits dest: call_reads_keep)

end

text \<open>
  The part about the PodAutoscaler and its status: \<open>PA\<close> holds of the object at hand, \<open>Send\<close> of one whose
  status is complete.
\<close>

locale object_inv = read_inv r I for r :: "('w, 's, 't, 'q) reconciler" and I :: "'w \<Rightarrow> bool" +
  fixes PA Send :: "('s, 'q) PodAutoscaler \<Rightarrow> bool"
  assumes update: "I w \<Longrightarrow> PA pa \<Longrightarrow> UpdatePodAutoscaler (rc_Client r) (pa\<lparr>pa_Finalizers := fs\<rparr>) w = (x, w')
      \<Longrightarrow> I w' \<and> (\<forall>pa'. x = Inr pa' \<longrightarrow> PA pa')"
    and status: "I w \<Longrightarrow> Send pa \<Longrightarrow> I (snd (UpdateStatus (rc_Client r) pa w))"
    and PA_cond: "PA pa \<Longrightarrow> PA (cond_upd now ''VPAConflict'' ''False'' rsn msg pa)"
    and PA_fields: "PA pa \<Longrightarrow> PA (upd_status (st_MonitoredPods_update (\<lambda>_. k)) pa)"
      "PA pa \<Longrightarrow> PA (upd_status (st_VPAStatus_update (\<lambda>_. v)) pa)"
      "PA pa \<Longrightarrow> PA (upd_status (st_NamespaceConstraints_update (\<lambda>_. c)) pa)"
    and Send_error: "PA pa \<Longrightarrow> Send (upd_status (st_Phase_update (\<lambda>_. PhaseError)) (cond_upd now ''Ready'' ''False'' rsn msg pa))"
    and Send_pending: "PA pa \<Longrightarrow> Send (cond_upd now ''Ready'' ''False'' rsn msg (upd_status (st_Phase_update (\<lambda>_. PhasePending)) pa))"
    and Send_halt: "PA pa \<Longrightarrow> Send (cond_upd now ''VPAConflict'' ''True'' rsn msg (upd_status (st_Phase_update (\<lambda>_. PhaseDegraded)) pa))"
    and Send_active: "PA pa \<Longrightarrow> cy_metricsAvailable cy \<Longrightarrow>
      Send (cond_upd n2 ''MetricsAvailable'' ''True'' r2 m2 (cond_upd n1 ''Ready'' ''True'' r1 m1 (pa\<lparr>pa_Status := status_of_cycle now pa cy\<rparr>)))"
    and Send_degraded: "PA pa \<Longrightarrow> \<not> cy_metricsAvailable cy \<Longrightarrow>
      Send (cond_upd n1 ''MetricsAvailable'' ''False'' r1 m1 (pa\<lparr>pa_Status := status_of_cycle now pa cy\<rparr>))"
begin

lemma checkVPA_keeps:
  "checkVPAIntegration r pa s = ((res, pa'), s') \<Longrightarrow> Is s \<Longrightarrow> PA pa \<Longrightarrow> Is s' \<and> PA pa'"
  by (auto simp: checkVPAIntegration_def Let_def split: prod.splits if_splits option.splits bool.splits
      dest!: setCondition_keeps lookup_keeps intro!: PA_cond dest: call_reads_keep)

lemma update_keeps:
  assumes "call (UpdatePodAutoscaler (rc_Client r) (pa\<lparr>pa_Finalizers := fs\<rparr>)) s = (x, s')" "Is s" "PA pa"
  shows "Is s'" "x = Inr pa' \<Longrightarrow> PA pa'"
  using assms(1) update[OF assms(2,3)] by (auto elim!: callE)

lemma send_keeps: "Send pa \<Longrightarrow> call (UpdateStatus (rc_Client r) pa) s = (x, s') \<Longrightarrow> Is s \<Longrightarrow> Is s'"
  by (rule call_keeps[of "UpdateStatus (rc_Client r) pa"]) (simp_all add: keeps_def status)

lemma send_ignored_keeps: "Send pa \<Longrightarrow> status_update_ignored r pa s = (pa', s') \<Longrightarrow> Is s \<Longrightarrow> Is s'"
  by (auto simp: status_update_ignored_def split: prod.splits sum.splits dest: send_keeps)

lemma with_reasons_PA: "PA pa \<Longrightarrow> PA (with_reasons cy pa)"
  by (auto simp: with_reasons_def PA_fields split: option.split)

lemma finish_keeps:
  assumes "finish_cycle r pa v cy s = ((d, err), s')" "Is s" "PA pa"
  shows "Is s'"
proof -
  obtain s0 where s0: "report_reasons pa cy s = (with_reasons cy pa, s0)" "Is s0"
    using report_reasons_eq[of pa cy s] assms(2) by (cases "report_reasons pa cy s") auto
  obtain now s1 where n: "call (Now (rc_Client r)) s0 = (now, s1)" by (metis surj_pair)
  have i1: "Is s1" using call_reads_keep(8)[OF n s0(2)] .
  define p where "p = (with_reasons cy pa)\<lparr>pa_Status := status_of_cycle now (with_reasons cy pa) cy\<rparr>"
  show ?thesis
  proof (cases "cy_metricsAvailable cy")
    case True
    let ?m = "''Successfully evaluated all pods (source='' @ (if v then ''vpa'' else ''podfather'') @ '')''"
    obtain p2 s2 where c2: "setCondition r p ''Ready'' ConditionTrue ''Reconciled'' ?m s1 = (p2, s2)" by (metis surj_pair)
    obtain p3 s3 where c3: "setCondition r p2 ''MetricsAvailable'' ConditionTrue ''MetricsCollected'' ''Metrics API responsive'' s2 = (p3, s3)"
      by (metis surj_pair)
    obtain x s4 where u: "call (UpdateStatus (rc_Client r) p3) s3 = (x, s4)" by (metis surj_pair)
    have "s' = s4" using assms True by (simp add: finish_cycle_def s0 n c2[simplified] c3[simplified] u flip: p_def split: sum.splits)
    moreover have "Send p3"
      using setCondition_keeps[OF c2 i1] setCondition_keeps[OF c3] Send_active[OF with_reasons_PA[OF assms(3)] True] by (auto simp: p_def)
    moreover have "Is s3" using setCondition_keeps[OF c3] setCondition_keeps[OF c2 i1] by simp
    ultimately show ?thesis using send_keeps[OF _ u] by simp
  next
    case False
    obtain p2 s2 where c2: "setCondition r p ''MetricsAvailable'' ConditionFalse ''MetricsUnavailable''
        ''Failed to collect metrics for some pods'' s1 = (p2, s2)" by (metis surj_pair)
    obtain x s4 where u: "call (UpdateStatus (rc_Client r) p2) s2 = (x, s4)" by (metis surj_pair)
    have "s' = s4" using assms False by (simp add: finish_cycle_def s0 n c2[simplified] u flip: p_def split: sum.splits)
    moreover have "Send p2" "Is s2"
      using setCondition_keeps[OF c2 i1] Send_degraded[OF with_reasons_PA[OF assms(3)] False] by (auto simp: p_def)
    ultimately show ?thesis using send_keeps[OF _ u] by simp
  qed
qed

end

text \<open>The whole contract: \<open>Tgt\<close> holds of the namespace and name of a pod that may be written.\<close>

locale reconcile_inv = object_inv r I PA Send for r :: "('w, 's, 't, 'q) reconciler" and I :: "'w \<Rightarrow> bool"
    and PA Send :: "('s, 'q) PodAutoscaler \<Rightarrow> bool" +
  fixes Tgt :: "string \<Rightarrow> string \<Rightarrow> bool" and cleaning :: bool
  assumes list_run: "I w \<Longrightarrow> PA pa \<Longrightarrow> LabelSelectorAsSelector (rc_Client r) (sp_Selector (pa_Spec pa)) = Inr sel
      \<Longrightarrow> ListPods (rc_Client r) (pa_Namespace pa) sel w = (xl, w')
      \<Longrightarrow> I w' \<and> (\<forall>pods. xl = Inr pods \<longrightarrow> (\<forall>p\<in>set pods. cleaning \<or> running p \<longrightarrow> Tgt (pod_Namespace p) (pod_Name p)))"
    and patch: "I w \<Longrightarrow> Tgt (pod_Namespace p) (pod_Name p) \<Longrightarrow> pod_Namespace base = pod_Namespace p \<Longrightarrow> pod_Name base = pod_Name p
      \<Longrightarrow> PatchPod (rc_Client r) base p w = (xp, w')
      \<Longrightarrow> I w' \<and> (\<forall>p'. xp = Inr p' \<longrightarrow> Tgt (pod_Namespace p') (pod_Name p'))"
    and evict: "I w \<Longrightarrow> Tgt ns n \<Longrightarrow> I (snd (EvictPod (rc_Client r) ns n w))"
begin

abbreviation TP :: "'q Pod \<Rightarrow> bool" where "TP p \<equiv> Tgt (pod_Namespace p) (pod_Name p)"

section \<open>Applying\<close>

lemma applyInPlace_keeps:
  assumes "applyInPlace (rc_Client r) ops pod rec w = ((err, pod'), w')" "I w" "TP pod"
  shows "I w' \<and> TP pod'"
proof -
  obtain cs u where u: "update_container ops rec (pod_Containers pod) = (cs, u)" by (metis surj_pair)
  let ?p = "pod\<lparr>pod_Containers := cs\<rparr>"
  obtain x w1 where p: "PatchPod (rc_Client r) pod ?p w = (x, w1)" by (metis surj_pair)
  have t: "TP ?p" "pod_Namespace pod = pod_Namespace ?p" "pod_Name pod = pod_Name ?p" using assms(3) by simp_all
  have "I w1 \<and> (\<forall>p'. x = Inr p' \<longrightarrow> TP p')" by (rule patch[OF assms(2) t p])
  then show ?thesis
    using assms by (cases x) (auto simp: applyInPlace_def Let_def u p split: if_splits)
qed

lemma applyViaEviction_keeps:
  assumes "applyViaEviction (rc_Client r) pod rec w = ((err, pod'), w')" "I w" "TP pod"
  shows "I w' \<and> TP pod'"
proof (cases "marshal rec")
  case (Inl e)
  with assms show ?thesis by (simp add: applyViaEviction_def)
next
  case (Inr js)
  let ?p = "annotate last_recommendation js pod"
  obtain x w1 where p: "PatchPod (rc_Client r) pod ?p w = (x, w1)" by (metis surj_pair)
  have t: "TP ?p" "pod_Namespace pod = pod_Namespace ?p" "pod_Name pod = pod_Name ?p"
    using assms(3) by (simp_all add: annotate_def)
  from patch[OF assms(2) t p] have i: "I w1" "\<And>p'. x = Inr p' \<Longrightarrow> TP p'" by blast+
  show ?thesis
  proof (cases x)
    case (Inl e)
    with assms Inr p i show ?thesis by (auto simp: applyViaEviction_def annotate_def)
  next
    case x: (Inr p')
    then have t: "TP p'" using i(2) by simp
    obtain e w2 where ev: "EvictPod (rc_Client r) (pod_Namespace p') (pod_Name p') w1 = (e, w2)" by (metis surj_pair)
    have "I w2" using evict[OF i(1) t] by (simp add: ev)
    then show ?thesis using assms(1) Inr p x t ev by (cases e) (auto simp: applyViaEviction_def)
  qed
qed

lemma Apply_keeps:
  assumes "ApplyRecommendation (rc_Client r) ops pod rec mode w = ((x, pod'), w')" "I w" "TP pod"
  shows "I w' \<and> TP pod'"
  using assms
  by (auto simp: ApplyRecommendation_def split: if_splits prod.splits option.splits
      dest: applyInPlace_keeps applyViaEviction_keeps)

lemma applyRecommendation_keeps:
  assumes "applyRecommendation r pa pod rec source s = ((adj, pod'), s')" "Is s" "TP pod"
  shows "Is s' \<and> TP pod'"
proof -
  let ?m = "case sp_UpdatePolicy (pa_Spec pa) of Some p \<Rightarrow> up_UpdateMode p | None \<Rightarrow> ModeAuto"
  obtain x p w where a: "ApplyRecommendation (rc_Client r) (rc_ops r) pod rec ?m (rs_world s) = ((x, p), w)" by (metis surj_pair)
  have "rs_world s' = w \<and> pod' = p"
    using assms(1) a by (auto simp: applyRecommendation_def call_def Let_def split: sum.splits)
  then show ?thesis using Apply_keeps[OF a assms(2,3)] by simp
qed

section \<open>Evaluating\<close>

definition eval_ok :: "'q eval \<times> 'w rstate \<Rightarrow> bool" where
  "eval_ok a \<longleftrightarrow> Is (snd a) \<and> TP (ea_pod (fst a))"

lemma vpa_step_keeps: "eval_ok a \<Longrightarrow> eval_ok (vpa_step r pa nc cst cfg a v)"
  by (cases a) (auto simp: eval_ok_def vpa_step_def Let_def split: prod.splits dest: applyRecommendation_keeps)

lemma metrics_step_keeps: "eval_ok a \<Longrightarrow> eval_ok (metrics_step r pa nc cst cfg allocs a cm)"
  by (cases a) (auto simp: eval_ok_def metrics_step_def Let_def split: prod.splits option.splits sum.splits
      dest: applyRecommendation_keeps)

lemma evaluateVPAPod_keeps:
  "evaluateVPAPod r pa recs nc cst cfg pod s = (ev, s') \<Longrightarrow> Is s \<Longrightarrow> TP pod \<Longrightarrow> Is s'"
  using foldl_inv[of eval_ok "vpa_step r pa nc cst cfg" "(eval_start pod, s)" recs, OF vpa_step_keeps]
  by (simp add: evaluateVPAPod_def eval_ok_def eval_start_def)

lemma evaluatePodMetrics_keeps:
  assumes "evaluatePodMetrics r pa nc cst cfg pod s = ((ev, ok), s')" "Is s" "TP pod"
  shows "Is s'"
proof -
  obtain x s1 where g: "call (GetPodMetrics (rc_Client r) (pod_Namespace pod) (pod_Name pod)) s = (x, s1)" by (metis surj_pair)
  have i: "Is s1" using call_reads_keep(9)[OF g assms(2)] .
  show ?thesis
  proof (cases x)
    case (Inl e)
    with assms g i show ?thesis by (auto simp: evaluatePodMetrics_def)
  next
    case (Inr pm)
    let ?step = "metrics_step r pa nc cst cfg (GetCurrentAllocations (rc_ops r) pod)"
    have "eval_ok (foldl ?step (eval_start pod, s1) pm)"
      by (rule foldl_inv[of eval_ok, OF metrics_step_keeps]) (use i assms(3) in \<open>simp_all add: eval_ok_def eval_start_def\<close>)
    then show ?thesis using assms(1) g Inr by (auto simp: evaluatePodMetrics_def eval_ok_def Let_def split: prod.splits)
  qed
qed

lemma cycle_step_keeps:
  "TP pod \<Longrightarrow> Is (snd a) \<Longrightarrow> Is (snd (cycle_step r pa v recs nc cst cfg a pod))"
  by (cases a) (auto simp: cycle_step_def Let_def split: prod.splits dest: evaluateVPAPod_keeps evaluatePodMetrics_keeps)

lemma run_cycle_keeps:
  assumes "run_cycle r pa v recs nc pods s = (cy, s')" "Is s" "\<And>p. p \<in> set pods \<Longrightarrow> TP p"
  shows "Is s'"
proof -
  let ?cst = "ToCalculatorConstraints nc DefaultConstraints" and ?cfg = "buildCalculatorConfig pa"
  let ?init = "\<lparr>cy_recs = [], cy_adj = 0, cy_metricsAvailable = True, cy_reasons = []\<rparr>"
  obtain t1 s1 where n1: "call (Now (rc_Client r)) s = (t1, s1)" by (metis surj_pair)
  obtain c2 s2 where f: "foldl (cycle_step r pa v recs nc ?cst ?cfg) (?init, s1) pods = (c2, s2)" by (metis surj_pair)
  obtain t3 s3 where n3: "call (Now (rc_Client r)) s2 = (t3, s3)" by (metis surj_pair)
  have "Is s1" using call_reads_keep(8)[OF n1 assms(2)] .
  then have "Is (snd (foldl (cycle_step r pa v recs nc ?cst ?cfg) (?init, s1) pods))"
    by (intro foldl_inv_on[where J = "\<lambda>a. Is (snd a)"]) (simp_all add: cycle_step_keeps assms(3))
  then have "Is s2" by (simp add: f)
  then have "Is s3" by (rule call_reads_keep(8)[OF n3])
  moreover have "rs_world s' = rs_world s3" using assms(1) by (auto simp: run_cycle_def Let_def n1 f n3)
  ultimately show ?thesis by simp
qed

section \<open>Whole reconciliations\<close>

lemma listing:
  assumes "call (ListPods (rc_Client r) (pa_Namespace pa) sel) s = (x, s')" "Is s" "PA pa"
    "LabelSelectorAsSelector (rc_Client r) (sp_Selector (pa_Spec pa)) = Inr sel"
  shows "Is s'" "x = Inr pods \<Longrightarrow> p \<in> set pods \<Longrightarrow> cleaning \<or> running p \<Longrightarrow> TP p"
proof -
  obtain w' where w: "ListPods (rc_Client r) (pa_Namespace pa) sel (rs_world s) = (x, w')" "s' = s\<lparr>rs_world := w'\<rparr>"
    using assms(1) by (rule callE)
  note l = list_run[OF assms(2,3,4) w(1)]
  then show "Is s'" by (simp add: w(2))
  show "TP p" if "x = Inr pods" "p \<in> set pods" "cleaning \<or> running p" using l that by blast
qed

lemma cleanup_pod_keeps:
  assumes "TP pod" "Is s"
  shows "Is (cleanup_pod r s pod)"
proof (cases "pod_Annotations pod")
  case (Some m)
  let ?p = "pod\<lparr>pod_Annotations := Some (m(last_recommendation := None))\<rparr>"
  obtain x w where p: "PatchPod (rc_Client r) pod ?p (rs_world s) = (x, w)" by (metis surj_pair)
  have t: "TP ?p" "pod_Namespace pod = pod_Namespace ?p" "pod_Name pod = pod_Name ?p" using assms(1) by simp_all
  have "I w" using patch[OF assms(2) t p] by simp
  then show ?thesis using assms(2) by (simp add: cleanup_pod_def Some call_def p)
qed (simp add: cleanup_pod_def assms)

lemma cleanup_keeps:
  assumes "PA pa" "cleaning" "Is s"
  shows "Is (cleanupManagedPods r pa s)"
proof (cases "LabelSelectorAsSelector (rc_Client r) (sp_Selector (pa_Spec pa))")
  case (Inr sel)
  obtain x s1 where l: "call (ListPods (rc_Client r) (pa_Namespace pa) sel) s = (x, s1)" by (metis surj_pair)
  note k = listing[OF l assms(3,1) Inr]
  show ?thesis
  proof (cases x)
    case (Inl e)
    then show ?thesis using Inr l k(1) by (simp add: cleanupManagedPods_def)
  next
    case x: (Inr pods)
    have "Is (foldl (cleanup_pod r) s1 pods)"
      by (rule foldl_inv_on[where J = Is]) (simp_all add: cleanup_pod_keeps k(1) k(2)[OF x] assms(2))
    then show ?thesis using Inr l x by (simp add: cleanupManagedPods_def)
  qed
qed (simp add: cleanupManagedPods_def assms(3))

lemma handleFinalizer_keeps:
  assumes "handleFinalizer r pa s = (((stop, err), pa'), s')" "Is s" "PA pa" "pa_Deleting pa \<Longrightarrow> cleaning"
  shows "Is s'" "\<not> stop \<Longrightarrow> PA pa'"
  using assms(1) cleanup_keeps[OF assms(3) assms(4) assms(2)] assms(2,3)
  by (auto simp: handleFinalizer_def Let_def split: prod.splits sum.splits if_splits dest: update_keeps)

lemma discover_keeps:
  assumes "discoverRunningPods r pa s = ((x, pa'), s')" "Is s" "PA pa"
  shows "Is s'" "x = Inr pods \<Longrightarrow> pa' = pa \<and> (\<forall>p\<in>set pods. TP p)"
proof -
  have "Is s' \<and> (\<forall>pods. x = Inr pods \<longrightarrow> pa' = pa \<and> (\<forall>p\<in>set pods. TP p))"
  proof (cases "LabelSelectorAsSelector (rc_Client r) (sp_Selector (pa_Spec pa))")
    case (Inl err)
    obtain p2 s2 where c: "setCondition r pa ''Ready'' ConditionFalse ''InvalidSelector'' (err_text err) s = (p2, s2)" by (metis surj_pair)
    obtain p3 s3 where u: "status_update_ignored r (upd_status (st_Phase_update (\<lambda>_. PhaseError)) p2) s2 = (p3, s3)" by (metis surj_pair)
    note k = setCondition_keeps[OF c assms(2)]
    then have "Send (upd_status (st_Phase_update (\<lambda>_. PhaseError)) p2)" using Send_error[OF assms(3)] by auto
    then have "Is s3" using send_ignored_keeps[OF _ u] k by simp
    then show ?thesis using assms(1) Inl c u by (auto simp: discoverRunningPods_def Let_def)
  next
    case (Inr sel)
    obtain y s1 where l: "call (ListPods (rc_Client r) (pa_Namespace pa) sel) s = (y, s1)" by (metis surj_pair)
    note k = listing[OF l assms(2,3) Inr]
    show ?thesis using assms(1) Inr l k(1) k(2)
      by (cases y) (auto simp: discoverRunningPods_def filterRunningPods_def)
  qed
  then show "Is s'" "x = Inr pods \<Longrightarrow> pa' = pa \<and> (\<forall>p\<in>set pods. TP p)" by simp_all
qed

lemma reconcile_pods_keeps:
  assumes e: "reconcile_pods r pa pods s = (res, s')" and "Is s" "PA pa" and pods: "\<And>p. p \<in> set pods \<Longrightarrow> TP p"
  shows "Is s'"
proof -
  obtain vres pa1 s1 where c: "checkVPAIntegration r pa s = ((vres, pa1), s1)" by (metis surj_pair)
  note k1 = checkVPA_keeps[OF c assms(2,3)]
  let ?p = "upd_status (st_VPAStatus_update (\<lambda>_. vc_status vres)) pa1"
  have p: "PA ?p" using k1 PA_fields(2) by blast
  show ?thesis
  proof (cases "shouldHaltForVPAConflict ?p vres")
    case True
    define q where "q = upd_status (st_Phase_update (\<lambda>_. PhaseDegraded)) ?p"
    define m where "m = (case vc_status vres of Some st \<Rightarrow> vs_VPAConflict st | None \<Rightarrow> [])"
    obtain p2 s2 where c2: "setCondition r q ''VPAConflict'' ConditionTrue ''VPAConflict'' m s1 = (p2, s2)" by (metis surj_pair)
    obtain p3 s3 where u: "status_update_ignored r p2 s2 = (p3, s3)" by (metis surj_pair)
    have "reconcile_pods r pa pods s = ((requeueInterval p3, None), Eventf EventTypeWarning ''VPAConflict'' m s3)"
      by (simp only: reconcile_pods_def c Let_def prod.case True if_True c2[unfolded q_def m_def] u m_def)
    then have "rs_world s' = rs_world s3" using e by simp
    moreover have "Send p2" "Is s2" using setCondition_keeps[OF c2] k1 Send_halt[OF p] by (auto simp: q_def)
    ultimately show ?thesis using send_ignored_keeps[OF _ u] by simp
  next
    case False
    obtain nc s2 where f: "fetch_constraints r ?p s1 = (nc, s2)" by (metis surj_pair)
    let ?q = "cycle_object (rc_ops r) vres nc pa1"
    obtain cy s3 where run: "run_cycle r ?q (uses_vpa vres) (vc_recommendations vres) nc pods s2 = (cy, s3)" by (metis surj_pair)
    obtain d err where res: "res = (d, err)" by (cases res)
    have fin: "finish_cycle r ?q (uses_vpa vres) cy s3 = ((d, err), s')"
      using e by (simp only: reconcile_pods_def c Let_def prod.case False if_False f res run flip: cycle_object_def uses_vpa_def)
    have "PA ?q" unfolding cycle_object_def by (rule PA_fields(3)[OF p])
    moreover have "Is s3" using run_cycle_keeps[OF run fetch_keeps[OF f] pods] k1 by blast
    ultimately show ?thesis using finish_keeps[OF fin] by simp
  qed
qed

theorem Reconcile_keeps:
  assumes e: "Reconcile r ns name s = (res, s')" and "Is s"
    and got: "\<And>pa w. GetPodAutoscaler (rc_Client r) ns name (rs_world s) = (Inr pa, w) \<Longrightarrow> PA pa \<and> (pa_Deleting pa \<longrightarrow> cleaning)"
  shows "Is s'"
proof -
  obtain x s1 where g: "call (GetPodAutoscaler (rc_Client r) ns name) s = (x, s1)" by (metis surj_pair)
  have i1: "Is s1" using call_reads_keep(1)[OF g assms(2)] .
  show ?thesis
  proof (cases x)
    case (Inl e)
    then show ?thesis using assms(1) g i1 by (auto simp: Reconcile_def split: if_splits)
  next
    case (Inr pa)
    have pa: "PA pa" "pa_Deleting pa \<Longrightarrow> cleaning" using got g Inr by (auto elim!: callE)
    obtain stop fErr pa2 s2 where f: "handleFinalizer r pa s1 = (((stop, fErr), pa2), s2)" by (metis surj_pair)
    have k2: "Is s2" "\<not> stop \<Longrightarrow> PA pa2" using handleFinalizer_keeps[OF f i1 pa] by blast+
    show ?thesis
    proof (cases stop)
      case True
      then show ?thesis using e g Inr f k2 by (simp add: Reconcile_def)
    next
      case False
      obtain y pa3 s3 where ds: "discoverRunningPods r pa2 s2 = ((y, pa3), s3)" by (metis surj_pair)
      note k3 = discover_keeps[OF ds k2(1) k2(2)[OF False]]
      show ?thesis
      proof (cases y)
        case (Inl err)
        then show ?thesis using e g Inr f False ds k3(1) by (simp add: Reconcile_def)
      next
        case y: (Inr pods)
        note p3 = k3(2)[OF y]
        define q where "q = upd_status (st_MonitoredPods_update (\<lambda>_. word_of_nat (length pods))) pa3"
        define s4 where "s4 = count (\<lambda>p. p\<lparr>PodsMonitored := lit (of_nat (length pods))\<rparr>) s3"
        have q: "PA q" "Is s4" using p3 PA_fields(1) k2(2)[OF False] k3(1) by (simp_all add: q_def s4_def)
        show ?thesis
        proof (cases "pods = []")
          case True
          define q2 where "q2 = upd_status (st_Phase_update (\<lambda>_. PhasePending)) q"
          obtain p5 s5 where c: "setCondition r q2 ''Ready'' ConditionFalse ''NoPodsFound'' ''No running pods match the selector'' s4 = (p5, s5)"
            by (metis surj_pair)
          obtain p6 s6 where u: "status_update_ignored r p5 s5 = (p6, s6)" by (metis surj_pair)
          have "s' = s6" using e g
            by (simp only: Reconcile_def f ds Inr False bool.case prod.case sum.case Let_def True if_True simp_thms y
                s4_def[symmetric, unfolded True] q2_def[symmetric, unfolded q_def True] c u prod.inject)
          moreover have "Send p5" "Is s5" using setCondition_keeps[OF c q(2)] Send_pending[OF q(1)] by (auto simp: q2_def)
          ultimately show ?thesis using send_ignored_keeps[OF _ u] by simp
        next
          case False2: False
          have "reconcile_pods r q pods s4 = (res, s')"
            using e g f ds Inr False False2 y by (simp add: Reconcile_def q_def s4_def)
          then show ?thesis using reconcile_pods_keeps[OF _ q(2,1)] p3 by blast
        qed
      qed
    qed
  qed
qed

end

end
