(* ===== verification/System.thy ===== *)
theory System
  imports ReconcileInv
begin

text \<open>
  The controller in its environment: a step relation whose steps are reconciliations of any object
  and actions of others, with what holds of the stored statuses in every reachable state.
\<close>

section \<open>Steps\<close>

inductive system_step ::
  "('w, 's, 't, 'q) reconciler \<Rightarrow> ('w \<Rightarrow> 'w \<Rightarrow> bool) \<Rightarrow> 'w rstate \<Rightarrow> 'w rstate \<Rightarrow> bool" for r env where
  reconciling: "Reconcile r ns name s = (res, s') \<Longrightarrow> system_step r env s s'"
| others: "env (rs_world s) w' \<Longrightarrow> system_step r env s (s\<lparr>rs_world := w'\<rparr>)"

inductive reachable ::
  "('w, 's, 't, 'q) reconciler \<Rightarrow> ('w \<Rightarrow> 'w \<Rightarrow> bool) \<Rightarrow> 'w rstate \<Rightarrow> 'w rstate \<Rightarrow> bool" for r env s0 where
  initial: "reachable r env s0 s0"
| step: "reachable r env s0 s \<Longrightarrow> system_step r env s s' \<Longrightarrow> reachable r env s0 s'"

inductive_cases system_stepE: "system_step r env s s'"

section \<open>Stored statuses\<close>

definition stored :: "('w, 's, 't, 'q) cluster \<Rightarrow> 'w \<Rightarrow> 'q PodAutoscalerStatus set" where
  "stored cl w = {st. \<exists>ns n pa. fst (GetPodAutoscaler cl ns n w) = Inr pa \<and> st = pa_Status pa}"

text \<open>
  The status is a subresource: only a status update writes it, and the answer to another update
  carries the stored one.
\<close>

definition status_subresource :: "('w, 's, 't, 'q) cluster \<Rightarrow> bool" where
  "status_subresource cl \<longleftrightarrow>
     (\<forall>w. (\<forall>ns n. stored cl (snd (GetPodAutoscaler cl ns n w)) \<subseteq> stored cl w)
        \<and> (\<forall>ns n. stored cl (snd (GetPodMetricsObject cl ns n w)) \<subseteq> stored cl w)
        \<and> (\<forall>ns. stored cl (snd (ListLimitRanges cl ns w)) \<subseteq> stored cl w)
        \<and> (\<forall>ns. stored cl (snd (ListResourceQuotas cl ns w)) \<subseteq> stored cl w)
        \<and> (\<forall>k. stored cl (snd (ListVPAsLimit cl k w)) \<subseteq> stored cl w)
        \<and> (\<forall>ns. stored cl (snd (ListVPAs cl ns w)) \<subseteq> stored cl w)
        \<and> (\<forall>ns n. stored cl (snd (GetVPAObject cl ns n w)) \<subseteq> stored cl w)
        \<and> (\<forall>ns sel. stored cl (snd (ListPods cl ns sel w)) \<subseteq> stored cl w)
        \<and> stored cl (snd (Now cl w)) \<subseteq> stored cl w
        \<and> (\<forall>base p. stored cl (snd (PatchPod cl base p w)) \<subseteq> stored cl w)
        \<and> (\<forall>ns n. stored cl (snd (EvictPod cl ns n w)) \<subseteq> stored cl w)
        \<and> (\<forall>pa. stored cl (snd (UpdatePodAutoscaler cl pa w)) \<subseteq> stored cl w)
        \<and> (\<forall>pa pa'. fst (UpdatePodAutoscaler cl pa w) = Inr pa' \<longrightarrow> pa_Status pa' \<in> stored cl w)
        \<and> (\<forall>pa. stored cl (snd (UpdateStatus cl pa w)) \<subseteq> insert (pa_Status pa) (stored cl w)))"

definition fresh :: "'q PodAutoscalerStatus \<Rightarrow> bool" where
  "fresh st \<longleftrightarrow> st_Phase st = [] \<and> st_Conditions st = []"

text \<open>Others create, change and delete objects, but write no statuses.\<close>

definition writes_no_status :: "('w, 's, 't, 'q) cluster \<Rightarrow> ('w \<Rightarrow> 'w \<Rightarrow> bool) \<Rightarrow> bool" where
  "writes_no_status cl env \<longleftrightarrow> (\<forall>w w'. env w w' \<longrightarrow> (\<forall>st\<in>stored cl w'. st \<in> stored cl w \<or> fresh st))"

section \<open>Coherent statuses\<close>

definition conditions_ok :: "Condition list \<Rightarrow> bool" where
  "conditions_ok cs \<longleftrightarrow> distinct (map cond_Type cs)
     \<and> (\<forall>c\<in>set cs. cond_Type c \<in> {''Ready'', ''MetricsAvailable'', ''VPAConflict''} \<and> cond_Status c \<in> {''True'', ''False''})"

definition status_ok :: "'q PodAutoscalerStatus \<Rightarrow> bool" where
  "status_ok st \<longleftrightarrow> conditions_ok (st_Conditions st)
     \<and> st_Phase st \<in> {[], ''Pending'', ''Active'', ''Degraded'', ''Error''}
     \<and> (st_Phase st = ''Active'' \<longrightarrow> holds ''Ready'' ''True'' st \<and> holds ''MetricsAvailable'' ''True'' st)
     \<and> (st_Phase st = ''Pending'' \<or> st_Phase st = ''Error'' \<longrightarrow> holds ''Ready'' ''False'' st)
     \<and> (st_Phase st = ''Degraded'' \<longrightarrow> holds ''MetricsAvailable'' ''False'' st \<or> holds ''VPAConflict'' ''True'' st)"

lemma set_cond_members:
  "\<forall>c\<in>set (set_cond now t v rsn msg cs). c \<in> set cs \<or> cond_Type c = t \<and> cond_Status c = v"
  by (induction cs) auto

lemma set_cond_ok:
  "conditions_ok cs \<Longrightarrow> t \<in> {''Ready'', ''MetricsAvailable'', ''VPAConflict''} \<Longrightarrow> v \<in> {''True'', ''False''}
   \<Longrightarrow> conditions_ok (set_cond now t v rsn msg cs)"
  using set_cond_distinct[of cs now t v rsn msg] set_cond_members[of now t v rsn msg cs]
  unfolding conditions_ok_def by blast

lemma fresh_ok: "fresh st \<Longrightarrow> status_ok st"
  by (simp add: fresh_def status_ok_def conditions_ok_def)

lemma subresourceD:
  assumes "status_subresource cl"
  shows "stored cl (snd (GetPodAutoscaler cl ns n w)) \<subseteq> stored cl w"
    and "stored cl (snd (GetPodMetricsObject cl ns n w)) \<subseteq> stored cl w"
    and "stored cl (snd (ListLimitRanges cl ns w)) \<subseteq> stored cl w"
    and "stored cl (snd (ListResourceQuotas cl ns w)) \<subseteq> stored cl w"
    and "stored cl (snd (ListVPAsLimit cl k w)) \<subseteq> stored cl w"
    and "stored cl (snd (ListVPAs cl ns w)) \<subseteq> stored cl w"
    and "stored cl (snd (GetVPAObject cl ns n w)) \<subseteq> stored cl w"
    and "stored cl (snd (Now cl w)) \<subseteq> stored cl w"
    and "stored cl (snd (ListPods cl ns sel w)) \<subseteq> stored cl w"
    and "stored cl (snd (PatchPod cl base p w)) \<subseteq> stored cl w"
    and "stored cl (snd (EvictPod cl ns n w)) \<subseteq> stored cl w"
    and "stored cl (snd (UpdatePodAutoscaler cl pa w)) \<subseteq> stored cl w"
    and "fst (UpdatePodAutoscaler cl pa w) = Inr pa' \<Longrightarrow> pa_Status pa' \<in> stored cl w"
    and "stored cl (snd (UpdateStatus cl pa w)) \<subseteq> insert (pa_Status pa) (stored cl w)"
  using assms[unfolded status_subresource_def, THEN spec, of w] by simp_all

definition statuses_ok :: "('w, 's, 't, 'q) cluster \<Rightarrow> 'w \<Rightarrow> bool" where
  "statuses_ok cl w \<longleftrightarrow> (\<forall>st\<in>stored cl w. status_ok st)"

lemma statuses_mono: "statuses_ok cl w \<Longrightarrow> stored cl w' \<subseteq> stored cl w \<Longrightarrow> statuses_ok cl w'"
  by (auto simp: statuses_ok_def)

lemma statuses_send: "statuses_ok cl w \<Longrightarrow> status_ok st \<Longrightarrow> stored cl w' \<subseteq> insert st (stored cl w) \<Longrightarrow> statuses_ok cl w'"
  by (auto simp: statuses_ok_def)

lemma statuses_conditions: "statuses_ok cl w \<Longrightarrow> st \<in> stored cl w \<Longrightarrow> conditions_ok (st_Conditions st)"
  by (simp add: statuses_ok_def status_ok_def)

lemma status_inv:
  assumes "status_subresource (rc_Client r)"
  shows "reconcile_inv r (statuses_ok (rc_Client r)) (\<lambda>pa. conditions_ok (st_Conditions (pa_Status pa)))
    (\<lambda>pa. status_ok (pa_Status pa)) (\<lambda>ns n. True) True"
proof -
  note D = subresourceD[OF assms]
  show ?thesis
  proof (unfold_locales, goal_cases)
    case (1 w ns n)
    then show ?case using D(1)[of ns n w] by (rule statuses_mono)
  next
    case (2 w ns n)
    then show ?case using D(2)[of ns n w] by (rule statuses_mono)
  next
    case (3 w ns)
    then show ?case using D(3)[of ns w] by (rule statuses_mono)
  next
    case (4 w ns)
    then show ?case using D(4)[of ns w] by (rule statuses_mono)
  next
    case (5 w m)
    then show ?case using D(5)[of m w] by (rule statuses_mono)
  next
    case (6 w ns)
    then show ?case using D(6)[of ns w] by (rule statuses_mono)
  next
    case (7 w ns n)
    then show ?case using D(7)[of ns n w] by (rule statuses_mono)
  next
    case (8 w)
    then show ?case using D(8)[of w] by (rule statuses_mono)
  next
    case (9 w pa fs x w')
    let ?p = "pa\<lparr>pa_Finalizers := fs\<rparr>"
    have "stored (rc_Client r) w' \<subseteq> stored (rc_Client r) w" using D(12)[of ?p w] by (simp add: 9(3))
    then have "statuses_ok (rc_Client r) w'" by (rule statuses_mono[OF 9(1)])
    moreover have "conditions_ok (st_Conditions (pa_Status pa'))" if "x = Inr pa'" for pa'
      using D(13)[of ?p w pa'] 9(3) that by (intro statuses_conditions[OF 9(1)]) simp
    ultimately show ?case by blast
  next
    case (10 w pa)
    then show ?case using D(14)[of pa w] by (rule statuses_send)
  next
    case (20 w pa sel x w')
    have "stored (rc_Client r) w' \<subseteq> stored (rc_Client r) w" using D(9)[of "pa_Namespace pa" sel w] by (simp add: 20(4))
    then show ?case using statuses_mono[OF 20(1)] by simp
  next
    case (21 w p base x w')
    have "stored (rc_Client r) w' \<subseteq> stored (rc_Client r) w" using D(10)[of base p w] by (simp add: 21(5))
    then show ?case using statuses_mono[OF 21(1)] by simp
  next
    case (22 w ns n)
    then show ?case using statuses_mono[OF 22(1) D(11)] by simp
  qed (simp_all add: cond_upd_def status_of_cycle_def Let_def status_ok_def set_cond_ok)
qed

section \<open>A server that stores\<close>

text \<open>
  A server with one PodAutoscaler: an update keeps the stored status and a status update keeps
  everything else, as the API server does for a status subresource.
\<close>

definition store_cluster :: "int Pod list \<Rightarrow> ((string, int) PodAutoscaler \<times> nat, string, string, int) cluster" where
  "store_cluster pods =
     \<lparr>GetPodAutoscaler = (\<lambda>ns name w. (Inr (fst w), w)),
      UpdatePodAutoscaler = (\<lambda>p w. let q = p\<lparr>pa_Status := pa_Status (fst w)\<rparr> in (Inr q, (q, Suc (snd w)))),
      UpdateStatus = (\<lambda>p w. let q = (fst w)\<lparr>pa_Status := pa_Status p\<rparr> in (Inr q, (q, Suc (snd w)))),
      ListPods = (\<lambda>ns sel w. (Inr pods, w)),
      PatchPod = (\<lambda>base p w. (Inr p, (fst w, Suc (snd w)))),
      EvictPod = (\<lambda>ns name w. (None, (fst w, Suc (snd w)))),
      GetPodMetricsObject = (\<lambda>ns name w. (Inr [], w)),
      ListLimitRanges = (\<lambda>ns w. (Inr [], w)), ListResourceQuotas = (\<lambda>ns w. (Inr [], w)),
      ListVPAsLimit = (\<lambda>n w. (Inr [], w)), ListVPAs = (\<lambda>ns w. (Inr [], w)),
      GetVPAObject = (\<lambda>ns name w. (Inl \<lparr>ae_text = ''not found'', ae_not_found = True\<rparr>, w)),
      Now = (\<lambda>w. (int (snd w), w)),
      LabelSelectorAsSelector = Inr,
      ContainsFinalizer = (\<lambda>fs f. f \<in> set fs), AddFinalizer = (\<lambda>fs f. if f \<in> set fs then fs else fs @ [f]),
      RemoveFinalizer = (\<lambda>fs f. removeAll f fs)\<rparr>"

definition store_reconciler :: "int Pod list \<Rightarrow> ((string, int) PodAutoscaler \<times> nat, string, string, int) reconciler" where
  "store_reconciler pods =
     \<lparr>rc_Client = store_cluster pods, rc_ops = milli_ops, rc_uops = plain_unstructured, rc_VPAClient = True, rc_NamespaceLimitsFetcher = True\<rparr>"

lemma store_stored: "stored (store_cluster pods) w = {pa_Status (fst w)}"
  by (auto simp: stored_def store_cluster_def)

lemma store_subresource: "status_subresource (rc_Client (store_reconciler pods))"
  by (simp add: status_subresource_def store_reconciler_def store_stored) (simp add: store_cluster_def Let_def)

interpretation store_inv: reconcile_inv "store_reconciler pods" "statuses_ok (rc_Client (store_reconciler pods))"
    "\<lambda>pa. conditions_ok (st_Conditions (pa_Status pa))" "\<lambda>pa. status_ok (pa_Status pa)" "\<lambda>ns n. True" True for pods
  by (rule status_inv[OF store_subresource])

section \<open>Reachable states\<close>

lemma step_statuses:
  assumes "status_subresource (rc_Client r)" "writes_no_status (rc_Client r) env"
    and "system_step r env s s'" "statuses_ok (rc_Client r) (rs_world s)"
  shows "statuses_ok (rc_Client r) (rs_world s')"
  using assms(3)
proof (rule system_stepE)
  fix ns name res assume e: "Reconcile r ns name s = (res, s')"
  show ?thesis
  proof (rule reconcile_inv.Reconcile_keeps[OF status_inv[OF assms(1)] e assms(4)])
    fix pa w assume "GetPodAutoscaler (rc_Client r) ns name (rs_world s) = (Inr pa, w)"
    then have "pa_Status pa \<in> stored (rc_Client r) (rs_world s)" unfolding stored_def by (metis (mono_tags, lifting) fst_conv mem_Collect_eq)
    then show "conditions_ok (st_Conditions (pa_Status pa)) \<and> (pa_Deleting pa \<longrightarrow> True)"
      using statuses_conditions[OF assms(4)] by simp
  qed
next
  fix w' assume "s' = s\<lparr>rs_world := w'\<rparr>" "env (rs_world s) w'"
  then show ?thesis using assms(2,4) fresh_ok unfolding writes_no_status_def statuses_ok_def by fastforce
qed

text \<open>
  C2. In every state that reconciliations of any objects, interleaved with anything others do short
  of writing a status, can reach from one without statuses, every stored status is coherent:
  its phase is one of the four (or still empty), condition types are distinct and known, condition
  values are True or False; Active comes with Ready and MetricsAvailable, Pending and Error with
  Ready False, Degraded with missing metrics or a VPA conflict.
\<close>

theorem stored_statuses_coherent:
  assumes "status_subresource (rc_Client r)" and "writes_no_status (rc_Client r) env"
    and "\<forall>st\<in>stored (rc_Client r) (rs_world s0). fresh st"
    and "reachable r env s0 s" and "st \<in> stored (rc_Client r) (rs_world s)"
  shows "status_ok st"
proof -
  from assms(4) have "statuses_ok (rc_Client r) (rs_world s)"
  proof (induction rule: reachable.induct)
    case initial
    then show ?case using assms(3) fresh_ok by (auto simp: statuses_ok_def)
  next
    case (step s s')
    then show ?case using step_statuses[OF assms(1,2)] by blast
  qed
  then show ?thesis using assms(5) by (simp add: statuses_ok_def)
qed

text \<open>Reconciling an object that selects no pods, twice with the object's finalizer edited in between.\<close>

theorem stored_statuses_coherent_witness:
  "\<exists>s. reachable (store_reconciler []) (\<lambda>w w'. \<exists>fs. w' = (fst w\<lparr>pa_Finalizers := fs\<rparr>, snd w)) (start (sample_pa ''Auto'' False, 0)) s
     \<and> st_Phase (pa_Status (fst (rs_world s))) = ''Pending'' \<and> holds ''Ready'' ''False'' (pa_Status (fst (rs_world s)))"
proof -
  let ?r = "store_reconciler []" and ?s0 = "start (sample_pa ''Auto'' False, 0)"
  let ?env = "\<lambda>w w'. \<exists>fs. w' = (fst w\<lparr>pa_Finalizers := fs\<rparr>, snd w)"
  obtain res s1 where e: "Reconcile ?r ''prod'' ''web'' ?s0 = (res, s1)" by (metis surj_pair)
  have p: "st_Phase (pa_Status (fst (rs_world s1))) = ''Pending''"
    using e by (auto simp: Reconcile_def handleFinalizer_def discoverRunningPods_def status_update_ignored_def setCondition_def call_def
        store_reconciler_def store_cluster_def start_def sample_pa_def sample_spec_def empty_status_def count_def filterRunningPods_def Let_def)
  have "reachable ?r ?env ?s0 s1" using reachable.step[OF reachable.initial system_step.reconciling[OF e]] .
  then have r: "reachable ?r ?env ?s0 (s1\<lparr>rs_world := (fst (rs_world s1)\<lparr>pa_Finalizers := []\<rparr>, snd (rs_world s1))\<rparr>)"
    by (rule reachable.step) (rule system_step.others, blast)
  let ?st = "pa_Status (fst (rs_world s1))"
  have "status_ok ?st"
  proof (rule stored_statuses_coherent[OF store_subresource _ _ r])
    show "writes_no_status (rc_Client ?r) ?env"
      by (auto simp: writes_no_status_def store_reconciler_def store_stored)
    show "\<forall>st\<in>stored (rc_Client ?r) (rs_world ?s0). fresh st"
      by (simp add: store_reconciler_def store_stored start_def sample_pa_def empty_status_def fresh_def)
    show "?st \<in> stored (rc_Client ?r) (rs_world (s1\<lparr>rs_world := (fst (rs_world s1)\<lparr>pa_Finalizers := []\<rparr>, snd (rs_world s1))\<rparr>))"
      by (simp add: store_reconciler_def store_stored)
  qed
  then have "holds ''Ready'' ''False'' ?st" using p by (simp add: status_ok_def)
  then show ?thesis using r p by (intro exI[of _ "s1\<lparr>rs_world := (fst (rs_world s1)\<lparr>pa_Finalizers := []\<rparr>, snd (rs_world s1))\<rparr>"]) simp
qed

section \<open>Only selected pods\<close>

text \<open>An answer to an update or a patch is the object or the pod that was sent.\<close>

definition keeps_identity :: "('w, 's, 't, 'q) cluster \<Rightarrow> bool" where
  "keeps_identity cl \<longleftrightarrow>
     (\<forall>pa w pa' w'. UpdatePodAutoscaler cl pa w = (Inr pa', w') \<longrightarrow> pa_Spec pa' = pa_Spec pa \<and> pa_Namespace pa' = pa_Namespace pa)
   \<and> (\<forall>base p w p' w'. PatchPod cl base p w = (Inr p', w') \<longrightarrow> pod_Namespace p' = pod_Namespace p \<and> pod_Name p' = pod_Name p)"

text \<open>
  \<open>S\<close> holds of the pods that the PodAutoscaler's selector lists in its namespace, at any time: of all of them
  with the flag set, else of the running ones.
\<close>

definition selects :: "('w, 's, 't, 'q) cluster \<Rightarrow> bool \<Rightarrow> string \<Rightarrow> 's \<Rightarrow> (string \<Rightarrow> string \<Rightarrow> bool) \<Rightarrow> bool" where
  "selects cl every ns selector S \<longleftrightarrow>
     (\<forall>sel w pods w' p. LabelSelectorAsSelector cl selector = Inr sel \<longrightarrow> ListPods cl ns sel w = (Inr pods, w') \<longrightarrow> p \<in> set pods
        \<longrightarrow> every \<or> running p \<longrightarrow> S (pod_Namespace p) (pod_Name p))"

fun on_target :: "(string \<Rightarrow> string \<Rightarrow> bool) \<Rightarrow> ('s, 'q) call \<Rightarrow> bool" where
  "on_target S (PatchCall base p) \<longleftrightarrow> S (pod_Namespace p) (pod_Name p) \<and> pod_Namespace base = pod_Namespace p \<and> pod_Name base = pod_Name p"
| "on_target S (EvictCall ns n) \<longleftrightarrow> S ns n"
| "on_target S (UpdateCall pa) \<longleftrightarrow> True"
| "on_target S (StatusCall pa) \<longleftrightarrow> True"

lemmas traced_quiet = traced_reads[OF prod.collapse[symmetric]]
lemmas traced_noted = traced_writes[OF prod.collapse[symmetric]]

lemma grows_more: "grows P tr0 a \<Longrightarrow> P c \<Longrightarrow> grows P tr0 (a @ [c])"
  by (auto simp: grows_def)

lemma answers:
  "UpdatePodAutoscaler (traced cl) pa w = (Inr pa', w') \<Longrightarrow> \<exists>w1. UpdatePodAutoscaler cl pa (fst w) = (Inr pa', w1)"
  "ListPods (traced cl) ns sel w = (Inr pods, w') \<Longrightarrow> \<exists>w1. ListPods cl ns sel (fst w) = (Inr pods, w1)"
  "PatchPod (traced cl) base p w = (Inr p', w') \<Longrightarrow> \<exists>w1. PatchPod cl base p (fst w) = (Inr p', w1)"
  by (auto simp: traced_def logged_def untraced_def split: prod.splits)

lemma selection_inv:
  assumes k: "keeps_identity (rc_Client r)" and s: "selects (rc_Client r) every ns0 (sp_Selector sp0) S"
  shows "reconcile_inv (traced_rec r) (\<lambda>w. grows (on_target S) tr0 (snd w)) (\<lambda>pa. pa_Namespace pa = ns0 \<and> pa_Spec pa = sp0)
    (\<lambda>pa. True) S every"
proof (unfold_locales, goal_cases)
  case (9 w pa fs x w')
  have "pa_Namespace pa' = ns0 \<and> pa_Spec pa' = sp0" if "x = Inr pa'" for pa'
    using answers(1)[of "rc_Client r" "pa\<lparr>pa_Finalizers := fs\<rparr>" w pa' w'] 9 that k unfolding keeps_identity_def by fastforce
  moreover have "snd w' = snd w @ [UpdateCall (pa\<lparr>pa_Finalizers := fs\<rparr>)]" using 9(3) by (simp add: traced_writes(1))
  ultimately show ?case using 9(1) by (simp add: grows_more)
next
  case (10 w pa)
  have "snd (snd (UpdateStatus (traced (rc_Client r)) pa w)) = snd w @ [StatusCall pa]" by (rule traced_noted(2))
  then show ?case using 10(1) by (simp add: grows_more)
next
  case (18 w pa sel x w')
  have "S (pod_Namespace p) (pod_Name p)" if "x = Inr pods" "p \<in> set pods" "every \<or> running p" for pods p
    using answers(2)[of "rc_Client r" ns0 sel w pods w'] 18 that s unfolding selects_def by fastforce
  moreover have "snd w' = snd w" using 18(4) by (simp add: traced_reads(2))
  ultimately show ?case using 18(1) by auto
next
  case (19 w p base x w')
  have "S (pod_Namespace p') (pod_Name p')" if "x = Inr p'" for p'
    using answers(3)[of "rc_Client r" base p w p' w'] 19 that k unfolding keeps_identity_def by fastforce
  moreover have "snd w' = snd w @ [PatchCall base p]" using 19(5) by (simp add: traced_writes(3))
  ultimately show ?case using 19 by (simp add: grows_more)
next
  case (20 w ns n)
  have "snd (snd (EvictPod (traced (rc_Client r)) ns n w)) = snd w @ [EvictCall ns n]" by (rule traced_noted(4))
  then show ?case using 20 by (simp add: grows_more)
qed (simp_all add: traced_quiet cond_upd_def)

text \<open>
  C3. A reconciliation patches and evicts only pods that the object's selector lists in its own namespace, and
  patches each against its own base.  Of the listed pods it writes only to running ones, unless the object is
  being deleted, when the cleanup may reach all of them.  So whatever holds of the namespace and name
  of every such pod holds of every pod that is written to, if the server's answers keep the identity of what
  was sent.
\<close>

theorem Reconcile_touches_selected:
  assumes "GetPodAutoscaler (rc_Client r) ns name (fst (rs_world s)) = (Inr pa, w1)" and "keeps_identity (rc_Client r)"
    and "selects (rc_Client r) (pa_Deleting pa) (pa_Namespace pa) (sp_Selector (pa_Spec pa)) S"
    and "Reconcile (traced_rec r) ns name s = (res, s')"
  shows "\<exists>new. tr s' = tr s @ new \<and> (\<forall>c\<in>set new. on_target S c)"
proof -
  have "grows (on_target S) (tr s) (tr s')"
  proof (rule reconcile_inv.Reconcile_keeps[OF selection_inv[OF assms(2,3)] assms(4)])
    fix p w assume "GetPodAutoscaler (rc_Client (traced_rec r)) ns name (rs_world s) = (Inr p, w)"
    then have "p = pa" using assms(1) by (simp add: traced_def untraced_def)
    then show "(pa_Namespace p = pa_Namespace pa \<and> pa_Spec p = pa_Spec pa) \<and> (pa_Deleting p \<longrightarrow> pa_Deleting pa)" by simp
  qed simp
  then show ?thesis by (simp add: grows_def list_all_iff)
qed

theorem Reconcile_touches_selected_witness:
  "\<exists>res s' new. Reconcile (traced_rec (sample_reconciler (sample_pa ''Auto'' False) [sample_pod] [] [])) ''prod'' ''web'' (start (0, [])) = (res, s')
     \<and> tr s' = new \<and> (\<forall>c\<in>set new. on_target (\<lambda>ns n. ns = ''prod'' \<and> n = ''web-1'') c)"
proof -
  let ?r = "sample_reconciler (sample_pa ''Auto'' False) [sample_pod] [] []"
  obtain res s' where e: "Reconcile (traced_rec ?r) ''prod'' ''web'' (start (0, [])) = (res, s')" by (metis surj_pair)
  have g: "GetPodAutoscaler (rc_Client ?r) ''prod'' ''web'' (fst (rs_world (start (0, [] :: (string, int) call list)))) = (Inr (sample_pa ''Auto'' False), 0)"
    by (simp add: sample_reconciler_def fixed_cluster_def start_def)
  have k: "keeps_identity (rc_Client ?r)"
    by (auto simp: keeps_identity_def sample_reconciler_def fixed_cluster_def)
  have s: "selects (rc_Client ?r) (pa_Deleting (sample_pa ''Auto'' False)) (pa_Namespace (sample_pa ''Auto'' False)) (sp_Selector (pa_Spec (sample_pa ''Auto'' False)))
      (\<lambda>ns n. ns = ''prod'' \<and> n = ''web-1'')"
    by (auto simp: selects_def sample_reconciler_def fixed_cluster_def sample_pod_def)
  from Reconcile_touches_selected[OF g k s e] e show ?thesis by (auto simp: start_def)
qed

end
