(* ===== verification/Settling.thy ===== *)
theory Settling
  imports System
begin

text \<open>
  What a resize means for the next evaluation: the allocations read back from a resized pod, and
  whether the same usage then leads to another update.
\<close>

section \<open>Allocations of a resized pod\<close>

definition set_allocation :: "'q quantity_ops \<Rightarrow> ResourceRecommendation \<Rightarrow> ContainerResources" where
  "set_allocation ops rec =
     \<lparr>CPURequest = AsApproximateFloat64 ops (cpu_quantity ops (rr_CPUCoresRequest rec)),
      CPULimit = AsApproximateFloat64 ops (cpu_quantity ops (rr_CPUCoresLimit rec)),
      MemoryRequest = AsApproximateFloat64 ops (mem_quantity ops (rr_MemoryBytesRequest rec)),
      MemoryLimit = AsApproximateFloat64 ops (mem_quantity ops (rr_MemoryBytesLimit rec))\<rparr>"

lemma container_resources_set: "container_resources ops (set_resources ops rec c) = set_allocation ops rec"
  by (simp add: container_resources_def set_resources_def set_allocation_def amount_def)

lemma set_resources_name [simp]: "ct_Name (set_resources ops rec c) = ct_Name c"
  by (simp add: set_resources_def)

lemma filter_name_unique:
  "distinct (map ct_Name cs) \<Longrightarrow> c \<in> set cs \<Longrightarrow> filter (\<lambda>d. ct_Name d = ct_Name c) cs = [c]"
  by (induction cs) (auto simp: filter_empty_conv, metis imageI)

lemma update_container_table:
  assumes "distinct (map ct_Name cs)" "rr_ContainerName rec \<in> ct_Name ` set cs"
  shows "foldl (\<lambda>m c. m(ct_Name c \<mapsto> container_resources ops c)) Map.empty (fst (update_container ops rec cs))
       = (foldl (\<lambda>m c. m(ct_Name c \<mapsto> container_resources ops c)) Map.empty cs)(rr_ContainerName rec \<mapsto> set_allocation ops rec)"
proof -
  obtain pre c post where cs: "cs = pre @ c # post" "ct_Name c = rr_ContainerName rec" "\<forall>d\<in>set pre. ct_Name d \<noteq> rr_ContainerName rec"
    using assms(2) split_list_first_prop[of cs "\<lambda>c. ct_Name c = rr_ContainerName rec"] by (metis imageE)
  let ?cs = "pre @ set_resources ops rec c # post"
  have u: "fst (update_container ops rec cs) = ?cs" using update_container_split[OF cs(3,2)] by (simp add: cs(1))
  have d: "distinct (map ct_Name ?cs)" using assms(1) by (simp add: cs(1))
  have n: "ct_Name ` set ?cs = ct_Name ` set cs" by (simp add: cs(1))
  show ?thesis
    unfolding u
  proof
    fix name
    show "foldl (\<lambda>m c. m(ct_Name c \<mapsto> container_resources ops c)) Map.empty ?cs name =
      ((foldl (\<lambda>m c. m(ct_Name c \<mapsto> container_resources ops c)) Map.empty cs)(rr_ContainerName rec \<mapsto> set_allocation ops rec)) name"
    proof (cases "name = rr_ContainerName rec")
      case True
      have "filter (\<lambda>d. ct_Name d = rr_ContainerName rec) ?cs = [set_resources ops rec c]"
        using filter_name_unique[OF d, of "set_resources ops rec c"] cs(2) by simp
      then show ?thesis using True assms(2) n unfolding allocations_fold by (simp add: container_resources_set)
    next
      case False
      then have "filter (\<lambda>d. ct_Name d = name) ?cs = filter (\<lambda>d. ct_Name d = name) cs" using cs(2) by (simp add: cs(1))
      then show ?thesis using False n unfolding fun_upd_other[OF False] allocations_fold by simp
    qed
  qed
qed

text \<open>
  The in-place resize refines an update of the table of allocations: with distinct container
  names, the table read from the resized pod is the old one with the container's entry replaced by the
  recommended quantities, read back; a missing container changes nothing.
\<close>

lemma resized_allocations:
  assumes "distinct (map ct_Name (pod_Containers pod))"
  shows "GetCurrentAllocations ops (resized ops rec pod) =
    (if has_container rec pod then (GetCurrentAllocations ops pod)(rr_ContainerName rec \<mapsto> set_allocation ops rec)
     else GetCurrentAllocations ops pod)"
proof (cases "has_container rec pod")
  case True
  then show ?thesis
    using update_container_table[OF assms, of rec ops] by (simp add: GetCurrentAllocations_def resized_def has_container_def)
qed (simp add: resized_missing)

section \<open>Settling\<close>

lemma metrics_step_insignificant:
  assumes "allocs (cm_Name cm) = Some alloc"
    and "Calculate (usage_of (rc_ops r) cm) (allocation_of (cm_Name cm) alloc) cfg cst = Inr rec"
    and "\<not> rr_SignificantVariance rec" and "\<not> nc_LimitRangeFound nc" and "\<not> nc_ResourceQuotaFound nc"
  shows "metrics_step r pa nc cst cfg allocs (ev, s) cm =
    (ev\<lparr>ea_recs := ea_recs ev @ [toStatusRecommendation (rc_ops r) rec]\<rparr>, observe_rec rec s)"
  using assms by (simp add: metrics_step_def clamp_to_namespace_def Let_def)

text \<open>The usage of the calculator's sample, as quantities.\<close>

definition sample_metrics :: "int ContainerMetrics" where
  "sample_metrics = \<lparr>cm_Name = ''app'', cm_Usage = Some [''cpu'' \<mapsto> 500, ''memory'' \<mapsto> 268435456000]\<rparr>"

lemma sample_metrics_usage: "usage_of milli_ops sample_metrics = sample_usage"
  by (simp add: usage_of_def Let_def sample_metrics_def sample_usage_def milli_ops_def)

section \<open>Not settling\<close>

lemma apply_again:
  assumes "applyRecommendation (traced_rec r) pa pod rec source s = ((adj, pod'), s')"
    and "has_container rec pod" and "resized (rc_ops r) rec pod = pod"
  shows "update_mode pa = ''InPlace'' \<Longrightarrow> tr s' = tr s @ [PatchCall pod pod]"
    and "update_mode pa = ''Recreate'' \<Longrightarrow> \<exists>new. tr s' = tr s @ new \<and> eviction_calls rec pod new"
proof -
  obtain x p w where a: "ApplyRecommendation (traced (rc_Client r)) (rc_ops r) pod rec (update_mode pa) (rs_world s) = ((x, p), w)"
    by (metis surj_pair)
  have t: "tr s' = snd w" using assms(1) a by (auto simp: applyRecommendation_def update_mode_def call_def Let_def split: sum.splits)
  show "tr s' = tr s @ [PatchCall pod pod]" if "update_mode pa = ''InPlace''"
    using Apply_InPlace(1)[OF a[unfolded that]] t assms(2,3) by (simp add: inplace_calls_def)
  show "\<exists>new. tr s' = tr s @ new \<and> eviction_calls rec pod new" if "update_mode pa = ''Recreate''"
    using Apply_Recreate[OF a[unfolded that]] t by auto
qed

text \<open>
  C38. A recommendation that the namespace's bounds have cut back is applied again in every cycle: what
  counts as significant is the recommendation before the cut.  A pod that already has exactly the
  values it would get is patched with itself in mode \<^verbatim>\<open>InPlace\<close>, and annotated and evicted in mode
  \<^verbatim>\<open>Recreate\<close>.
\<close>

theorem clamped_applied_again:
  assumes "GetCurrentAllocations (rc_ops r) pod (cm_Name cm) = Some alloc"
    and "Calculate (usage_of (rc_ops r) cm) (allocation_of (cm_Name cm) alloc) cfg cst = Inr rec"
    and "rr_SignificantVariance rec" and "\<not> sp_DryRun (pa_Spec pa)"
    and "clamp_to_namespace nc rec = (rec', reasons)" and "has_container rec' pod" and "resized (rc_ops r) rec' pod = pod"
    and "metrics_step (traced_rec r) pa nc cst cfg (GetCurrentAllocations (rc_ops r) pod) (eval_start pod, s) cm = (ev', s')"
  shows "(update_mode pa = ''InPlace'' \<longrightarrow> tr s' = tr s @ [PatchCall pod pod])
       \<and> (update_mode pa = ''Recreate'' \<longrightarrow> (\<exists>new. tr s' = tr s @ new \<and> eviction_calls rec' pod new))"
proof -
  have sg: "rr_SignificantVariance rec'"
    using assms(3,5) by (auto simp: clamp_to_namespace_def split: if_splits prod.splits)
  obtain adj pod' s1 where a: "applyRecommendation (traced_rec r) pa pod rec' ''podfather'' (observe_rec rec' s) = ((adj, pod'), s1)"
    by (metis surj_pair)
  have "s' = s1"
    using assms(8) a sg by (simp add: metrics_step_def eval_start_def assms(1,2,4,5) Let_def)
  then show ?thesis using apply_again[OF a assms(6,7)] by simp
qed

text \<open>A namespace that allows a quarter of a core, and a pod that has it.\<close>

definition tight_nc :: NamespaceConstraints where
  "tight_nc = EmptyConstraints\<lparr>nc_LimitRangeFound := True, nc_MaxCPUCores := lit (1 / 4)\<rparr>"

definition tight_pod :: "int Pod" where
  "tight_pod = sample_pod\<lparr>pod_Containers :=
     [\<lparr>ct_Name = ''app'', ct_Requests = Some [''cpu'' \<mapsto> 250, ''memory'' \<mapsto> 335544320000],
       ct_Limits = Some [''cpu'' \<mapsto> 250, ''memory'' \<mapsto> 503316480000]\<rparr>]\<rparr>"

definition tight_rec :: ResourceRecommendation where
  "tight_rec = sample_rec\<lparr>rr_CPUVariancePercent := Fin False 140, rr_MemoryVariancePercent := 0\<rparr>"

lemma tight_Calculate:
  "Calculate sample_usage (allocation_of ''app'' (container_resources milli_ops (hd (pod_Containers tight_pod)))) DefaultConfig DefaultConstraints
   = Inr tight_rec"
  by (simp add: Calculate_def request_limit_def sample_usage_def tight_pod_def container_resources_def amount_def allocation_of_def
      milli_ops_def DefaultConfig_def DefaultConstraints_def clamp_def variancePercent_def fmax_def sample_rec_def tight_rec_def float_eval)

lemma tight_clamp:
  "fst (clamp_to_namespace tight_nc tight_rec) = tight_rec\<lparr>rr_CPUCoresRequest := lit (1 / 4), rr_CPUCoresLimit := lit (1 / 4)\<rparr>"
  by (simp add: clamp_to_namespace_def ClampRecommendation_def cpu_bounds_def memory_bounds_def tight_nc_def tight_rec_def sample_rec_def
      EmptyConstraints_def clamp_steps Let_def MaxFloat64_def float_eval)

lemma tight_resized:
  "resized milli_ops (tight_rec\<lparr>rr_CPUCoresRequest := lit (1 / 4), rr_CPUCoresLimit := lit (1 / 4)\<rparr>) tight_pod = tight_pod"
  by (simp add: resized_def tight_rec_def sample_rec_def tight_pod_def set_resources_def rl_put_def cpu_quantity_def mem_quantity_def
      milli_ops_def to_int64_def fun_upd_twist float_eval)

theorem clamped_applied_again_witness:
  "\<exists>ev s. metrics_step (traced_rec (sample_reconciler (sample_pa ''Recreate'' False) [] [] [])) (sample_pa ''Recreate'' False) tight_nc
       DefaultConstraints DefaultConfig (GetCurrentAllocations milli_ops tight_pod) (eval_start tight_pod, start (0, [])) sample_metrics = (ev, s)
     \<and> (\<exists>base pod. PatchCall base pod \<in> set (tr s))"
proof -
  let ?r = "sample_reconciler (sample_pa ''Recreate'' False) [] [] []" and ?pa = "sample_pa ''Recreate'' False"
  let ?rec' = "tight_rec\<lparr>rr_CPUCoresRequest := lit (1 / 4), rr_CPUCoresLimit := lit (1 / 4)\<rparr>"
  have o: "rc_ops ?r = milli_ops" by (simp add: sample_reconciler_def)
  obtain ev s where e: "metrics_step (traced_rec ?r) ?pa tight_nc DefaultConstraints DefaultConfig
      (GetCurrentAllocations (rc_ops ?r) tight_pod) (eval_start tight_pod, start (0, [])) sample_metrics = (ev, s)"
    by (metis surj_pair)
  have al: "GetCurrentAllocations (rc_ops ?r) tight_pod (cm_Name sample_metrics) =
      Some (container_resources milli_ops (hd (pod_Containers tight_pod)))"
    by (simp add: o GetCurrentAllocations_def tight_pod_def sample_metrics_def)
  have nm: "cm_Name sample_metrics = ''app''" by (simp add: sample_metrics_def)
  have c: "Calculate (usage_of (rc_ops ?r) sample_metrics) (allocation_of (cm_Name sample_metrics)
      (container_resources milli_ops (hd (pod_Containers tight_pod)))) DefaultConfig DefaultConstraints = Inr tight_rec"
    by (simp add: o sample_metrics_usage tight_Calculate nm)
  obtain rs where k: "clamp_to_namespace tight_nc tight_rec = (?rec', rs)" using tight_clamp by (metis prod.collapse)
  have h: "has_container ?rec' tight_pod" by (simp add: has_container_def tight_rec_def sample_rec_def tight_pod_def)
  have g: "rr_SignificantVariance tight_rec" "\<not> sp_DryRun (pa_Spec ?pa)"
    by (simp_all add: tight_rec_def sample_rec_def sample_pa_def sample_spec_def)
  have m: "update_mode ?pa = ''Recreate''" by (simp add: update_mode_def sample_pa_def sample_spec_def)
  have js: "\<exists>js. marshal ?rec' = Inr js" unfolding marshal_ok by (simp add: tight_rec_def sample_rec_def float_eval)
  from clamped_applied_again[OF al c g k h tight_resized[folded o] e] m
  obtain new where "tr s = new" "eviction_calls ?rec' tight_pod new" by (auto simp: start_def)
  with js have "\<exists>base pod. PatchCall base pod \<in> set (tr s)" by (auto simp: eviction_calls_def)
  with e show ?thesis by (auto simp: o)
qed

end
