(* ===== verification/Truncation.thy ===== *)
theory Truncation
  imports Settling
begin

text \<open>
  A resize writes whole millicores and whole bytes, so what the next evaluation reads is not quite
  what was recommended.  Whether the same usage then calls for another resize depends on the
  threshold: from eleven percent on it never does, below that it does for ever when the truncation
  cuts off more than the threshold allows.
\<close>

section \<open>Rounding errors\<close>

lemma normal_range: "1 / 4096 \<le> P \<Longrightarrow> (2::rat) powi (- 1022) \<le> P"
proof -
  assume "1 / 4096 \<le> P"
  moreover have "(2::rat) powi (- 1022) \<le> 2 powi (- 12)" by (rule powi_mono) simp
  moreover have "(2::rat) powi (- 12) = 1 / 4096" by (simp add: power_int_def power_one_over)
  ultimately show ?thesis by linarith
qed

lemma two_powi_53: "(2::rat) powi (- 53) = 1 / 2 ^ 53"
  by (simp add: power_int_def power_one_over)

lemma rn_le_rel: "0 \<le> p \<Longrightarrow> p \<le> P \<Longrightarrow> 1 / 4096 \<le> P \<Longrightarrow> rn p \<le> P * (1 + 1 / 2 ^ 53)"
proof -
  assume a: "0 \<le> p" "p \<le> P" "1 / 4096 \<le> P"
  have "rn p \<le> rn P" using a by (intro rn_mono)
  moreover have "\<bar>rn P - P\<bar> \<le> P * (1 / 2 ^ 53)" using rn_rel_err[OF normal_range[OF a(3)]] unfolding two_powi_53 .
  ultimately show ?thesis unfolding distrib_left mult_1_right by linarith
qed

lemma below_limit: "q \<le> 2 ^ 300 \<Longrightarrow> \<not> float_limit \<le> q"
proof -
  assume "q \<le> 2 ^ 300"
  moreover have "(2::rat) ^ 300 < 2 ^ 1024" by (rule power_strict_increasing) simp_all
  ultimately show ?thesis by (simp add: float_limit_def)
qed

lemma rnd_Fin: "rn q \<le> 2 ^ 300 \<Longrightarrow> rnd s q = Fin s (rn q)"
  using below_limit by (simp add: rnd_def Let_def)

text \<open>A value within a factor \<open>1 + d\<close> of the allocation has a variance of little more than \<open>100 d\<close> percent.\<close>

lemma variance_below:
  assumes x: "1 / 256 \<le> x" "x \<le> 2 ^ 40" and d: "1 / 16 \<le> d" "d \<le> 1" "\<bar>q - x\<bar> \<le> d * x"
    and T: "100 * d * (1 + 1 / 2 ^ 50) < T"
  shows "variancePercent (Fin False q) (Fin False x) < Fin False T"
proof -
  define e :: rat where "e = 1 + 1 / 2 ^ 53"
  have e: "1 \<le> e" "e \<le> 2" "e * e * e \<le> 1 + 1 / 2 ^ 50" by (simp_all add: e_def)
  have x0: "0 < x" using x(1) by (rule less_le_trans[rotated]) simp
  have d0: "0 < d" using d(1) by (rule less_le_trans[rotated]) simp
  have dx: "1 / 4096 \<le> d * x" using mult_mono[OF d(1) x(1)] d0 by simp
  define a where "a = rn \<bar>q - x\<bar>"
  have a: "0 \<le> a" "a \<le> d * x * e"
    unfolding a_def e_def using rn_le_rel[OF _ d(3)] dx by (simp_all add: rn_nonneg)
  have "a \<le> 1 * 2 ^ 40 * 2" by (rule order_trans[OF a(2)], intro mult_mono) (use d x e d0 x0 in auto)
  then have a3: "a \<le> 2 ^ 300" by (rule order_trans) simp
  define b where "b = rn (a / x)"
  have ax: "0 \<le> a / x" "a / x \<le> d * e" using a x0 by (simp_all add: divide_simps mult_ac)
  have de: "1 / 16 \<le> d * e" using mult_mono[OF d(1) e(1)] d0 by simp
  have b: "0 \<le> b" "b \<le> d * e * e"
    unfolding b_def using rn_le_rel[OF ax] de ax by (simp_all add: rn_nonneg e_def)
  have "b \<le> 1 * 2 * 2" by (rule order_trans[OF b(2)], intro mult_mono) (use d e d0 in auto)
  then have b3: "b \<le> 4" "b \<le> 2 ^ 300" by simp_all
  define c where "c = rn (b * 100)"
  have "1 / 16 \<le> d * e * e" using mult_mono[OF de e(1)] d0 e by simp
  then have dd: "1 / 4096 \<le> d * e * e * 100" by simp
  have c: "c \<le> d * e * e * 100 * e"
    unfolding c_def using rn_le_rel[OF _ _ dd, of "b * 100"] b by (simp add: e_def)
  have "d * (e * e * e) * 100 \<le> d * (1 + 1 / 2 ^ 50) * 100" using e(3) d0 by (intro mult_right_mono mult_left_mono) auto
  then have cT: "c < T" using c T by (simp add: mult_ac)
  have c3: "c \<le> 2 ^ 300"
  proof -
    have "c \<le> 1 * 2 * 2 * 100 * 2" by (rule order_trans[OF c], intro mult_mono) (use d e d0 in auto)
    then show ?thesis by (rule order_trans) simp
  qed
  have diff: "\<bar>Fin False q - Fin False x\<bar> = Fin False a"
  proof (cases "q = x")
    case True
    then show ?thesis by (simp add: float_arith_defs sval_def a_def)
  next
    case False
    then show ?thesis using rnd_Fin[OF a3[unfolded a_def], of "q < x"]
      by (simp add: float_arith_defs sval_def a_def)
  qed
  have ratio: "Fin False a / Fin False x = Fin False b"
    using x0 rnd_Fin[OF b3(2)[unfolded b_def]] by (simp add: float_arith_defs b_def)
  have pct: "Fin False b * lit 100 = Fin False c"
    using rnd_Fin[OF c3[unfolded c_def]] by (simp add: lit_100 float_arith_defs c_def)
  have "variancePercent (Fin False q) (Fin False x) = Fin False c"
    using x0 by (simp add: variancePercent_def diff ratio pct feq_def fkey_def zero_float64_def sval_def)
  then show ?thesis using cT by (simp add: fin_less fv_def sval_def)
qed


section \<open>Reading back\<close>

text \<open>
  What the conversions of \<^verbatim>\<open>resource.Quantity\<close> promise: the number read from a quantity is the one it was
  made of, up to a relative error (they multiply by a power of ten).
\<close>

definition accurate :: "'q quantity_ops \<Rightarrow> bool" where
  "accurate ops \<longleftrightarrow> (\<forall>w. 0 < sint w \<longrightarrow>
     (\<exists>x. AsApproximateFloat64 ops (NewMilliQuantity ops w) = Fin False x
        \<and> \<bar>x - of_int (sint w) / 1000\<bar> \<le> of_int (sint w) / 1000 / 2 ^ 40)
   \<and> (\<exists>x. AsApproximateFloat64 ops (NewQuantity ops w) = Fin False x \<and> \<bar>x - of_int (sint w)\<bar> \<le> of_int (sint w) / 2 ^ 40))"

lemma lit_close:
  assumes "1 / 4096 \<le> r" "r \<le> 2 ^ 100"
  shows "\<exists>x. lit r = Fin False x \<and> \<bar>x - r\<bar> \<le> r / 2 ^ 40"
proof -
  have r0: "0 < r" using assms(1) by linarith
  have e: "\<bar>rn r - r\<bar> \<le> r * (1 / 2 ^ 53)" using rn_rel_err[OF normal_range[OF assms(1)]] unfolding two_powi_53 .
  have "r * (1 / 2 ^ 53) \<le> r / 2 ^ 40" "r * (1 / 2 ^ 53) \<le> r" using r0 by (simp_all add: field_simps)
  moreover from this have "rn r \<le> 2 ^ 100 * 2" using e assms(2) by linarith
  then have "rn r \<le> 2 ^ 300" by (rule order_trans) simp
  then have "rnd False r = Fin False (rn r)" by (rule rnd_Fin)
  ultimately show ?thesis using e r0 by (simp add: lit_def)
qed

lemma sint_upper: "sint (w :: 64 word) < 2 ^ 63"
  using sint_lt[of w] by simp

lemma accurate_milli: "accurate milli_ops"
  unfolding accurate_def
proof (intro allI impI conjI)
  fix w :: "64 word" assume w: "0 < sint w"
  have u: "rat_of_int (sint w) \<le> 2 ^ 100"
  proof -
    have "rat_of_int (sint w) \<le> of_int (2 ^ 63)" unfolding of_int_le_iff using sint_upper[of w] by simp
    also have "\<dots> \<le> 2 ^ 100" by simp
    finally show ?thesis .
  qed
  have l: "1 \<le> rat_of_int (sint w)" using w by (metis of_int_1_le_iff int_one_le_iff_zero_less)
  show "\<exists>x. AsApproximateFloat64 milli_ops (NewMilliQuantity milli_ops w) = Fin False x
        \<and> \<bar>x - of_int (sint w) / 1000\<bar> \<le> of_int (sint w) / 1000 / 2 ^ 40"
    using lit_close[of "of_int (sint w) / 1000"] u l by (simp add: milli_ops_def)
  show "\<exists>x. AsApproximateFloat64 milli_ops (NewQuantity milli_ops w) = Fin False x \<and> \<bar>x - of_int (sint w)\<bar> \<le> of_int (sint w) / 2 ^ 40"
    using lit_close[of "of_int (sint w)"] u l by (simp add: milli_ops_def)
qed

lemma to_int64_trunc:
  assumes "1 \<le> p" "p < 2 ^ 62"
  shows "sint (to_int64 oor (Fin False p)) = \<lfloor>p\<rfloor>"
proof -
  have f: "1 \<le> \<lfloor>p\<rfloor>" "\<lfloor>p\<rfloor> < 2 ^ 62" using assms by (simp_all add: le_floor_iff floor_less_iff)
  then have "signed_take_bit 63 \<lfloor>p\<rfloor> = \<lfloor>p\<rfloor>" by (simp add: signed_take_bit_int_eq_self)
  then show ?thesis using f by (simp add: to_int64_def Let_def signed_of_int)
qed

text \<open>A request of at least ten millicores reads back as something eleven percent smaller at worst.\<close>

lemma cpu_readback:
  assumes "accurate ops" and "lit (1 / 100) \<le> Fin False q" and "Fin False q \<le> lit 16"
  shows "\<exists>x. AsApproximateFloat64 ops (cpu_quantity ops (Fin False q)) = Fin False x \<and> 1 / 256 \<le> x \<and> x \<le> 2 ^ 40
    \<and> \<bar>q - x\<bar> \<le> 101 / 1000 * x"
proof -
  have q: "5764607523034235 / 576460752303423488 \<le> q" "q \<le> 16"
    using assms(2,3) by (simp_all add: float_eval)
  define p where "p = rn (q * 1000)"
  have "rn (5764607523034235 / 576460752303423488 * 1000) \<le> p" unfolding p_def using q(1) by (intro rn_mono) auto
  moreover have "rn (5764607523034235 / 576460752303423488 * 1000) = 10" by (simp add: float_eval)
  ultimately have p10: "10 \<le> p" by simp
  have pe: "\<bar>p - q * 1000\<bar> \<le> q * 1000 * (1 / 2 ^ 53)"
    unfolding p_def using rn_rel_err[OF normal_range, of "q * 1000"] q(1) unfolding two_powi_53 by simp
  have "q * 1000 * (1 / 2 ^ 53) \<le> q / 1000000" using q(1) by simp
  then have pq: "\<bar>p - q * 1000\<bar> \<le> q / 1000000" using pe by linarith
  then have pu: "p \<le> 17000" using q(2) by linarith
  have "(Fin False q) * lit 1000 = Fin False p"
  proof -
    have "lit 1000 = Fin False 1000" by (simp add: float_eval)
    moreover have "p \<le> 2 ^ 300" by (rule order_trans[OF pu]) simp
    ultimately show ?thesis using rnd_Fin[of "q * 1000" False] by (simp add: float_arith_defs p_def)
  qed
  then have t: "sint (to_int64 oor (Fin False q * lit 1000)) = \<lfloor>p\<rfloor>" for oor
    using to_int64_trunc[of p oor] p10 pu by simp
  define n where "n = rat_of_int \<lfloor>p\<rfloor>"
  have n: "n \<le> p" "p < n + 1" unfolding n_def by linarith+
  have n10: "10 \<le> n"
  proof -
    have "10 \<le> \<lfloor>p\<rfloor>" using p10 by (simp add: le_floor_iff)
    then show ?thesis unfolding n_def by (metis of_int_le_iff of_int_numeral)
  qed
  obtain x where x: "AsApproximateFloat64 ops (cpu_quantity ops (Fin False q)) = Fin False x" "\<bar>x - n / 1000\<bar> \<le> n / 1000 / 2 ^ 40"
    using assms(1)[unfolded accurate_def, rule_format, of "to_int64 (Int64OutOfRange ops) (Fin False q * lit 1000)"] n10
    unfolding t by (auto simp: cpu_quantity_def n_def)
  have "n / 1000 / 2 ^ 40 \<le> n / 1000000000" using n10 by simp
  then have "\<bar>x - n / 1000\<bar> \<le> n / 1000000000" using x(2) by linarith
  then have "1 / 256 \<le> x" "x \<le> 1000" "\<bar>q - x\<bar> \<le> 101 / 1000 * x"
    using pq n n10 pu q by linarith+
  moreover from this have "x \<le> 2 ^ 40" by simp
  ultimately show ?thesis using x(1) by blast
qed

lemma mem_readback:
  assumes "accurate ops" and "lit 16777216 \<le> Fin False q" and "Fin False q \<le> lit 68719476736"
  shows "\<exists>x. AsApproximateFloat64 ops (mem_quantity ops (Fin False q)) = Fin False x \<and> 1 / 256 \<le> x \<and> x \<le> 2 ^ 40
    \<and> \<bar>q - x\<bar> \<le> 101 / 1000 * x"
proof -
  have q: "16777216 \<le> q" "q \<le> 68719476736" using assms(2,3) by (simp_all add: float_eval)
  have t: "sint (to_int64 oor (Fin False q)) = \<lfloor>q\<rfloor>" for oor using to_int64_trunc[of q oor] q by simp
  define n where "n = rat_of_int \<lfloor>q\<rfloor>"
  have n: "n \<le> q" "q < n + 1" unfolding n_def by linarith+
  have "0 < \<lfloor>q\<rfloor>" using q by (simp add: zero_less_floor)
  then obtain x where x: "AsApproximateFloat64 ops (mem_quantity ops (Fin False q)) = Fin False x" "\<bar>x - n\<bar> \<le> n / 2 ^ 40"
    using assms(1)[unfolded accurate_def, rule_format, of "to_int64 (Int64OutOfRange ops) (Fin False q)"]
    unfolding t by (auto simp: mem_quantity_def n_def)
  have "n / 2 ^ 40 \<le> n / 1000000000" using n q by simp
  then have "\<bar>x - n\<bar> \<le> n / 1000000000" using x(2) by linarith
  then have "1 / 256 \<le> x" "x \<le> 70000000000" "\<bar>q - x\<bar> \<le> 101 / 1000 * x"
    using n q by linarith+
  moreover from this have "x \<le> 2 ^ 40" by simp
  ultimately show ?thesis using x(1) by blast
qed


section \<open>Settling\<close>

lemma Calculate_other:
  "Calculate u a cfg c = Inr r \<Longrightarrow> Calculate u a' cfg c = Inr (r\<lparr>
     rr_CPUVariancePercent := variancePercent (rr_CPUCoresRequest r) (ra_CPUCoresRequest a'),
     rr_MemoryVariancePercent := variancePercent (rr_MemoryBytesRequest r) (ra_MemoryBytesRequest a'),
     rr_SignificantVariance :=
       (variancePercent (rr_CPUCoresRequest r) (ra_CPUCoresRequest a') \<ge> VarianceThresholdPercent cfg
        \<or> variancePercent (rr_MemoryBytesRequest r) (ra_MemoryBytesRequest a') \<ge> VarianceThresholdPercent cfg)\<rparr>)"
  by (auto simp: Calculate_def Let_def split: prod.splits if_splits)

lemma between_Fin:
  assumes "lit lo \<le> x" "x \<le> lit hi" "lit lo = Fin False a" "0 < a" "lit hi = Fin False b" "is_f64 x"
  shows "\<exists>q. x = Fin False q"
proof (cases x)
  case (Fin t q)
  then have "0 < sval t q" "0 \<le> q" using assms(1,3,4,6) by (simp_all add: fin_le fv_def f64_Fin_nonneg) (simp add: sval_def)
  then show ?thesis using Fin by (cases t) (auto simp: sval_def)
next
  case (Inf t)
  then show ?thesis using assms(1-5) by (cases t) (auto simp: float_ord fkey_def less_eq_prod_def)
qed (use assms in simp)

lemma lit_int_mono: "0 < m \<Longrightarrow> m \<le> n \<Longrightarrow> lit (of_int m) \<le> lit (of_int n)"
  using rv_mono[of "of_int m" "of_int n"] by (simp add: lit_def rv_def)

lemma threshold_ge:
  assumes "case sp_VarianceThresholdPercent (pa_Spec pa) of None \<Rightarrow> True | Some v \<Rightarrow> 11 \<le> sint v"
  shows "Fin False 11 \<le> VarianceThresholdPercent (buildCalculatorConfig pa)"
proof (cases "sp_VarianceThresholdPercent (pa_Spec pa)")
  case None
  then show ?thesis by (simp add: buildCalculatorConfig_def DefaultConfig_def float_eval)
next
  case (Some v)
  have "lit 11 = Fin False 11" by (simp add: float_eval)
  then show ?thesis using lit_int_mono[of 11 "sint v"] Some assms by (simp add: buildCalculatorConfig_def Let_def)
qed

lemma default_bounds:
  "cst_MinCPUCores DefaultConstraints = lit (1 / 100)" "cst_MaxCPUCores DefaultConstraints = lit 16"
  "cst_MinMemoryBytes DefaultConstraints = lit 16777216" "cst_MaxMemoryBytes DefaultConstraints = lit 68719476736"
  by (simp_all add: DefaultConstraints_def)

lemma lit_bounds:
  "lit (1 / 100) = Fin False (5764607523034235 / 576460752303423488)" "lit 16 = Fin False 16"
  "lit 16777216 = Fin False 16777216" "lit 68719476736 = Fin False 68719476736"
  by (simp_all add: float_eval)

text \<open>A recommendation that the defaults allow, and what is read from a pod that has been resized to it.\<close>

definition usual :: "ResourceRecommendation \<Rightarrow> bool" where
  "usual rec \<longleftrightarrow> is_f64 (rr_CPUCoresRequest rec) \<and> is_f64 (rr_MemoryBytesRequest rec)
     \<and> lit (1 / 100) \<le> rr_CPUCoresRequest rec \<and> rr_CPUCoresRequest rec \<le> lit 16
     \<and> lit 16777216 \<le> rr_MemoryBytesRequest rec \<and> rr_MemoryBytesRequest rec \<le> lit 68719476736"

lemma readback_variance:
  assumes "usual rec" "accurate ops"
  shows "variancePercent (rr_CPUCoresRequest rec) (CPURequest (set_allocation ops rec)) < Fin False 11"
    and "variancePercent (rr_MemoryBytesRequest rec) (MemoryRequest (set_allocation ops rec)) < Fin False 11"
proof -
  have cpu: "lit (1 / 100) \<le> rr_CPUCoresRequest rec" "rr_CPUCoresRequest rec \<le> lit 16" "is_f64 (rr_CPUCoresRequest rec)"
    and mem: "lit 16777216 \<le> rr_MemoryBytesRequest rec" "rr_MemoryBytesRequest rec \<le> lit 68719476736" "is_f64 (rr_MemoryBytesRequest rec)"
    using assms(1) by (simp_all add: usual_def)
  obtain q where q: "rr_CPUCoresRequest rec = Fin False q"
    using between_Fin[OF cpu(1,2) lit_bounds(1) _ lit_bounds(2) cpu(3)] by auto
  obtain m where m: "rr_MemoryBytesRequest rec = Fin False m"
    using between_Fin[OF mem(1,2) lit_bounds(3) _ lit_bounds(4) mem(3)] by auto
  obtain x where x: "AsApproximateFloat64 ops (cpu_quantity ops (Fin False q)) = Fin False x" "1 / 256 \<le> x" "x \<le> 2 ^ 40"
      "\<bar>q - x\<bar> \<le> 101 / 1000 * x"
    using cpu_readback[OF assms(2) cpu(1,2)[unfolded q]] by blast
  obtain y where y: "AsApproximateFloat64 ops (mem_quantity ops (Fin False m)) = Fin False y" "1 / 256 \<le> y" "y \<le> 2 ^ 40"
      "\<bar>m - y\<bar> \<le> 101 / 1000 * y"
    using mem_readback[OF assms(2) mem(1,2)[unfolded m]] by blast
  have "variancePercent (Fin False q) (Fin False x) < Fin False 11" "variancePercent (Fin False m) (Fin False y) < Fin False 11"
    by (rule variance_below[OF x(2,3) _ _ x(4)] variance_below[OF y(2,3) _ _ y(4)]; simp)+
  then show "variancePercent (rr_CPUCoresRequest rec) (CPURequest (set_allocation ops rec)) < Fin False 11"
    and "variancePercent (rr_MemoryBytesRequest rec) (MemoryRequest (set_allocation ops rec)) < Fin False 11"
    by (simp_all add: set_allocation_def q m x(1) y(1))
qed

definition coarse_threshold :: "('s, 'q) PodAutoscaler \<Rightarrow> bool" where
  "coarse_threshold pa \<longleftrightarrow> (case sp_VarianceThresholdPercent (pa_Spec pa) of None \<Rightarrow> True | Some v \<Rightarrow> 11 \<le> sint v)"

lemma below_threshold:
  assumes "coarse_threshold pa" "z < Fin False 11"
  shows "\<not> VarianceThresholdPercent (buildCalculatorConfig pa) \<le> z"
  using f_less_le_trans[OF assms(2) threshold_ge[OF assms(1)[unfolded coarse_threshold_def]]] by (auto dest: f_less_le_trans)

section \<open>Not settling\<close>

text \<open>The other direction: a value well above the allocation has a variance that reaches the threshold.\<close>

lemma rn_ge_rel: "P \<le> p \<Longrightarrow> 1 / 2 ^ 40 \<le> P \<Longrightarrow> P * (1 - 1 / 2 ^ 53) \<le> rn p"
proof -
  assume a: "P \<le> p" "1 / 2 ^ 40 \<le> P"
  have "(2::rat) powi (- 1022) \<le> 2 powi (- 40)" by (rule powi_mono) simp
  also have "\<dots> = 1 / 2 ^ 40" by (simp add: power_int_def power_one_over)
  finally have "(2::rat) powi (- 1022) \<le> P" using a(2) by linarith
  then have "\<bar>rn P - P\<bar> \<le> P * (1 / 2 ^ 53)" using rn_rel_err[of P] unfolding two_powi_53 by blast
  moreover have "0 \<le> P" using a(2) by (rule order_trans[rotated]) simp
  then have "rn P \<le> rn p" using a(1) by (rule rn_mono)
  ultimately show ?thesis unfolding right_diff_distrib mult_1_right by linarith
qed

lemma rn_twice: "0 \<le> p \<Longrightarrow> p \<le> P \<Longrightarrow> 1 / 4096 \<le> P \<Longrightarrow> rn p \<le> P * 2"
  using rn_le_rel[of p P] by simp

lemma variance_above:
  assumes x: "1 / 4096 \<le> x" "q \<le> 2 ^ 40" and T: "1 \<le> T" "T \<le> 100" and d: "x * (T / 100 * (1 + 1 / 2 ^ 50)) \<le> q - x"
  shows "Fin False T \<le> variancePercent (Fin False q) (Fin False x)"
proof -
  define e :: rat where "e = 1 - 1 / 2 ^ 53"
  define D where "D = T / 100 * (1 + 1 / 2 ^ 50)"
  have e: "1 / 2 \<le> e" "e \<le> 1" "1 \<le> (1 + 1 / 2 ^ 50) * (e * e * e)" by (simp_all add: e_def)
  have D: "1 / 100 \<le> D" using T by (simp add: D_def)
  have x0: "0 < x" using x(1) by linarith
  have xD: "1 / 4096 * (1 / 100) \<le> x * D" using x D x0 by (intro mult_mono) auto
  have qx: "x * D \<le> q - x" "0 < q - x" using d xD by (simp_all add: D_def)
  define a where "a = rn (q - x)"
  have a: "x * D * e \<le> a" unfolding a_def e_def using qx(1) xD by (intro rn_ge_rel) auto
  have a2: "a \<le> 2 ^ 41" unfolding a_def using rn_twice[of "q - x" "2 ^ 40"] qx x x0 by simp
  have a0: "0 \<le> a" using qx by (simp add: a_def rn_nonneg)
  define b where "b = rn (a / x)"
  have De: "1 / 200 \<le> D * e" using mult_mono[OF D e(1)] D by simp
  have "D * e \<le> a / x" using a x0 by (simp add: pos_le_divide_eq mult_ac)
  then have b: "D * e * e \<le> b" unfolding b_def e_def using De[unfolded e_def] by (intro rn_ge_rel) auto
  have "a / x \<le> 2 ^ 41 / (1 / 4096)" using a2 a0 x x0 by (intro frac_le) auto
  then have "a / x \<le> 2 ^ 53" by simp
  then have b2: "b \<le> 2 ^ 54" unfolding b_def using rn_twice[of "a / x" "2 ^ 53"] a0 x0 by simp
  have b0: "0 \<le> b" using a0 x0 by (simp add: b_def rn_nonneg)
  define c where "c = rn (b * 100)"
  have Dee: "1 / 400 \<le> D * e * e" using mult_mono[OF De e(1)] De by simp
  have "D * e * e * 100 * e \<le> c" unfolding c_def e_def
    using mult_right_mono[OF b, of 100] Dee unfolding e_def by (intro rn_ge_rel) auto
  moreover have "D * e * e * 100 * e = T * ((1 + 1 / 2 ^ 50) * (e * e * e))" by (simp add: D_def)
  moreover have "T * 1 \<le> T * ((1 + 1 / 2 ^ 50) * (e * e * e))" using T e(3) by (intro mult_left_mono) auto
  ultimately have c: "T \<le> c" by linarith
  have "c \<le> 2 ^ 61 * 2" unfolding c_def using b2 b0 by (intro rn_twice) auto
  then have c3: "c \<le> 2 ^ 300" by (rule order_trans) simp
  have a3: "a \<le> 2 ^ 300" by (rule order_trans[OF a2]) simp
  have b3: "b \<le> 2 ^ 300" by (rule order_trans[OF b2]) simp
  have diff: "\<bar>Fin False q - Fin False x\<bar> = Fin False a"
    using qx(2) rnd_Fin[OF a3[unfolded a_def], of False] by (simp add: float_arith_defs sval_def a_def)
  have ratio: "Fin False a / Fin False x = Fin False b"
    using x0 rnd_Fin[OF b3[unfolded b_def]] by (simp add: float_arith_defs b_def)
  have pct: "Fin False b * lit 100 = Fin False c"
    using rnd_Fin[OF c3[unfolded c_def]] by (simp add: lit_100 float_arith_defs c_def)
  have "variancePercent (Fin False q) (Fin False x) = Fin False c"
    using x0 by (simp add: variancePercent_def diff ratio pct feq_def fkey_def zero_float64_def sval_def)
  then show ?thesis using c by (simp add: fin_le fv_def sval_def)
qed

text \<open>The millicores that a resize writes for a request, which is given in cores.\<close>

definition written_millicores :: "'q quantity_ops \<Rightarrow> float64 \<Rightarrow> int" where
  "written_millicores ops x = sint (to_int64 (Int64OutOfRange ops) (x * lit 1000))"

lemma truncated_variance:
  assumes "accurate ops" and "1 \<le> written_millicores ops (Fin False q)" and "q \<le> 2 ^ 40" and v: "1 \<le> v" "v \<le> 100"
    and "of_int (written_millicores ops (Fin False q)) * (100 + of_int v + 1 / 1000) \<le> 100000 * q"
  shows "Fin False (of_int v) \<le> variancePercent (Fin False q) (AsApproximateFloat64 ops (cpu_quantity ops (Fin False q)))"
proof -
  define m :: rat where "m = of_int (written_millicores ops (Fin False q))"
  define t :: rat where "t = of_int v"
  have m: "1 \<le> m" using assms(2) unfolding m_def by (metis of_int_1_le_iff)
  have t: "1 \<le> t" "t \<le> 100" using v unfolding t_def by simp_all
  obtain x where x: "AsApproximateFloat64 ops (cpu_quantity ops (Fin False q)) = Fin False x" "\<bar>x - m / 1000\<bar> \<le> m / 1000 / 2 ^ 40"
    using assms(1)[unfolded accurate_def, rule_format, of "to_int64 (Int64OutOfRange ops) (Fin False q * lit 1000)"] assms(2)
    by (auto simp: cpu_quantity_def m_def written_millicores_def)
  have "m / 1000 / 2 ^ 40 \<le> m / 1000 / 1000000000" using m by simp
  then have "\<bar>x - m / 1000\<bar> \<le> m / 1000 / 1000000000" using x(2) by linarith
  then have xm: "m / 1001 \<le> x" "x \<le> m / 1000 * (1 + 1 / 1000000000)" using m unfolding distrib_left mult_1_right by linarith+
  then have x1: "1 / 4096 \<le> x" using m by linarith
  have "x * (1 + t / 100 * (1 + 1 / 2 ^ 50)) \<le> m / 1000 * (1 + 1 / 1000000000) * (1 + t / 100 + 1 / 1000000000)"
    using xm(2) x1 m t by (intro mult_mono) auto
  also have "\<dots> = m * ((1 + 1 / 1000000000) * (1 + t / 100 + 1 / 1000000000)) / 1000" by simp
  also have "\<dots> \<le> m * (1 + t / 100 + 1 / 100000) / 1000"
    using m t by (intro divide_right_mono mult_left_mono) auto
  also have "\<dots> \<le> q" using assms(6) by (simp add: m_def t_def field_simps)
  finally have "x * (t / 100 * (1 + 1 / 2 ^ 50)) \<le> q - x" by (simp add: distrib_left)
  from variance_above[OF x1 assms(3) t this] show ?thesis by (simp add: x(1) t_def)
qed

lemma lit_small: "1 \<le> v \<Longrightarrow> v \<le> 100 \<Longrightarrow> lit (of_int v) = Fin False (of_int v)"
proof -
  assume v: "1 \<le> v" "v \<le> 100"
  then have r: "rn (of_int v) = of_int v" by (intro rn_int) auto
  have "rat_of_int v \<le> 100" using v by simp
  then have "rat_of_int v \<le> 2 ^ 300" by (rule order_trans) simp
  then show ?thesis using rnd_Fin[of "of_int v" False] v by (simp add: r lit_def)
qed

text \<open>A pod that has been resized to a recommendation is as it would be resized again.\<close>

lemma set_resources_again: "set_resources ops rec (set_resources ops rec c) = set_resources ops rec c"
  by (auto simp: set_resources_def rl_put_def fun_upd_twist split: option.splits)

lemma resized_again: "resized ops rec (resized ops rec pod) = resized ops rec pod"
proof -
  have "fst (update_container ops rec (fst (update_container ops rec cs))) = fst (update_container ops rec cs)" for cs
    by (induction cs) (auto simp: set_resources_again split: prod.splits)
  then show ?thesis by (simp add: resized_def)
qed

lemma resized_only_values:
  "resized ops (rec\<lparr>rr_CPUVariancePercent := c, rr_MemoryVariancePercent := m, rr_SignificantVariance := b\<rparr>) pod = resized ops rec pod"
proof -
  have "update_container ops (rec\<lparr>rr_CPUVariancePercent := c, rr_MemoryVariancePercent := m, rr_SignificantVariance := b\<rparr>) cs
      = update_container ops rec cs" for cs
    by (induction cs) (auto simp: set_resources_def split: prod.splits)
  then show ?thesis by (simp add: resized_def)
qed

lemma update_container_names: "map ct_Name (fst (update_container ops rec cs)) = map ct_Name cs"
  by (induction cs) (auto split: prod.split)

lemma resized_names [simp]: "map ct_Name (pod_Containers (resized ops rec pod)) = map ct_Name (pod_Containers pod)"
  by (simp add: resized_def update_container_names)

lemma has_container_resized: "has_container rec (resized ops rec pod) = has_container rec pod"
  unfolding has_container_def set_map[symmetric] by simp

text \<open>A container that uses nine millicores and has the ten that it gets.\<close>

definition small_metrics :: "int ContainerMetrics" where
  "small_metrics = \<lparr>cm_Name = ''app'', cm_Usage = Some [''cpu'' \<mapsto> 9, ''memory'' \<mapsto> 268435456000]\<rparr>"

definition small_pod :: "int Pod" where
  "small_pod = sample_pod\<lparr>pod_Containers :=
     [\<lparr>ct_Name = ''app'', ct_Requests = Some [''cpu'' \<mapsto> 10, ''memory'' \<mapsto> 335544320000],
       ct_Limits = Some [''cpu'' \<mapsto> 16, ''memory'' \<mapsto> 503316480000]\<rparr>]\<rparr>"

definition small_pa :: "(string, int) PodAutoscaler" where
  "small_pa = (sample_pa ''InPlace'' False)\<lparr>pa_Spec := (sample_spec ''InPlace'' False)\<lparr>sp_VarianceThresholdPercent := Some 5\<rparr>\<rparr>"

definition small_rec :: ResourceRecommendation where
  "small_rec =
     \<lparr>rr_ContainerName = ''app'', rr_CPUCoresRequest = Fin False (6225776124876973 / 576460752303423488),
      rr_CPUCoresLimit = Fin False (2334666046828865 / 144115188075855872),
      rr_MemoryBytesRequest = Fin False 335544320, rr_MemoryBytesLimit = Fin False 503316480,
      rr_CPUVariancePercent = Fin False (9007199254740977 / 1125899906842624), rr_MemoryVariancePercent = Fin False 0,
      rr_SignificantVariance = False\<rparr>"

lemma small_values:
  "lit (9 / 1000) = Fin False (5188146770730811 / 576460752303423488)"
  "lit (1 / 100) = Fin False (5764607523034235 / 576460752303423488)"
  "lit (8 / 10) = Fin False (3602879701896397 / 4503599627370496)"
  by (simp_all add: float_eval)

lemma small_base:
  "fmax (lit (9 / 1000)) (lit (9 / 1000) * lit (8 / 10)) = lit (9 / 1000)"
  unfolding small_values by (simp add: fmax_def float_eval)

lemma small_raw: "lit (9 / 1000) * (lit 1 + lit 20 / lit 100) = Fin False (6225776124876973 / 576460752303423488)"
  unfolding small_values by (simp add: float_eval)


lemma small_limit:
  "request_limit (lit (9 / 1000)) (lit (9 / 1000)) (lit (8 / 10)) (lit 20) (lit (15 / 10)) (lit (1 / 100)) (lit 16)
   = (Fin False (6225776124876973 / 576460752303423488), Fin False (2334666046828865 / 144115188075855872))"
  by (simp only: request_limit_def small_base Let_def small_raw) (simp add: clamp_def float_eval)

lemma small_variance:
  "variancePercent (Fin False (6225776124876973 / 576460752303423488)) (lit (1 / 100)) = Fin False (9007199254740977 / 1125899906842624)"
  unfolding small_values by (simp add: variancePercent_def float_eval)

lemma small_memory:
  "request_limit (lit 268435456) (lit 268435456) (lit (9 / 10)) (lit 25) (lit (15 / 10)) (lit 16777216) (lit 68719476736)
   = (Fin False 335544320, Fin False 503316480)"
  by (simp add: request_limit_def fmax_def clamp_def float_eval)

lemma small_Calculate:
  "Calculate (usage_of milli_ops small_metrics) (allocation_of ''app'' (container_resources milli_ops (hd (pod_Containers small_pod))))
     DefaultConfig DefaultConstraints = Inr small_rec"
proof -
  have u: "usage_of milli_ops small_metrics = \<lparr>ru_ContainerName = ''app'', ru_CPUCoresAvg = lit (9 / 1000), ru_CPUCoresPeak = lit (9 / 1000),
      ru_MemoryBytesAvg = lit 268435456, ru_MemoryBytesPeak = lit 268435456\<rparr>"
    by (simp add: usage_of_def small_metrics_def milli_ops_def Let_def)
  have a: "ra_CPUCoresRequest (allocation_of ''app'' (container_resources milli_ops (hd (pod_Containers small_pod)))) = lit (1 / 100)"
    "ra_MemoryBytesRequest (allocation_of ''app'' (container_resources milli_ops (hd (pod_Containers small_pod)))) = lit 335544320"
    by (simp_all add: allocation_of_def container_resources_def amount_def small_pod_def milli_ops_def)
  have m: "variancePercent (Fin False 335544320) (lit 335544320) = Fin False 0" by (simp add: variancePercent_def float_eval)
  have t: "\<not> lit 15 \<le> Fin False (9007199254740977 / 1125899906842624)" "\<not> lit 15 \<le> Fin False 0" by (simp_all add: float_eval)
  show ?thesis
    using t by (simp add: Calculate_def u a DefaultConfig_def DefaultConstraints_def small_limit[simplified] small_memory[simplified] small_variance m Let_def small_rec_def)
qed

lemma small_resized: "resized milli_ops (small_rec\<lparr>rr_SignificantVariance := b\<rparr>) small_pod = small_pod"
  by (simp add: resized_def small_rec_def small_pod_def set_resources_def rl_put_def cpu_quantity_def mem_quantity_def
      milli_ops_def to_int64_def fun_upd_twist float_eval)

lemma Calculate_threshold:
  "Calculate u a cfg c = Inr r \<Longrightarrow> Calculate u a (cfg\<lparr>VarianceThresholdPercent := t\<rparr>) c =
     Inr (r\<lparr>rr_SignificantVariance := (t \<le> rr_CPUVariancePercent r \<or> t \<le> rr_MemoryVariancePercent r)\<rparr>)"
  by (auto simp: Calculate_def Let_def split: prod.splits if_splits)

text \<open>
  C39. Truncation can make a resize repeat for ever.  Requests are written in whole millicores, and the variance
  is computed against what is read back.  When the part of a recommended CPU request that is cut off is more
  than the threshold of the spec, in percent of the millicores written (by a thousandth of a percent), the
  same usage calls for an update of the very pod that has just been resized for it: mode \<^verbatim>\<open>InPlace\<close> patches
  that pod with itself.  Since the pod is what resizing it gives, this holds again in the next cycle.
  It is shown for the path from metrics in a namespace without bounds, without dry-run, for quantities that read
  back accurately, containers with distinct names, at least one millicore written, and
  thresholds from 1 to 100, which is what the schema allows.
\<close>

theorem truncated_resize_repeats:
  assumes "accurate (rc_ops r)" and "update_mode pa = ''InPlace''" and "\<not> sp_DryRun (pa_Spec pa)"
    and "sp_VarianceThresholdPercent (pa_Spec pa) = Some v" and "1 \<le> sint v" and "sint v \<le> 100"
    and "\<not> nc_LimitRangeFound nc" and "\<not> nc_ResourceQuotaFound nc"
    and "Calculate (usage_of (rc_ops r) cm) a (buildCalculatorConfig pa) cst = Inr rec"
    and "distinct (map ct_Name (pod_Containers pod))" and "has_container rec pod"
    and "rr_CPUCoresRequest rec = Fin False q" and "q \<le> 2 ^ 40" and "1 \<le> written_millicores (rc_ops r) (Fin False q)"
    and "of_int (written_millicores (rc_ops r) (Fin False q)) * (100 + of_int (sint v) + 1 / 1000) \<le> 100000 * q"
    and "pod' = resized (rc_ops r) rec pod"
    and "metrics_step (traced_rec r) pa nc cst (buildCalculatorConfig pa) (GetCurrentAllocations (rc_ops r) pod') (eval_start pod', s) cm
           = (ev', s')"
  shows "resized (rc_ops r) rec pod' = pod' \<and> tr s' = tr s @ [PatchCall pod' pod']"
proof -
  let ?ops = "rc_ops r" and ?al = "set_allocation (rc_ops r) rec"
  let ?a = "allocation_of (cm_Name cm) ?al"
  let ?rec = "rec\<lparr>rr_CPUVariancePercent := variancePercent (rr_CPUCoresRequest rec) (CPURequest ?al),
    rr_MemoryVariancePercent := variancePercent (rr_MemoryBytesRequest rec) (MemoryRequest ?al), rr_SignificantVariance := True\<rparr>"
  have n: "rr_ContainerName rec = cm_Name cm"
    using Calculate_InrD(2)[OF assms(9)] by (simp add: usage_of_def Let_def)
  have "VarianceThresholdPercent (buildCalculatorConfig pa) \<le> variancePercent (rr_CPUCoresRequest rec) (CPURequest ?al)"
    using truncated_variance[OF assms(1,14,13,5,6,15)] assms(4,12) lit_small[OF assms(5,6)]
    by (simp add: buildCalculatorConfig_def set_allocation_def Let_def)
  then have C: "Calculate (usage_of ?ops cm) ?a (buildCalculatorConfig pa) cst = Inr ?rec"
    using Calculate_other[OF assms(9), of ?a] by (simp add: allocation_of_def)
  have al: "GetCurrentAllocations ?ops pod' (cm_Name cm) = Some ?al"
    using resized_allocations[OF assms(10), of ?ops rec] assms(11) n by (simp add: assms(16))
  have R: "resized ?ops ?rec pod' = pod'" "resized ?ops rec pod' = pod'"
    by (simp_all only: resized_only_values resized_again assms(16))
  have h: "has_container ?rec pod'" using assms(11) has_container_resized[of rec ?ops pod] by (simp add: assms(16) has_container_def)
  have k: "clamp_to_namespace nc ?rec = (?rec, [])" using assms(7,8) by (simp add: clamp_to_namespace_def)
  obtain adj p s1 where a: "applyRecommendation (traced_rec r) pa pod' ?rec ''podfather'' (observe_rec ?rec s) = ((adj, p), s1)"
    by (metis surj_pair)
  have "s' = s1" using assms(17) a by (simp add: metrics_step_def eval_start_def al assms(3) C k)
  then show ?thesis using apply_again(1)[OF a h R(1) assms(2)] R(2) by simp
qed

text \<open>Nine millicores of usage, 10.8 recommended, ten written.\<close>

theorem truncated_resize_repeats_witness:
  "\<exists>ev s. metrics_step (traced_rec (sample_reconciler small_pa [] [] [])) small_pa EmptyConstraints DefaultConstraints
       (buildCalculatorConfig small_pa) (GetCurrentAllocations milli_ops small_pod) (eval_start small_pod, start (0, [])) small_metrics = (ev, s)
     \<and> tr s = [PatchCall small_pod small_pod]"
proof -
  let ?r = "sample_reconciler small_pa [] [] []" and ?q = "6225776124876973 / 576460752303423488 :: rat"
  have o: "rc_ops ?r = milli_ops" by (simp add: sample_reconciler_def)
  obtain ev s where e: "metrics_step (traced_rec ?r) small_pa EmptyConstraints DefaultConstraints (buildCalculatorConfig small_pa)
      (GetCurrentAllocations (rc_ops ?r) small_pod) (eval_start small_pod, start (0, [])) small_metrics = (ev, s)"
    by (metis surj_pair)
  have h: "update_mode small_pa = ''InPlace''" "\<not> sp_DryRun (pa_Spec small_pa)"
    "sp_VarianceThresholdPercent (pa_Spec small_pa) = Some 5" "1 \<le> sint (5 :: 32 word)" "sint (5 :: 32 word) \<le> 100"
    "\<not> nc_LimitRangeFound EmptyConstraints" "\<not> nc_ResourceQuotaFound EmptyConstraints"
    by (simp_all add: small_pa_def update_mode_def sample_pa_def sample_spec_def EmptyConstraints_def)
  obtain b where c: "Calculate (usage_of (rc_ops ?r) small_metrics) (allocation_of ''app'' (container_resources milli_ops (hd (pod_Containers small_pod))))
      (buildCalculatorConfig small_pa) DefaultConstraints = Inr (small_rec\<lparr>rr_SignificantVariance := b\<rparr>)"
    using Calculate_threshold[OF small_Calculate, of "lit 5"] h(3) by (auto simp: o buildCalculatorConfig_def Let_def)
  let ?rec = "small_rec\<lparr>rr_SignificantVariance := b\<rparr>"
  have p: "distinct (map ct_Name (pod_Containers small_pod))" "has_container ?rec small_pod" "rr_CPUCoresRequest ?rec = Fin False ?q"
    "small_pod = resized (rc_ops ?r) ?rec small_pod"
    by (simp_all add: o small_resized) (simp_all add: has_container_def small_pod_def small_rec_def)
  have "written_millicores (rc_ops ?r) (Fin False ?q) = 10"
    by (simp add: written_millicores_def o milli_ops_def to_int64_def float_eval)
  then have m: "?q \<le> 2 ^ 40" "1 \<le> written_millicores (rc_ops ?r) (Fin False ?q)"
    "of_int (written_millicores (rc_ops ?r) (Fin False ?q)) * (100 + of_int (sint (5 :: 32 word)) + 1 / 1000) \<le> 100000 * ?q"
    by simp_all
  from truncated_resize_repeats[OF accurate_milli[folded o] h c p(1-3) m p(4) e] e
  show ?thesis by (auto simp: start_def o)
qed

end
