(* ===== verification/PodStore.thy ===== *)
theory PodStore
  imports Truncation
begin

text \<open>
  A server that stores the pods, and what one reconciliation makes of them.  \<open>pod_store\<close> is the contract
  of the server; \<open>plan\<close> says which recommendations an evaluation of a pod applies, and \<open>apply_plan\<close> what
  becomes of the pod.  The loops over a pod's containers are shown to follow their plan, call for call.
\<close>

section \<open>Plans\<close>

text \<open>
  \<open>want p x\<close> is the recommendation that the loop's item \<open>x\<close> calls for, given the pod as it is by then,
  if it calls for one.
\<close>

fun plan :: "'q quantity_ops \<Rightarrow> ('q Pod \<Rightarrow> 'x \<Rightarrow> ResourceRecommendation option) \<Rightarrow> 'q Pod \<Rightarrow> 'x list \<Rightarrow> ResourceRecommendation list" where
  "plan ops want pod [] = []"
| "plan ops want pod (x # xs) =
     (case want pod x of None \<Rightarrow> plan ops want pod xs | Some rec \<Rightarrow> rec # plan ops want (resized ops rec pod) xs)"

definition apply_plan :: "'q quantity_ops \<Rightarrow> ResourceRecommendation list \<Rightarrow> 'q Pod \<Rightarrow> 'q Pod" where
  "apply_plan ops recs pod = foldl (\<lambda>p rec. resized ops rec p) pod recs"

fun plan_calls :: "'q quantity_ops \<Rightarrow> 'q Pod \<Rightarrow> ResourceRecommendation list \<Rightarrow> ('s, 'q) call list" where
  "plan_calls ops pod [] = []"
| "plan_calls ops pod (rec # recs) = PatchCall pod (resized ops rec pod) # plan_calls ops (resized ops rec pod) recs"

lemma plan_calls_touch [simp]: "filter touches_pod (plan_calls ops pod recs) = plan_calls ops pod recs"
  by (induction recs arbitrary: pod) simp_all

text \<open>What the two evaluations want.\<close>

definition metrics_want ::
  "'q quantity_ops \<Rightarrow> NamespaceConstraints \<Rightarrow> Constraints \<Rightarrow> Config \<Rightarrow> (string \<rightharpoonup> ContainerResources) \<Rightarrow> 'q ContainerMetrics
   \<Rightarrow> ResourceRecommendation option" where
  "metrics_want ops nc cst cfg allocs cm =
     (case allocs (cm_Name cm) of
        None \<Rightarrow> None
      | Some alloc \<Rightarrow>
          (case Calculate (usage_of ops cm) (allocation_of (cm_Name cm) alloc) cfg cst of
             Inl err \<Rightarrow> None
           | Inr rec \<Rightarrow> if rr_SignificantVariance rec then Some (fst (clamp_to_namespace nc rec)) else None))"

definition vpa_want ::
  "'q quantity_ops \<Rightarrow> NamespaceConstraints \<Rightarrow> Constraints \<Rightarrow> Config \<Rightarrow> 'q Pod \<Rightarrow> 'q VPAContainerRecommendation
   \<Rightarrow> ResourceRecommendation option" where
  "vpa_want ops nc cst cfg pod v =
     (let rec = set_variance cfg (GetCurrentAllocations ops pod)
                  (fst (clamp_to_namespace nc (vpaRecommendationToCalculatorRec ops v cst)))
      in if rr_SignificantVariance rec then Some rec else None)"

lemma resized_fields [simp]:
  "pod_Name (resized ops rec pod) = pod_Name pod" "pod_Namespace (resized ops rec pod) = pod_Namespace pod"
  "pod_Phase (resized ops rec pod) = pod_Phase pod" "pod_Deleting (resized ops rec pod) = pod_Deleting pod"
  by (simp_all add: resized_def)

lemma apply_plan_simps [simp]:
  "apply_plan ops [] pod = pod" "apply_plan ops (rec # recs) pod = apply_plan ops recs (resized ops rec pod)"
  by (simp_all add: apply_plan_def)

lemma apply_plan_fields [simp]:
  "pod_Name (apply_plan ops recs pod) = pod_Name pod" "pod_Namespace (apply_plan ops recs pod) = pod_Namespace pod"
  "pod_Phase (apply_plan ops recs pod) = pod_Phase pod" "pod_Deleting (apply_plan ops recs pod) = pod_Deleting pod"
  "map ct_Name (pod_Containers (apply_plan ops recs pod)) = map ct_Name (pod_Containers pod)"
  by (induction recs arbitrary: pod) simp_all

section \<open>A list of pods as a store\<close>

definition key :: "'q Pod \<Rightarrow> string \<times> string" where
  "key p = (pod_Namespace p, pod_Name p)"

definition put_pod :: "'q Pod \<Rightarrow> 'q Pod list \<Rightarrow> 'q Pod list" where
  "put_pod p pods = map (\<lambda>q. if key q = key p then p else q) pods"

lemma key_resized [simp]: "key (resized ops rec pod) = key pod" "key (apply_plan ops recs pod) = key pod"
  by (simp_all add: key_def)

lemma put_pod_keys [simp]: "map key (put_pod p pods) = map key pods"
  by (simp add: put_pod_def)

lemma put_pod_put [simp]: "key p = key p' \<Longrightarrow> put_pod p (put_pod p' pods) = put_pod p pods"
  by (simp add: put_pod_def)

lemma put_pod_same: "distinct (map key pods) \<Longrightarrow> p \<in> set pods \<Longrightarrow> put_pod p pods = pods"
  unfolding put_pod_def by (rule map_idI) (auto simp: distinct_map dest: inj_onD)

lemma put_pod_in: "p \<in> set pods \<Longrightarrow> key p' = key p \<Longrightarrow> p' \<in> set (put_pod p' pods)"
  by (force simp: put_pod_def)

lemma put_pod_other: "q \<in> set pods \<Longrightarrow> key q \<noteq> key p \<Longrightarrow> q \<in> set (put_pod p pods)"
  by (force simp: put_pod_def)

text \<open>Replacing pods one after the other replaces each of them.\<close>

lemma put_pods:
  assumes "distinct (map key ps)" "set ps \<subseteq> set pods" "distinct (map key pods)" "\<And>p. key (f p) = key p"
  shows "foldl (\<lambda>P p. put_pod (f p) P) pods ps = map (\<lambda>q. if q \<in> set ps then f q else q) pods"
  using assms(1,2)
proof (induction ps rule: rev_induct)
  case (snoc p ps)
  have p: "p \<in> set pods" "key p \<notin> key ` set ps" "set ps \<subseteq> set pods" using snoc.prems by auto
  have i: "q = p" if "q \<in> set pods" "key q = key p" for q
    using that p(1) assms(3) by (auto simp: distinct_map dest: inj_onD)
  have "put_pod (f p) (map (\<lambda>q. if q \<in> set ps then f q else q) pods) =
      map (\<lambda>q. if q \<in> set (ps @ [p]) then f q else q) pods"
    unfolding put_pod_def map_map
  proof (rule map_cong[OF refl])
    fix q assume q: "q \<in> set pods"
    have "key (if q \<in> set ps then f q else q) = key q" by (simp add: assms(4))
    then show "((\<lambda>q. if key q = key (f p) then f p else q) \<circ> (\<lambda>q. if q \<in> set ps then f q else q)) q =
        (if q \<in> set (ps @ [p]) then f q else q)"
      using i[OF q] p(2) by (auto simp: assms(4))
  qed
  then show ?case using snoc by simp
qed simp

section \<open>The server\<close>

text \<open>
  The contract of the server while it is healthy: it stores the pods; a selector picks pods by namespace and
  name; a patch of a stored pod is accepted and replaces it; no other call but an eviction touches a pod.
  Nothing is said about the server while it is not healthy.
\<close>

definition intact :: "('w \<Rightarrow> bool) \<Rightarrow> ('w \<Rightarrow> 'q Pod list) \<Rightarrow> 'w \<Rightarrow> 'w \<Rightarrow> bool" where
  "intact healthy pods_of w w' \<longleftrightarrow> healthy w' \<and> pods_of w' = pods_of w"

locale pod_server =
  fixes r :: "('w, 's, 't, 'q) reconciler" and pods_of :: "'w \<Rightarrow> 'q Pod list"
    and healthy :: "'w \<Rightarrow> bool" and selected :: "string \<Rightarrow> 't \<Rightarrow> string \<times> string \<Rightarrow> bool"
  assumes list_pods: "healthy w \<Longrightarrow> fst (ListPods (rc_Client r) n sel w) = Inr (filter (\<lambda>p. selected n sel (key p)) (pods_of w))"
    and patched: "healthy w \<Longrightarrow> base \<in> set (pods_of w) \<Longrightarrow> key p = key base \<Longrightarrow> PatchPod (rc_Client r) base p w = (x, w')
      \<Longrightarrow> x = Inr p \<and> pods_of w' = put_pod p (pods_of w) \<and> healthy w'"
    and others:
      "healthy w \<Longrightarrow> intact healthy pods_of w (snd (GetPodAutoscaler (rc_Client r) n m w))"
      "healthy w \<Longrightarrow> intact healthy pods_of w (snd (GetPodMetricsObject (rc_Client r) n m w))"
      "healthy w \<Longrightarrow> intact healthy pods_of w (snd (ListLimitRanges (rc_Client r) n w))"
      "healthy w \<Longrightarrow> intact healthy pods_of w (snd (ListResourceQuotas (rc_Client r) n w))"
      "healthy w \<Longrightarrow> intact healthy pods_of w (snd (ListVPAsLimit (rc_Client r) k w))"
      "healthy w \<Longrightarrow> intact healthy pods_of w (snd (ListVPAs (rc_Client r) n w))"
      "healthy w \<Longrightarrow> intact healthy pods_of w (snd (GetVPAObject (rc_Client r) n m w))"
      "healthy w \<Longrightarrow> intact healthy pods_of w (snd (Now (rc_Client r) w))"
      "healthy w \<Longrightarrow> intact healthy pods_of w (snd (UpdatePodAutoscaler (rc_Client r) pa w))"
      "healthy w \<Longrightarrow> intact healthy pods_of w (snd (UpdateStatus (rc_Client r) pa w))"
      "healthy w \<Longrightarrow> intact healthy pods_of w (snd (ListPods (rc_Client r) n sel w))"
begin

abbreviation stored_pods :: "('w \<times> ('s, 'q) call list) rstate \<Rightarrow> 'q Pod list" where
  "stored_pods s \<equiv> pods_of (fst (rs_world s))"

abbreviation pod_calls :: "('w \<times> ('s, 'q) call list) rstate \<Rightarrow> ('s, 'q) call list" where
  "pod_calls s \<equiv> filter touches_pod (tr s)"

text \<open>No other call changes a stored pod or is one that touches pods.\<close>

abbreviation same_world :: "'w \<times> ('s, 'q) call list \<Rightarrow> 'w \<times> ('s, 'q) call list \<Rightarrow> bool" where
  "same_world w w' \<equiv> intact healthy pods_of (fst w) (fst w') \<and> filter touches_pod (snd w') = filter touches_pod (snd w)"

abbreviation ok :: "('w \<times> ('s, 'q) call list) rstate \<Rightarrow> bool" where
  "ok s \<equiv> healthy (fst (rs_world s))"

lemma untraced_same:
  "intact healthy pods_of (fst w) (snd (f (fst w))) \<Longrightarrow> same_world w (snd (untraced f w))"
  by (simp add: untraced_def split: prod.split) (metis snd_conv)

lemma logged_same:
  "intact healthy pods_of (fst w) (snd (f (fst w))) \<Longrightarrow> \<not> touches_pod c \<Longrightarrow> same_world w (snd (logged c f w))"
  by (simp add: logged_def split: prod.split) (metis snd_conv)

lemma calls_same:
  "healthy (fst w) \<Longrightarrow> same_world w (snd (GetPodAutoscaler (traced (rc_Client r)) n m w))"
  "healthy (fst w) \<Longrightarrow> same_world w (snd (GetPodMetricsObject (traced (rc_Client r)) n m w))"
  "healthy (fst w) \<Longrightarrow> same_world w (snd (ListLimitRanges (traced (rc_Client r)) n w))"
  "healthy (fst w) \<Longrightarrow> same_world w (snd (ListResourceQuotas (traced (rc_Client r)) n w))"
  "healthy (fst w) \<Longrightarrow> same_world w (snd (ListVPAsLimit (traced (rc_Client r)) k w))"
  "healthy (fst w) \<Longrightarrow> same_world w (snd (ListVPAs (traced (rc_Client r)) n w))"
  "healthy (fst w) \<Longrightarrow> same_world w (snd (GetVPAObject (traced (rc_Client r)) n m w))"
  "healthy (fst w) \<Longrightarrow> same_world w (snd (Now (traced (rc_Client r)) w))"
  "healthy (fst w) \<Longrightarrow> same_world w (snd (UpdatePodAutoscaler (traced (rc_Client r)) pa w))"
  "healthy (fst w) \<Longrightarrow> same_world w (snd (UpdateStatus (traced (rc_Client r)) pa w))"
  "healthy (fst w) \<Longrightarrow> same_world w (snd (ListPods (traced (rc_Client r)) n sel w))"
  unfolding traced_def cluster.simps
  by (rule untraced_same logged_same, erule others, simp?)+

definition same_pods :: "('w \<times> ('s, 'q) call list) rstate \<Rightarrow> ('w \<times> ('s, 'q) call list) rstate \<Rightarrow> bool" where
  "same_pods s s' \<longleftrightarrow> (ok s \<longrightarrow> ok s' \<and> stored_pods s' = stored_pods s \<and> pod_calls s' = pod_calls s)"

lemma same_pods_refl [simp]: "same_pods s s"
  by (simp add: same_pods_def)

lemma same_pods_trans [trans]: "same_pods a b \<Longrightarrow> same_pods b c \<Longrightarrow> same_pods a c"
  by (simp add: same_pods_def)

lemma same_pods_ok: "same_pods s s' \<Longrightarrow> ok s \<Longrightarrow> ok s'"
  by (simp add: same_pods_def)

lemma same_pods_simps [simp]:
  "same_pods s (Eventf ty rsn msg s') = same_pods s s'" "same_pods s (count f s') = same_pods s s'"
  "same_pods s (observe_rec rec s') = same_pods s s'"
  by (simp_all add: same_pods_def Eventf_def count_def observe_rec_def)

text \<open>In the modes that resize in place every recommendation for an existing container is applied.\<close>

lemma applied:
  assumes "ok s" and "applyRecommendation (traced_rec r) pa pod rec source s = ((adj, pod'), s')"
    and "update_mode pa \<in> {''InPlace'', ''Auto''}" and "has_container rec pod" and "pod \<in> set (stored_pods s)"
  shows "adj = 1" "pod' = resized (rc_ops r) rec pod" "stored_pods s' = put_pod pod' (stored_pods s)"
    "tr s' = tr s @ [PatchCall pod pod']" "ok s'"
proof -
  let ?p = "resized (rc_ops r) rec pod"
  obtain w t where w: "rs_world s = (w, t)" by fastforce
  obtain x w' where p: "PatchPod (rc_Client r) pod ?p w = (x, w')" by (metis surj_pair)
  have x: "x = Inr ?p" "pods_of w' = put_pod ?p (pods_of w)" "healthy w'" using patched[OF _ _ _ p] assms(1,5) by (simp_all add: w)
  obtain cs where u: "update_container (rc_ops r) rec (pod_Containers pod) = (cs, True)"
    using assms(4) update_container_flag[of "rc_ops r" rec "pod_Containers pod"]
    by (cases "update_container (rc_ops r) rec (pod_Containers pod)") (simp add: has_container_def)
  have q: "?p = pod\<lparr>pod_Containers := cs\<rparr>" by (simp add: resized_def u)
  have i: "applyInPlace (traced (rc_Client r)) (rc_ops r) pod rec (w, t) = ((None, ?p), (w', t @ [PatchCall pod ?p]))"
    using p x(1) by (simp add: applyInPlace_def u traced_def logged_def Let_def flip: q)
  have "\<exists>st. ApplyRecommendation (traced (rc_Client r)) (rc_ops r) pod rec (update_mode pa) (w, t) =
      ((Inr st, ?p), (w', t @ [PatchCall pod ?p]))"
    using assms(3) i by (auto simp: ApplyRecommendation_def)
  then obtain st where a: "ApplyRecommendation (traced (rc_Client r)) (rc_ops r) pod rec (update_mode pa) (w, t) =
      ((Inr st, ?p), (w', t @ [PatchCall pod ?p]))" by blast
  have k: "call (ApplyRecommendation (traced (rc_Client r)) (rc_ops r) pod rec (update_mode pa)) s =
      ((Inr st, ?p), s\<lparr>rs_world := (w', t @ [PatchCall pod ?p])\<rparr>)"
    by (simp add: call_def w a)
  have "adj = 1 \<and> pod' = ?p \<and> rs_world s' = (w', t @ [PatchCall pod ?p])"
    using assms(2) k by (auto simp: applyRecommendation_def update_mode_def Let_def Eventf_def count_def)
  then show "adj = 1" "pod' = ?p" "stored_pods s' = put_pod pod' (stored_pods s)" "tr s' = tr s @ [PatchCall pod pod']" "ok s'"
    using x(2,3) by (simp_all add: w)
qed

end

text \<open>
  The contract of a quiet environment: while the server is healthy the metrics do not change, nobody else
  edits or deletes the object that is read, and an update of its metadata is accepted.
\<close>

definition managed :: "('s, 'q) PodAutoscaler \<Rightarrow> ('s, 'q) PodAutoscaler \<Rightarrow> bool" where
  "managed obj pa \<longleftrightarrow> pa_Namespace pa = pa_Namespace obj \<and> pa_Spec pa = pa_Spec obj \<and> \<not> pa_Deleting pa"

locale pod_store = pod_server r pods_of healthy selected
  for r :: "('w, 's, 't, 'q) reconciler" and pods_of :: "'w \<Rightarrow> 'q Pod list"
    and healthy :: "'w \<Rightarrow> bool" and selected :: "string \<Rightarrow> 't \<Rightarrow> string \<times> string \<Rightarrow> bool" +
  fixes usage :: "string \<Rightarrow> string \<Rightarrow> api_error + 'q PodMetrics"
    and ns name :: string and obj :: "('s, 'q) PodAutoscaler"
  assumes object: "healthy w \<Longrightarrow> \<exists>pa. fst (GetPodAutoscaler (rc_Client r) ns name w) = Inr pa \<and> managed obj pa"
    and accepted: "healthy w \<Longrightarrow> managed obj pa \<Longrightarrow> \<exists>pa'. fst (UpdatePodAutoscaler (rc_Client r) pa w) = Inr pa' \<and> managed obj pa'"
    and metrics: "healthy w \<Longrightarrow> fst (GetPodMetricsObject (rc_Client r) n m w) = usage n m"
begin

lemma managed_status [simp]: "managed obj (pa_Status_update f pa) = managed obj pa" "managed obj (cond_upd now t v rsn msg pa) = managed obj pa"
    "managed obj (pa_Finalizers_update g pa) = managed obj pa"
  by (simp_all add: managed_def cond_upd_def)

lemma intact_trans: "intact healthy pods_of a b \<Longrightarrow> intact healthy pods_of b c \<Longrightarrow> intact healthy pods_of a c"
  by (simp add: intact_def)

lemma same_world_trans: "same_world w0 w \<Longrightarrow> (healthy (fst w) \<Longrightarrow> same_world w w') \<Longrightarrow> same_world w0 w'"
  using intact_trans by (simp add: intact_def)

lemma frame: "object_inv (traced_rec r) (same_world w0) (managed obj) (\<lambda>pa. True)"
proof (unfold_locales, goal_cases)
  case (9 w pa fs x w')
  have h: "healthy (fst w)" using 9(1) by (simp add: intact_def)
  have "managed obj pa'" if "x = Inr pa'" for pa'
    using accepted[OF h, of "pa\<lparr>pa_Finalizers := fs\<rparr>"] 9(2,3) that
    by (auto simp: traced_def logged_def split: prod.splits)
  moreover have "same_world w w'" using calls_same(9)[OF h, where pa = "pa\<lparr>pa_Finalizers := fs\<rparr>"] 9(3) by simp
  ultimately show ?case using same_world_trans[OF 9(1)] by blast
next
  case (10 w pa)
  then show ?case using same_world_trans[OF 10(1) calls_same(10)] by simp
qed (simp_all, (erule same_world_trans, erule calls_same)+)

lemma frame_at: "object_inv (traced_rec r) (same_world (rs_world s)) (managed obj) (\<lambda>pa. True)"
  by (rule frame)

lemma frame_reads: "read_inv (traced_rec r) (same_world (rs_world s))"
  using frame by (rule object_inv.axioms)

lemma reads_same:
  "call (Now (traced (rc_Client r))) s = (t, s1) \<Longrightarrow> same_pods s s1"
  "call (GetPodMetrics (traced (rc_Client r)) n m) s = (x2, s2) \<Longrightarrow> same_pods s s2"
  "call (GetPodAutoscaler (traced (rc_Client r)) n m) s = (x3, s3) \<Longrightarrow> same_pods s s3"
  "fetch_constraints (traced_rec r) pa s = (nc, s5) \<Longrightarrow> same_pods s s5"
  using read_inv.call_reads_keep(8)[OF frame_reads[of s], of s t s1] read_inv.call_reads_keep(9)[OF frame_reads[of s], of n m s x2 s2]
    read_inv.call_reads_keep(1)[OF frame_reads[of s], of n m s x3 s3] read_inv.fetch_keeps[OF frame_reads[of s], of pa s nc s5]
  by (simp_all add: same_pods_def intact_def)

lemma object_same:
  "setCondition (traced_rec r) pa t v rsn msg s = (pa1, s1) \<Longrightarrow> managed obj pa \<Longrightarrow> ok s \<Longrightarrow> same_pods s s1 \<and> managed obj pa1"
  "checkVPAIntegration (traced_rec r) pa s = ((res, pa2), s2) \<Longrightarrow> managed obj pa \<Longrightarrow> ok s \<Longrightarrow> same_pods s s2 \<and> managed obj pa2"
  "status_update_ignored (traced_rec r) pa s = (pa3, s3) \<Longrightarrow> same_pods s s3"
  "finish_cycle (traced_rec r) pa u cy s = ((d, err), s4) \<Longrightarrow> managed obj pa \<Longrightarrow> same_pods s s4"
  using read_inv.setCondition_keeps[OF frame_reads[of s], of pa t v rsn msg s pa1 s1] object_inv.checkVPA_keeps[OF frame_at[of s], of pa s res pa2 s2]
    object_inv.send_ignored_keeps[OF frame_at[of s], of pa s pa3 s3] object_inv.finish_keeps[OF frame_at[of s], of pa u cy s d err s4]
  by (auto simp: same_pods_def intact_def)

end

section \<open>Loops that follow a plan\<close>

text \<open>
  A loop over the items of a pod's evaluation that applies exactly what \<open>want\<close> says: the state beside
  the pod only counts and reports.
\<close>

locale planned_loop =
  fixes r :: "('w, 's, 't, 'q) reconciler" and pa :: "('s, 'q) PodAutoscaler"
    and step :: "'q eval \<times> ('w, 's, 'q) traced_world rstate \<Rightarrow> 'x \<Rightarrow> 'q eval \<times> ('w, 's, 'q) traced_world rstate"
    and want :: "'q Pod \<Rightarrow> 'x \<Rightarrow> ResourceRecommendation option" and source :: string
  assumes unwanted: "\<not> sp_DryRun (pa_Spec pa) \<Longrightarrow> want (ea_pod ev) x = None \<Longrightarrow> step (ev, s) x = (ev', s')
      \<Longrightarrow> ea_pod ev' = ea_pod ev \<and> ea_adj ev' = ea_adj ev \<and> rs_world s' = rs_world s \<and> rs_events s' = rs_events s"
    and wanted: "\<not> sp_DryRun (pa_Spec pa) \<Longrightarrow> want (ea_pod ev) x = Some rec \<Longrightarrow> step (ev, s) x = (ev', s')
      \<Longrightarrow> \<exists>s0 adj. rs_world s0 = rs_world s \<and> rs_events s0 = rs_events s \<and> ea_adj ev' = ea_adj ev + adj
            \<and> applyRecommendation (traced_rec r) pa (ea_pod ev) rec source s0 = ((adj, ea_pod ev'), s')"
begin

lemma follows_plan:
  assumes store: "pod_server r pods_of healthy selected"
    and mode: "update_mode pa \<in> {''InPlace'', ''Auto''}" "\<not> sp_DryRun (pa_Spec pa)"
    and has: "\<And>p x rec. map ct_Name (pod_Containers p) = names \<Longrightarrow> want p x = Some rec \<Longrightarrow> has_container rec p"
  shows "map ct_Name (pod_Containers (ea_pod ev)) = names \<Longrightarrow> healthy (fst (rs_world s)) \<Longrightarrow> ea_pod ev \<in> set (pods_of (fst (rs_world s)))
    \<Longrightarrow> distinct (map key (pods_of (fst (rs_world s)))) \<Longrightarrow> foldl step (ev, s) xs = (ev', s')
    \<Longrightarrow> ea_pod ev' = apply_plan (rc_ops r) (plan (rc_ops r) want (ea_pod ev) xs) (ea_pod ev)
      \<and> ea_adj ev' = ea_adj ev + of_nat (length (plan (rc_ops r) want (ea_pod ev) xs))
      \<and> pods_of (fst (rs_world s')) = put_pod (ea_pod ev') (pods_of (fst (rs_world s)))
      \<and> tr s' = tr s @ plan_calls (rc_ops r) (ea_pod ev) (plan (rc_ops r) want (ea_pod ev) xs) \<and> healthy (fst (rs_world s'))"
proof (induction xs arbitrary: ev s)
  case Nil
  then show ?case by (simp add: put_pod_same)
next
  case (Cons x xs)
  obtain ev1 s1 where s1: "step (ev, s) x = (ev1, s1)" by fastforce
  then have rest: "foldl step (ev1, s1) xs = (ev', s')" using Cons.prems(5) by simp
  show ?case
  proof (cases "want (ea_pod ev) x")
    case None
    then have "ea_pod ev1 = ea_pod ev" "ea_adj ev1 = ea_adj ev" "rs_world s1 = rs_world s" using unwanted[OF mode(2)] s1 by blast+
    then show ?thesis using Cons.IH[of ev1 s1] Cons.prems(1-4) rest None by simp
  next
    case (Some rec)
    obtain s0 adj where a: "rs_world s0 = rs_world s" "ea_adj ev1 = ea_adj ev + adj"
      "applyRecommendation (traced_rec r) pa (ea_pod ev) rec source s0 = ((adj, ea_pod ev1), s1)"
      using wanted[OF mode(2) Some s1] by blast
    have h: "healthy (fst (rs_world s0))" "ea_pod ev \<in> set (pods_of (fst (rs_world s0)))" using Cons.prems(2,3) by (simp_all add: a(1))
    note d = pod_server.applied[OF store h(1) a(3) mode(1) has[OF Cons.prems(1) Some] h(2), unfolded a(1)]
    let ?P = "pods_of (fst (rs_world s))"
    have k: "key (ea_pod ev1) = key (ea_pod ev)" by (simp add: d(2))
    have in1: "ea_pod ev1 \<in> set (pods_of (fst (rs_world s1)))" unfolding d(3) by (rule put_pod_in[OF Cons.prems(3) k])
    have n1: "map ct_Name (pod_Containers (ea_pod ev1)) = names" using Cons.prems(1) by (simp add: d(2))
    have d1: "distinct (map key (pods_of (fst (rs_world s1))))" using Cons.prems(4) by (simp add: d(3))
    note IH = Cons.IH[OF n1 d(5) in1 d1 rest]
    have k': "key (ea_pod ev') = key (ea_pod ev1)" using IH by simp
    have "pods_of (fst (rs_world s')) = put_pod (ea_pod ev') ?P" using IH d(3) put_pod_put[OF k'] by simp
    then show ?thesis using IH Some d(1,2,4) a(2) by simp
  qed
qed

end

lemma clamp_keeps_name: "rr_ContainerName (fst (clamp_to_namespace nc rec)) = rr_ContainerName rec"
  "rr_SignificantVariance (fst (clamp_to_namespace nc rec)) = rr_SignificantVariance rec"
  by (simp_all add: clamp_to_namespace_def split: prod.split)

lemma usage_of_name [simp]: "ru_ContainerName (usage_of ops cm) = cm_Name cm"
  by (simp add: usage_of_def Let_def)

lemma metrics_want_name: "metrics_want ops nc cst cfg allocs cm = Some rec \<Longrightarrow> rr_ContainerName rec = cm_Name cm \<and> allocs (cm_Name cm) \<noteq> None"
  by (auto simp: metrics_want_def clamp_keeps_name dest: Calculate_InrD(2) split: option.splits sum.splits if_splits)

lemma vpa_want_name: "vpa_want ops nc cst cfg pod v = Some rec \<Longrightarrow> has_container rec pod"
  by (auto simp: vpa_want_def set_variance_def Let_def clamp_keeps_name vpaRecommendationToCalculatorRec_def has_container_def
      GetCurrentAllocations_lookup split: option.splits if_splits)

lemma metrics_unwanted:
  assumes "metrics_want (rc_ops r) nc cst cfg allocs cm = None" "metrics_step (traced_rec r) pa nc cst cfg allocs (ev, s) cm = (ev', s')"
    and "\<not> sp_DryRun (pa_Spec pa)"
  shows "ea_pod ev' = ea_pod ev \<and> ea_adj ev' = ea_adj ev \<and> rs_world s' = rs_world s \<and> rs_events s' = rs_events s"
  using assms clamp_keeps_name(2)[of nc]
  by (fastforce simp: metrics_want_def metrics_step_def observe_rec_def count_def Let_def split: option.splits sum.splits prod.splits if_splits)

lemma metrics_wanted:
  assumes "metrics_want (rc_ops r) nc cst cfg allocs cm = Some rec" "metrics_step (traced_rec r) pa nc cst cfg allocs (ev, s) cm = (ev', s')"
    and "\<not> sp_DryRun (pa_Spec pa)"
  shows "\<exists>s0 adj. rs_world s0 = rs_world s \<and> rs_events s0 = rs_events s \<and> ea_adj ev' = ea_adj ev + adj
            \<and> applyRecommendation (traced_rec r) pa (ea_pod ev) rec ''podfather'' s0 = ((adj, ea_pod ev'), s')"
proof -
  from assms(1) obtain alloc rec0 where c: "allocs (cm_Name cm) = Some alloc" "rr_SignificantVariance rec0"
    "Calculate (usage_of (rc_ops r) cm) (allocation_of (cm_Name cm) alloc) cfg cst = Inr rec0"
    "rec = fst (clamp_to_namespace nc rec0)"
    by (auto simp: metrics_want_def split: option.splits sum.splits if_splits)
  obtain reasons where k: "clamp_to_namespace nc rec0 = (rec, reasons)" using c(4) by (cases "clamp_to_namespace nc rec0") simp
  have sg: "rr_SignificantVariance rec" using clamp_keeps_name(2)[of nc rec0] c(2,4) by simp
  obtain adj pod' s1 where a: "applyRecommendation (traced_rec r) pa (ea_pod ev) rec ''podfather'' (observe_rec rec s) = ((adj, pod'), s1)"
    by (metis surj_pair)
  have "rs_world (observe_rec rec s) = rs_world s" "rs_events (observe_rec rec s) = rs_events s" by (simp_all add: observe_rec_def count_def)
  moreover have "ea_adj ev' = ea_adj ev + adj" "pod' = ea_pod ev'" "s1 = s'"
    using assms(2,3) a sg by (auto simp: metrics_step_def c(1,3) k)
  ultimately show ?thesis using a by blast
qed

lemma vpa_unwanted:
  assumes "vpa_want (rc_ops r) nc cst cfg (ea_pod ev) v = None" "vpa_step (traced_rec r) pa nc cst cfg (ev, s) v = (ev', s')"
  shows "ea_pod ev' = ea_pod ev \<and> ea_adj ev' = ea_adj ev \<and> rs_world s' = rs_world s \<and> rs_events s' = rs_events s"
proof (cases "clamp_to_namespace nc (vpaRecommendationToCalculatorRec (rc_ops r) v cst)")
  case (Pair rec reasons)
  then have "\<not> rr_SignificantVariance (set_variance cfg (GetCurrentAllocations (rc_ops r) (ea_pod ev)) rec)"
    using assms(1) by (simp add: vpa_want_def Let_def split: if_splits)
  then show ?thesis using assms(2) Pair by (auto simp: vpa_step_def Let_def observe_rec_def count_def)
qed

lemma vpa_wanted:
  assumes "vpa_want (rc_ops r) nc cst cfg (ea_pod ev) v = Some rec" "vpa_step (traced_rec r) pa nc cst cfg (ev, s) v = (ev', s')"
    and "\<not> sp_DryRun (pa_Spec pa)"
  shows "\<exists>s0 adj. rs_world s0 = rs_world s \<and> rs_events s0 = rs_events s \<and> ea_adj ev' = ea_adj ev + adj
            \<and> applyRecommendation (traced_rec r) pa (ea_pod ev) rec ''vpa'' s0 = ((adj, ea_pod ev'), s')"
proof (cases "clamp_to_namespace nc (vpaRecommendationToCalculatorRec (rc_ops r) v cst)")
  case (Pair rec0 reasons)
  then have r: "rec = set_variance cfg (GetCurrentAllocations (rc_ops r) (ea_pod ev)) rec0" "rr_SignificantVariance rec"
    using assms(1) by (auto simp: vpa_want_def Let_def split: if_splits)
  obtain adj pod' s1 where a: "applyRecommendation (traced_rec r) pa (ea_pod ev) rec ''vpa'' (observe_rec rec s) = ((adj, pod'), s1)"
    by (metis surj_pair)
  have "rs_world (observe_rec rec s) = rs_world s" "rs_events (observe_rec rec s) = rs_events s" by (simp_all add: observe_rec_def count_def)
  moreover have "ea_adj ev' = ea_adj ev + adj" "pod' = ea_pod ev'" "s1 = s'"
    using assms(2,3) a r(2) Pair by (auto simp: vpa_step_def Let_def simp flip: r(1))
  ultimately show ?thesis using a by blast
qed

interpretation metrics_planned: planned_loop r pa "metrics_step (traced_rec r) pa nc cst cfg allocs"
    "\<lambda>_. metrics_want (rc_ops r) nc cst cfg allocs" "''podfather''" for r pa nc cst cfg allocs
  by unfold_locales (blast dest: metrics_unwanted, blast dest: metrics_wanted)

interpretation vpa_planned: planned_loop r pa "vpa_step (traced_rec r) pa nc cst cfg"
    "vpa_want (rc_ops r) nc cst cfg" "''vpa''" for r pa nc cst cfg
  by unfold_locales (blast dest: vpa_unwanted, blast dest: vpa_wanted)

end
