(* ===== verification/PodCycle.thy ===== *)
theory PodCycle
  imports PodStore
begin

text \<open>
  Whole reconciliations on a server that stores the pods: what becomes of the pods is their plan, and
  the calls that touch pods are exactly those of the plans.
\<close>

section \<open>A cycle\<close>

definition pod_plan ::
  "'q quantity_ops \<Rightarrow> (string \<Rightarrow> string \<Rightarrow> api_error + 'q PodMetrics) \<Rightarrow> bool \<Rightarrow> 'q VPAContainerRecommendation list
   \<Rightarrow> NamespaceConstraints \<Rightarrow> Constraints \<Rightarrow> Config \<Rightarrow> 'q Pod \<Rightarrow> ResourceRecommendation list" where
  "pod_plan ops usage usingVPA vpaRecs nc cst cfg pod =
     (if usingVPA then plan ops (vpa_want ops nc cst cfg) pod vpaRecs
      else case usage (pod_Namespace pod) (pod_Name pod) of
             Inl err \<Rightarrow> []
           | Inr ms \<Rightarrow> plan ops (\<lambda>_. metrics_want ops nc cst cfg (GetCurrentAllocations ops pod)) pod ms)"

text \<open>Whether an evaluation of the pod finds what it needs.\<close>

definition measured :: "(string \<Rightarrow> string \<Rightarrow> api_error + 'q PodMetrics) \<Rightarrow> bool \<Rightarrow> 'q Pod \<Rightarrow> bool" where
  "measured usage usingVPA pod \<longleftrightarrow> usingVPA \<or> \<not> isl (usage (pod_Namespace pod) (pod_Name pod))"

lemma has_container_names: "has_container rec pod \<longleftrightarrow> rr_ContainerName rec \<in> set (map ct_Name (pod_Containers pod))"
  by (simp add: has_container_def)

lemma metrics_want_has:
  assumes "map ct_Name (pod_Containers p) = map ct_Name (pod_Containers pod)"
    and "metrics_want ops nc cst cfg (GetCurrentAllocations ops pod) cm = Some rec"
  shows "has_container rec p"
proof -
  have "rr_ContainerName rec \<in> set (map ct_Name (pod_Containers pod))"
    using metrics_want_name[OF assms(2)] by (simp add: GetCurrentAllocations_lookup split: if_splits)
  then show ?thesis unfolding has_container_names assms(1) .
qed

lemma vpa_want_has:
  "map ct_Name (pod_Containers p) = names \<Longrightarrow> vpa_want ops nc cst cfg p v = Some rec \<Longrightarrow> has_container rec p"
  by (rule vpa_want_name)

lemma metrics_answer:
  assumes "call (GetPodMetrics (traced cl) n m) s = (x, s1)" "GetPodMetricsObject cl n m (fst (rs_world s)) = (y, w')"
  shows "x = map_sum (\<lambda>e. Wrapf (''failed to get pod metrics for '' @ n @ ''/'' @ m) (ApiErr e)) id y"
  using assms by (cases y) (auto simp: call_def GetPodMetrics_def traced_def untraced_def)

context pod_store
begin

lemma evaluated:
  assumes mode: "update_mode pa \<in> {''InPlace'', ''Auto''}" "\<not> sp_DryRun (pa_Spec pa)"
    and pod: "ok s" "pod \<in> set (stored_pods s)" "distinct (map key (stored_pods s))"
    and e: "cycle_step (traced_rec r) pa v recs nc cst cfg (cy, s) pod = (cy', s')"
  shows "stored_pods s' = put_pod (apply_plan (rc_ops r) (pod_plan (rc_ops r) usage v recs nc cst cfg pod) pod) (stored_pods s)"
    and "pod_calls s' = pod_calls s @ plan_calls (rc_ops r) pod (pod_plan (rc_ops r) usage v recs nc cst cfg pod)"
    and "cy_adj cy' = cy_adj cy + of_nat (length (pod_plan (rc_ops r) usage v recs nc cst cfg pod))" and "ok s'"
    and "cy_metricsAvailable cy' = (cy_metricsAvailable cy \<and> measured usage v pod)"
proof -
  let ?plan = "pod_plan (rc_ops r) usage v recs nc cst cfg pod"
  have st: "ea_pod (eval_start pod) = pod" "ea_adj (eval_start pod) = 0" by (simp_all add: eval_start_def)
  have "stored_pods s' = put_pod (apply_plan (rc_ops r) ?plan pod) (stored_pods s) \<and> pod_calls s' = pod_calls s @ plan_calls (rc_ops r) pod ?plan
      \<and> cy_adj cy' = cy_adj cy + of_nat (length ?plan) \<and> ok s'
      \<and> cy_metricsAvailable cy' = (cy_metricsAvailable cy \<and> measured usage v pod)"
  proof (cases v)
    case True
    obtain ev s1 where f: "foldl (vpa_step (traced_rec r) pa nc cst cfg) (eval_start pod, s) recs = (ev, s1)" by fastforce
    have "stored_pods s1 = put_pod (ea_pod ev) (stored_pods s) \<and> pod_calls s1 = pod_calls s @ plan_calls (rc_ops r) pod ?plan
        \<and> ea_pod ev = apply_plan (rc_ops r) ?plan pod \<and> ea_adj ev = of_nat (length ?plan) \<and> ok s1"
      using vpa_planned.follows_plan[where ev = "eval_start pod" and s = s and xs = recs and ev' = ev and s' = s1,
          OF pod_server_axioms mode vpa_want_has, OF _ _ refl] f pod
      by (simp add: st True pod_plan_def)
    moreover have "s' = s1" "cy_adj cy' = cy_adj cy + ea_adj ev" "cy_metricsAvailable cy' = cy_metricsAvailable cy"
      using e True by (auto simp: cycle_step_def evaluateVPAPod_def f)
    ultimately show ?thesis by (simp add: measured_def True)
  next
    case False
    obtain x s1 where g: "call (GetPodMetrics (traced (rc_Client r)) (pod_Namespace pod) (pod_Name pod)) s = (x, s1)" by (metis surj_pair)
    have q: "same_pods s s1" using g by (rule reads_same)
    obtain y w' where y: "GetPodMetricsObject (rc_Client r) (pod_Namespace pod) (pod_Name pod) (fst (rs_world s)) = (y, w')" by (metis surj_pair)
    have u: "y = usage (pod_Namespace pod) (pod_Name pod)" using metrics[OF pod(1), of "pod_Namespace pod" "pod_Name pod"] y by simp
    show ?thesis
    proof (cases y)
      case (Inl err)
      then have "\<exists>e. x = Inl e" using g y by (simp add: metrics_answer[OF g y])
      then obtain e0 where x: "x = Inl e0" by blast
      have "s' = count (\<lambda>p. p\<lparr>CollectionErrors := Suc (CollectionErrors p)\<rparr>) s1" "cy_adj cy' = cy_adj cy" "\<not> cy_metricsAvailable cy'"
        using e False by (auto simp: cycle_step_def evaluatePodMetrics_def eval_start_def g x)
      moreover have "?plan = []" using False u[symmetric] by (simp add: pod_plan_def Inl)
      ultimately show ?thesis using q pod False u[symmetric] by (simp add: same_pods_def put_pod_same count_def measured_def Inl)
    next
      case (Inr ms)
      then have x: "x = Inr ms" by (simp add: metrics_answer[OF g y])
      let ?allocs = "GetCurrentAllocations (rc_ops r) pod"
      have plan: "?plan = plan (rc_ops r) (\<lambda>_. metrics_want (rc_ops r) nc cst cfg ?allocs) pod ms"
        using False u[symmetric] by (simp add: pod_plan_def Inr)
      obtain ev s2 where f: "foldl (metrics_step (traced_rec r) pa nc cst cfg ?allocs) (eval_start pod, s1) ms = (ev, s2)" by fastforce
      have has: "has_container rec p" if "map ct_Name (pod_Containers p) = map ct_Name (pod_Containers pod)"
          "metrics_want (rc_ops r) nc cst cfg ?allocs cm = Some rec" for p cm rec
        using that by (rule metrics_want_has)
      have p1: "ok s1" "pod \<in> set (stored_pods s1)" "distinct (map key (stored_pods s1))" using q pod by (simp_all add: same_pods_def)
      have "stored_pods s2 = put_pod (ea_pod ev) (stored_pods s1) \<and> pod_calls s2 = pod_calls s1 @ plan_calls (rc_ops r) pod ?plan
          \<and> ea_pod ev = apply_plan (rc_ops r) ?plan pod \<and> ea_adj ev = of_nat (length ?plan) \<and> ok s2"
        using metrics_planned.follows_plan[OF pod_server_axioms mode has _ _ _ _ f] p1 by (simp add: st plan)
      moreover have "s' = s2" "cy_adj cy' = cy_adj cy + ea_adj ev" "cy_metricsAvailable cy' = cy_metricsAvailable cy"
        using e False by (auto simp: cycle_step_def evaluatePodMetrics_def g x f)
      ultimately show ?thesis using q pod(1) u[symmetric] by (simp add: same_pods_def measured_def Inr)
    qed
  qed
  then show "stored_pods s' = put_pod (apply_plan (rc_ops r) ?plan pod) (stored_pods s)"
    "pod_calls s' = pod_calls s @ plan_calls (rc_ops r) pod ?plan" "cy_adj cy' = cy_adj cy + of_nat (length ?plan)" "ok s'"
    "cy_metricsAvailable cy' = (cy_metricsAvailable cy \<and> measured usage v pod)" by blast+
qed

lemma evaluated_all:
  fixes v recs nc cst cfg
  assumes mode: "update_mode pa \<in> {''InPlace'', ''Auto''}" "\<not> sp_DryRun (pa_Spec pa)"
  defines "todo \<equiv> pod_plan (rc_ops r) usage v recs nc cst cfg"
  shows "ok s \<Longrightarrow> set pods \<subseteq> set (stored_pods s) \<Longrightarrow> distinct (map key pods) \<Longrightarrow> distinct (map key (stored_pods s))
    \<Longrightarrow> foldl (cycle_step (traced_rec r) pa v recs nc cst cfg) (cy, s) pods = (cy', s')
    \<Longrightarrow> stored_pods s' = foldl (\<lambda>P p. put_pod (apply_plan (rc_ops r) (todo p) p) P) (stored_pods s) pods
      \<and> pod_calls s' = pod_calls s @ concat (map (\<lambda>p. plan_calls (rc_ops r) p (todo p)) pods)
      \<and> cy_adj cy' = cy_adj cy + of_nat (sum_list (map (\<lambda>p. length (todo p)) pods)) \<and> ok s'
      \<and> cy_metricsAvailable cy' = (cy_metricsAvailable cy \<and> (\<forall>p\<in>set pods. measured usage v p))"
proof (induction pods arbitrary: cy s)
  case (Cons p pods)
  obtain cy1 s1 where e: "cycle_step (traced_rec r) pa v recs nc cst cfg (cy, s) p = (cy1, s1)" by fastforce
  have "p \<in> set (stored_pods s)" using Cons.prems(2) by simp
  note d = evaluated[OF mode Cons.prems(1) this Cons.prems(4) e, folded todo_def]
  have "set pods \<subseteq> set (stored_pods s1)"
  proof
    fix q assume q: "q \<in> set pods"
    then have "key q \<noteq> key (apply_plan (rc_ops r) (todo p) p)" using Cons.prems(3) by simp (metis imageI)
    then show "q \<in> set (stored_pods s1)" unfolding d(1) using q Cons.prems(2) by (intro put_pod_other) auto
  qed
  moreover have "distinct (map key (stored_pods s1))" using Cons.prems(4) by (simp add: d(1))
  ultimately show ?case using Cons.IH[of s1 cy1] Cons.prems(3,5) e d by simp
qed simp

lemma cycled:
  fixes v recs nc
  assumes mode: "update_mode pa \<in> {''InPlace'', ''Auto''}" "\<not> sp_DryRun (pa_Spec pa)"
    and pods: "ok s" "set pods \<subseteq> set (stored_pods s)" "distinct (map key pods)" "distinct (map key (stored_pods s))"
    and e: "run_cycle (traced_rec r) pa v recs nc pods s = (cy, s')"
  defines "todo \<equiv> pod_plan (rc_ops r) usage v recs nc (ToCalculatorConstraints nc DefaultConstraints) (buildCalculatorConfig pa)"
  shows "stored_pods s' = map (\<lambda>q. if q \<in> set pods then apply_plan (rc_ops r) (todo q) q else q) (stored_pods s)"
    and "pod_calls s' = pod_calls s @ concat (map (\<lambda>p. plan_calls (rc_ops r) p (todo p)) pods)"
    and "cy_adj cy = of_nat (sum_list (map (\<lambda>p. length (todo p)) pods))" and "ok s'"
    and "cy_metricsAvailable cy = (\<forall>p\<in>set pods. measured usage v p)"
proof -
  let ?cst = "ToCalculatorConstraints nc DefaultConstraints" and ?cfg = "buildCalculatorConfig pa"
  let ?init = "\<lparr>cy_recs = [], cy_adj = 0, cy_metricsAvailable = True, cy_reasons = []\<rparr>"
  obtain t1 s1 where n1: "call (Now (traced (rc_Client r))) s = (t1, s1)" by (metis surj_pair)
  obtain c2 s2 where f: "foldl (cycle_step (traced_rec r) pa v recs nc ?cst ?cfg) (?init, s1) pods = (c2, s2)" by fastforce
  obtain t3 s3 where n3: "call (Now (traced (rc_Client r))) s2 = (t3, s3)" by (metis surj_pair)
  have q: "same_pods s s1" "same_pods s2 s3" using n1 n3 by (auto dest: reads_same(1))
  have c: "cy = c2" "same_pods s3 s'" using e by (auto simp: run_cycle_def Let_def n1 f n3)
  have p1: "set pods \<subseteq> set (stored_pods s1)" "distinct (map key (stored_pods s1))" "ok s1" using q(1) pods by (simp_all add: same_pods_def)
  note A = evaluated_all[OF mode p1(3,1) pods(3) p1(2) f, folded todo_def]
  have put: "foldl (\<lambda>P p. put_pod (apply_plan (rc_ops r) (todo p) p) P) (stored_pods s1) pods =
      map (\<lambda>q. if q \<in> set pods then apply_plan (rc_ops r) (todo q) q else q) (stored_pods s1)"
    by (rule put_pods[OF pods(3) p1(1,2)]) simp
  show "stored_pods s' = map (\<lambda>q. if q \<in> set pods then apply_plan (rc_ops r) (todo q) q else q) (stored_pods s)"
    "pod_calls s' = pod_calls s @ concat (map (\<lambda>p. plan_calls (rc_ops r) p (todo p)) pods)"
    "cy_adj cy = of_nat (sum_list (map (\<lambda>p. length (todo p)) pods))" "ok s'"
    "cy_metricsAvailable cy = (\<forall>p\<in>set pods. measured usage v p)"
    using A q c put pods(1) by (simp_all add: same_pods_def)
qed

end

section \<open>A reconciliation\<close>

text \<open>
  Whenever the server is healthy, the check for a VPA gives the same result and the namespace has the same bounds.
\<close>

definition steady ::
  "('w, 's, 't, 'q) reconciler \<Rightarrow> ('w \<Rightarrow> bool) \<Rightarrow> ('s, 'q) PodAutoscaler \<Rightarrow> 'q vpaCheckResult \<Rightarrow> NamespaceConstraints \<Rightarrow> bool" where
  "steady r healthy obj vres nc \<longleftrightarrow>
     (\<forall>s pa. healthy (fst (rs_world s)) \<longrightarrow> managed obj pa \<longrightarrow> fst (fst (checkVPAIntegration (traced_rec r) pa s)) = vres \<and> fst (fetch_constraints (traced_rec r) pa s) = nc)"

text \<open>What a reconciliation applies to a pod, and the pods it looks at.\<close>

definition target_plan ::
  "('w, 's, 't, 'q) reconciler \<Rightarrow> (string \<Rightarrow> string \<Rightarrow> api_error + 'q PodMetrics) \<Rightarrow> ('s, 'q) PodAutoscaler
   \<Rightarrow> 'q vpaCheckResult \<Rightarrow> NamespaceConstraints \<Rightarrow> 'q Pod \<Rightarrow> ResourceRecommendation list" where
  "target_plan r usage obj vres nc =
     pod_plan (rc_ops r) usage (uses_vpa vres) (vc_recommendations vres) nc (ToCalculatorConstraints nc DefaultConstraints)
       (buildCalculatorConfig obj)"

definition in_scope :: "(string \<Rightarrow> 't \<Rightarrow> string \<times> string \<Rightarrow> bool) \<Rightarrow> ('s, 'q) PodAutoscaler \<Rightarrow> 't \<Rightarrow> 'q Pod \<Rightarrow> bool" where
  "in_scope selected obj sel p \<longleftrightarrow> selected (pa_Namespace obj) sel (key p) \<and> running p"

text \<open>The report about pods and their plans that a status brings.\<close>

definition counts ::
  "(string \<Rightarrow> string \<Rightarrow> api_error + 'q PodMetrics) \<Rightarrow> bool \<Rightarrow> ('q Pod \<Rightarrow> ResourceRecommendation list) \<Rightarrow> 'q Pod list
   \<Rightarrow> 'q PodAutoscalerStatus \<Rightarrow> 'q PodAutoscalerStatus \<Rightarrow> bool" where
  "counts usage usingVPA todo pods st st' \<longleftrightarrow>
     st_TotalAdjustments st' = st_TotalAdjustments st + of_nat (sum_list (map (\<lambda>p. length (todo p)) pods))
   \<and> st_MonitoredPods st' = st_MonitoredPods st
   \<and> st_Phase st' = (if \<forall>p\<in>set pods. measured usage usingVPA p then ''Active'' else ''Degraded'')"

lemma checkVPA_numbers:
  "checkVPAIntegration r pa s = ((res, pa'), s') \<Longrightarrow> st_TotalAdjustments (pa_Status pa') = st_TotalAdjustments (pa_Status pa)
     \<and> st_MonitoredPods (pa_Status pa') = st_MonitoredPods (pa_Status pa)"
  by (auto simp: checkVPAIntegration_def Let_def cond_upd_def split: prod.splits if_splits option.splits bool.splits
      dest!: setCondition_cond)

context pod_store
begin

lemma managed_config: "managed obj pa \<Longrightarrow> buildCalculatorConfig pa = buildCalculatorConfig obj"
  "managed obj pa \<Longrightarrow> update_mode pa = update_mode obj" "managed obj pa \<Longrightarrow> sp_DryRun (pa_Spec pa) = sp_DryRun (pa_Spec obj)"
  "managed obj pa \<Longrightarrow> shouldHaltForVPAConflict pa vres = shouldHaltForVPAConflict obj vres"
  by (simp_all add: managed_def buildCalculatorConfig_def update_mode_def shouldHaltForVPAConflict_def)

lemma pods_reconciled:
  assumes steady: "steady r healthy obj vres nc" "\<not> shouldHaltForVPAConflict obj vres"
    and mode: "update_mode obj \<in> {''InPlace'', ''Auto''}" "\<not> sp_DryRun (pa_Spec obj)"
    and pods: "ok s" "set pods \<subseteq> set (stored_pods s)" "distinct (map key pods)" "distinct (map key (stored_pods s))"
    and pa: "managed obj pa" and e: "reconcile_pods (traced_rec r) pa pods s = (res, s')"
  shows "stored_pods s' = map (\<lambda>q. if q \<in> set pods then apply_plan (rc_ops r) (target_plan r usage obj vres nc q) q else q) (stored_pods s)"
    and "pod_calls s' = pod_calls s @ concat (map (\<lambda>p. plan_calls (rc_ops r) p (target_plan r usage obj vres nc p)) pods)"
    and "ok s'"
    and "\<exists>pa'. tr s' = tr s @ concat (map (\<lambda>p. plan_calls (rc_ops r) p (target_plan r usage obj vres nc p)) pods) @ [StatusCall pa']
      \<and> counts usage (uses_vpa vres) (target_plan r usage obj vres nc) pods (pa_Status pa) (pa_Status pa')"
proof -
  obtain vr pa1 s1 where c: "checkVPAIntegration (traced_rec r) pa s = ((vr, pa1), s1)" by (metis surj_pair)
  note k1 = object_same(2)[OF c pa pods(1)]
  have vr: "vr = vres" using steady(1)[unfolded steady_def, rule_format, OF pods(1) pa] c by simp
  let ?p = "upd_status (st_VPAStatus_update (\<lambda>_. vc_status vres)) pa1"
  have p: "managed obj ?p" using k1 by simp
  have h: "\<not> shouldHaltForVPAConflict ?p vres" using managed_config(4)[OF p] steady(2) by simp
  obtain nc' s2 where f: "fetch_constraints (traced_rec r) ?p s1 = (nc', s2)" by (metis surj_pair)
  have nc: "nc' = nc" using steady(1)[unfolded steady_def, rule_format, OF same_pods_ok[OF conjunct1[OF k1] pods(1)] p] f by simp
  let ?q = "cycle_object (rc_ops r) vres nc pa1"
  have q: "managed obj ?q" using k1 by (simp add: cycle_object_def)
  obtain cy s3 where run: "run_cycle (traced_rec r) ?q (uses_vpa vres) (vc_recommendations vres) nc pods s2 = (cy, s3)" by (metis surj_pair)
  obtain d err where res: "res = (d, err)" by (cases res)
  have fin: "finish_cycle (traced_rec r) ?q (uses_vpa vres) cy s3 = ((d, err), s')"
    using e by (simp only: reconcile_pods_def c Let_def prod.case vr h if_False f nc traced_rec_simps res run flip: cycle_object_def uses_vpa_def)
  have "same_pods s s2" using k1 reads_same(4)[OF f] by (auto intro: same_pods_trans)
  then have s2: "stored_pods s2 = stored_pods s" "pod_calls s2 = pod_calls s" "ok s2" using pods(1) by (simp_all add: same_pods_def)
  have m: "update_mode ?q \<in> {''InPlace'', ''Auto''}" "\<not> sp_DryRun (pa_Spec ?q)" using managed_config(2,3)[OF q] mode by simp_all
  note C = cycled[OF m s2(3) pods(2-4)[folded s2(1)] run]
  have s': "stored_pods s' = stored_pods s3" "pod_calls s' = pod_calls s3" "ok s'"
    using object_same(4)[OF fin q] C(4) by (simp_all add: same_pods_def)
  have t: "pod_plan (rc_ops r) usage (uses_vpa vres) (vc_recommendations vres) nc (ToCalculatorConstraints nc DefaultConstraints)
      (buildCalculatorConfig ?q) = target_plan r usage obj vres nc"
    by (simp add: target_plan_def managed_config(1)[OF q])
  show "stored_pods s' = map (\<lambda>q. if q \<in> set pods then apply_plan (rc_ops r) (target_plan r usage obj vres nc q) q else q) (stored_pods s)"
    "pod_calls s' = pod_calls s @ concat (map (\<lambda>p. plan_calls (rc_ops r) p (target_plan r usage obj vres nc p)) pods)"
    using C(1,2) unfolding t s2 s' by simp_all
  then have calls: "pod_calls s' = pod_calls s @ concat (map (\<lambda>p. plan_calls (rc_ops r) p (target_plan r usage obj vres nc p)) pods)" by simp
  show "ok s'" by (rule s'(3))
  have h0: "\<not> shouldHaltForVPAConflict pa vres" using managed_config(4)[OF pa] steady(2) by simp
  obtain new pa' where N: "tr s' = tr s @ new @ [StatusCall pa']" "list_all (permitted pa) new" "reports ?q cy pa'"
    using reconcile_cycle[OF c[unfolded vr] h0 f[unfolded nc] run e] by blast
  have "filter touches_pod new = new" using N(2) by (intro filter_True) (auto simp: list_all_iff permitted_def touches_pod_def)
  then have "new = concat (map (\<lambda>p. plan_calls (rc_ops r) p (target_plan r usage obj vres nc p)) pods)" using calls N(1) by simp
  moreover have "counts usage (uses_vpa vres) (target_plan r usage obj vres nc) pods (pa_Status pa) (pa_Status pa')"
    using N(3) C(3,5) checkVPA_numbers[OF c] unfolding t
    by (simp add: reports_def counts_def Let_def cycle_object_def)
  ultimately show "\<exists>pa'. tr s' = tr s @ concat (map (\<lambda>p. plan_calls (rc_ops r) p (target_plan r usage obj vres nc p)) pods) @ [StatusCall pa']
      \<and> counts usage (uses_vpa vres) (target_plan r usage obj vres nc) pods (pa_Status pa) (pa_Status pa')"
    using N(1) by blast
qed

lemma finalizer_kept:
  assumes "handleFinalizer (traced_rec r) pa s = (((stop, err), pa'), s')" "managed obj pa" "ok s"
  shows "\<not> stop \<and> managed obj pa' \<and> same_pods s s'"
proof (cases "ContainsFinalizer (rc_Client r) (pa_Finalizers pa) finalizerName")
  case True
  then show ?thesis using assms by (auto simp: handleFinalizer_def managed_def)
next
  case False
  let ?q = "pa\<lparr>pa_Finalizers := AddFinalizer (rc_Client r) (pa_Finalizers pa) finalizerName\<rparr>"
  obtain x s1 where u: "call (UpdatePodAutoscaler (traced (rc_Client r)) ?q) s = (x, s1)" by (metis surj_pair)
  have "same_pods s s1"
    using object_inv.update_keeps(1)[where pa = pa, OF frame_at[of s]] u assms(2) by (simp add: same_pods_def intact_def)
  moreover obtain pa1 where "x = Inr pa1" "managed obj pa1"
    using accepted[OF assms(3), of ?q] u assms(2) by (auto simp: call_def traced_def logged_def split: prod.splits)
  ultimately show ?thesis using assms False u by (auto simp: handleFinalizer_def managed_def)
qed

lemma discovered:
  assumes "discoverRunningPods (traced_rec r) pa s = ((x, pa'), s')" "managed obj pa" "ok s"
    and "LabelSelectorAsSelector (rc_Client r) (sp_Selector (pa_Spec obj)) = Inr sel"
  shows "x = Inr (filter (in_scope selected obj sel) (stored_pods s)) \<and> pa' = pa \<and> same_pods s s'"
proof -
  obtain y s1 where l: "call (ListPods (traced (rc_Client r)) (pa_Namespace obj) sel) s = (y, s1)" by (metis surj_pair)
  have "y = Inr (filter (\<lambda>p. selected (pa_Namespace obj) sel (key p)) (stored_pods s))"
    using l list_pods[OF assms(3), of "pa_Namespace obj" sel] by (auto simp: call_def traced_def untraced_def split: prod.splits)
  moreover have "same_pods s s1"
    using l calls_same(11)[OF assms(3), where n = "pa_Namespace obj" and sel = sel]
    by (auto simp: same_pods_def intact_def call_def split: prod.splits)
  moreover have "filterRunningPods (filter (\<lambda>p. selected (pa_Namespace obj) sel (key p)) P) = filter (in_scope selected obj sel) P" for P
    by (auto simp: filterRunningPods_def in_scope_def intro: filter_cong)
  ultimately show ?thesis
    using assms l by (auto simp: discoverRunningPods_def managed_def)
qed

lemma reconciled:
  assumes e: "Reconcile (traced_rec r) ns name s = (res, s')"
    and steady: "steady r healthy obj vres nc" "\<not> shouldHaltForVPAConflict obj vres"
    and mode: "update_mode obj \<in> {''InPlace'', ''Auto''}" "\<not> sp_DryRun (pa_Spec obj)"
    and sel: "LabelSelectorAsSelector (rc_Client r) (sp_Selector (pa_Spec obj)) = Inr sel"
    and ok: "ok s" and dist: "distinct (map key (stored_pods s))"
  shows "stored_pods s' = map (\<lambda>p. if in_scope selected obj sel p then apply_plan (rc_ops r) (target_plan r usage obj vres nc p) p else p)
      (stored_pods s)"
    and "pod_calls s' = pod_calls s @
      concat (map (\<lambda>p. plan_calls (rc_ops r) p (target_plan r usage obj vres nc p)) (filter (in_scope selected obj sel) (stored_pods s)))"
    and "ok s'"
proof -
  let ?todo = "target_plan r usage obj vres nc"
  define pods where "pods = filter (in_scope selected obj sel) (stored_pods s)"
  obtain x s1 where g: "call (GetPodAutoscaler (traced (rc_Client r)) ns name) s = (x, s1)" by (metis surj_pair)
  obtain pa where pa: "x = Inr pa" "managed obj pa"
    using object[OF ok] g by (auto simp: call_def traced_def untraced_def split: prod.splits)
  obtain stop fErr pa2 s2 where f: "handleFinalizer (traced_rec r) pa s1 = (((stop, fErr), pa2), s2)" by (metis surj_pair)
  have ok1: "ok s1" using same_pods_ok[OF reads_same(3)[OF g] ok] .
  note F = finalizer_kept[OF f pa(2) ok1]
  obtain y pa3 s3 where d: "discoverRunningPods (traced_rec r) pa2 s2 = ((y, pa3), s3)" by (metis surj_pair)
  have q2: "same_pods s s2" using reads_same(3)[OF g] F by (auto intro: same_pods_trans)
  then have "pods = filter (in_scope selected obj sel) (stored_pods s2)" using ok by (simp add: pods_def same_pods_def)
  note D = discovered[OF d conjunct1[OF conjunct2[OF F]] same_pods_ok[OF q2 ok] sel, folded this]
  define q where "q = upd_status (st_MonitoredPods_update (\<lambda>_. word_of_nat (length pods))) pa3"
  define s4 where "s4 = count (\<lambda>p. p\<lparr>PodsMonitored := lit (of_nat (length pods))\<rparr>) s3"
  have q: "managed obj q" using D F by (simp add: q_def)
  have q4: "same_pods s s4" using q2 D unfolding s4_def by (auto intro: same_pods_trans)
  have "stored_pods s' = map (\<lambda>p. if p \<in> set pods then apply_plan (rc_ops r) (?todo p) p else p) (stored_pods s)
      \<and> pod_calls s' = pod_calls s @ concat (map (\<lambda>p. plan_calls (rc_ops r) p (?todo p)) pods) \<and> ok s'"
  proof (cases "pods = []")
    case True
    define q2 where "q2 = upd_status (st_Phase_update (\<lambda>_. PhasePending)) q"
    obtain p5 s5 where c: "setCondition (traced_rec r) q2 ''Ready'' ConditionFalse ''NoPodsFound'' ''No running pods match the selector'' s4 = (p5, s5)"
      by (metis surj_pair)
    obtain p6 s6 where u: "status_update_ignored (traced_rec r) p5 s5 = (p6, s6)" by (metis surj_pair)
    have y: "y = Inr []" using D True by simp
    have "stop = False" using F by simp
    then have "s' = s6" using e g
      by (simp only: Reconcile_def f d pa(1) bool.case prod.case sum.case Let_def if_True simp_thms y traced_rec_simps
          s4_def[symmetric, unfolded True] q2_def[symmetric, unfolded q_def True] c u prod.inject)
    moreover have "managed obj q2" using q by (simp add: q2_def)
    then have "same_pods s4 s5" "same_pods s5 s6" using object_same(1)[OF c _ same_pods_ok[OF q4 ok]] object_same(3)[OF u] by blast+
    ultimately have "same_pods s s'" using q4 by (auto intro: same_pods_trans)
    then show ?thesis using ok by (simp add: True same_pods_def)
  next
    case False
    have "reconcile_pods (traced_rec r) q pods s4 = (res, s')"
      using e g f d pa(1) False F D by (simp add: Reconcile_def q_def s4_def)
    moreover have "set pods \<subseteq> set (stored_pods s)" "distinct (map key pods)"
      using dist by (auto simp: pods_def distinct_map_filter)
    moreover have st: "stored_pods s4 = stored_pods s" "pod_calls s4 = pod_calls s" "ok s4" using q4 ok by (simp_all add: same_pods_def)
    ultimately show ?thesis
      using pods_reconciled[OF steady mode st(3) _ _ _ q, of pods res s'] dist unfolding st(1,2) by blast
  qed
  then show "stored_pods s' = map (\<lambda>p. if in_scope selected obj sel p then apply_plan (rc_ops r) (?todo p) p else p) (stored_pods s)"
    "pod_calls s' = pod_calls s @ concat (map (\<lambda>p. plan_calls (rc_ops r) p (?todo p)) (filter (in_scope selected obj sel) (stored_pods s)))" "ok s'"
    by (simp_all add: pods_def)
qed

end

section \<open>A server that stores pods\<close>

text \<open>
  One object, whose finalizers and status can be written, and the pods; a label selector is the predicate
  on namespaces and names that it stands for.
\<close>

type_synonym pod_world = "string list \<times> int PodAutoscalerStatus \<times> int Pod list"

definition world_object :: "(string, int) PodAutoscaler \<Rightarrow> pod_world \<Rightarrow> (string, int) PodAutoscaler" where
  "world_object obj w = obj\<lparr>pa_Finalizers := fst w, pa_Status := fst (snd w)\<rparr>"

definition pod_cluster ::
  "(string, int) PodAutoscaler \<Rightarrow> (string \<times> string \<Rightarrow> bool) \<Rightarrow> (string \<Rightarrow> string \<Rightarrow> api_error + int PodMetrics)
   \<Rightarrow> (pod_world, string, string \<times> string \<Rightarrow> bool, int) cluster" where
  "pod_cluster obj labelled usage =
     \<lparr>GetPodAutoscaler = (\<lambda>ns name w. (Inr (world_object obj w), w)),
      UpdatePodAutoscaler = (\<lambda>p w. let w' = (pa_Finalizers p, snd w) in (Inr (world_object obj w'), w')),
      UpdateStatus = (\<lambda>p w. let w' = (fst w, pa_Status p, snd (snd w)) in (Inr (world_object obj w'), w')),
      ListPods = (\<lambda>ns sel w. (Inr (filter (\<lambda>p. fst (key p) = ns \<and> sel (key p)) (snd (snd w))), w)),
      PatchPod = (\<lambda>base p w. (Inr p, (fst w, fst (snd w), put_pod p (snd (snd w))))),
      EvictPod = (\<lambda>ns name w. (None, (fst w, fst (snd w), filter (\<lambda>p. key p \<noteq> (ns, name)) (snd (snd w))))),
      GetPodMetricsObject = (\<lambda>ns name w. (usage ns name, w)),
      ListLimitRanges = (\<lambda>ns w. (Inr [], w)), ListResourceQuotas = (\<lambda>ns w. (Inr [], w)),
      ListVPAsLimit = (\<lambda>n w. (Inr [], w)), ListVPAs = (\<lambda>ns w. (Inr [], w)),
      GetVPAObject = (\<lambda>ns name w. (Inl \<lparr>ae_text = ''not found'', ae_not_found = True\<rparr>, w)),
      Now = (\<lambda>w. (0, w)),
      LabelSelectorAsSelector = (\<lambda>s. Inr labelled),
      ContainsFinalizer = (\<lambda>fs f. f \<in> set fs), AddFinalizer = (\<lambda>fs f. if f \<in> set fs then fs else fs @ [f]),
      RemoveFinalizer = (\<lambda>fs f. removeAll f fs)\<rparr>"

text \<open>The same server with an outage first: as many calls time out as the counter says.\<close>

definition outage :: api_error where
  "outage = \<lparr>ae_text = ''timeout'', ae_not_found = False\<rparr>"

definition flaky :: "('w \<Rightarrow> (api_error + 'a) \<times> 'w) \<Rightarrow> nat \<times> 'w \<Rightarrow> (api_error + 'a) \<times> (nat \<times> 'w)" where
  "flaky f w = (if fst w = 0 then apsnd (Pair 0) (f (snd w)) else (Inl outage, (fst w - 1, snd w)))"

definition flaky_cluster :: "('w, 's, 't, 'q) cluster \<Rightarrow> (nat \<times> 'w, 's, 't, 'q) cluster" where
  "flaky_cluster cl =
     \<lparr>GetPodAutoscaler = (\<lambda>ns name. flaky (GetPodAutoscaler cl ns name)),
      UpdatePodAutoscaler = (\<lambda>p. flaky (UpdatePodAutoscaler cl p)), UpdateStatus = (\<lambda>p. flaky (UpdateStatus cl p)),
      ListPods = (\<lambda>ns sel. flaky (ListPods cl ns sel)), PatchPod = (\<lambda>base p. flaky (PatchPod cl base p)),
      EvictPod = (\<lambda>ns name w. if fst w = 0 then apsnd (Pair 0) (EvictPod cl ns name (snd w)) else (Some outage, (fst w - 1, snd w))),
      GetPodMetricsObject = (\<lambda>ns name. flaky (GetPodMetricsObject cl ns name)),
      ListLimitRanges = (\<lambda>ns. flaky (ListLimitRanges cl ns)), ListResourceQuotas = (\<lambda>ns. flaky (ListResourceQuotas cl ns)),
      ListVPAsLimit = (\<lambda>n. flaky (ListVPAsLimit cl n)), ListVPAs = (\<lambda>ns. flaky (ListVPAs cl ns)),
      GetVPAObject = (\<lambda>ns name. flaky (GetVPAObject cl ns name)),
      Now = (\<lambda>w. apsnd (Pair (fst w)) (Now cl (snd w))),
      LabelSelectorAsSelector = LabelSelectorAsSelector cl, ContainsFinalizer = ContainsFinalizer cl,
      AddFinalizer = AddFinalizer cl, RemoveFinalizer = RemoveFinalizer cl\<rparr>"

abbreviation up :: "nat \<times> pod_world \<Rightarrow> bool" where "up w \<equiv> fst w = 0"

abbreviation world_pods :: "nat \<times> pod_world \<Rightarrow> int Pod list" where "world_pods w \<equiv> snd (snd (snd w))"

definition pod_reconciler ::
  "(string, int) PodAutoscaler \<Rightarrow> (string \<times> string \<Rightarrow> bool) \<Rightarrow> (string \<Rightarrow> string \<Rightarrow> api_error + int PodMetrics)
   \<Rightarrow> (nat \<times> pod_world, string, string \<times> string \<Rightarrow> bool, int) reconciler" where
  "pod_reconciler obj labelled usage =
     \<lparr>rc_Client = flaky_cluster (pod_cluster obj labelled usage), rc_ops = milli_ops, rc_uops = plain_unstructured,
      rc_VPAClient = False, rc_NamespaceLimitsFetcher = True\<rparr>"

abbreviation pods_in_namespace :: "string \<Rightarrow> (string \<times> string \<Rightarrow> bool) \<Rightarrow> string \<times> string \<Rightarrow> bool" where
  "pods_in_namespace ns sel k \<equiv> fst k = ns \<and> sel k"

abbreviation live_object :: "(string, int) PodAutoscaler \<Rightarrow> (string, int) PodAutoscaler" where
  "live_object obj \<equiv> obj\<lparr>pa_Deleting := False\<rparr>"

lemma live_managed: "managed (live_object obj) (world_object (live_object obj) w)"
  by (simp add: managed_def world_object_def)

lemmas pod_reconciler_defs = pod_reconciler_def flaky_cluster_def pod_cluster_def flaky_def Let_def

interpretation servers: pod_server "pod_reconciler obj labelled usage" world_pods up pods_in_namespace for obj labelled usage
  by unfold_locales (auto simp: pod_reconciler_defs intact_def)

interpretation stores: pod_store "pod_reconciler (live_object obj) labelled usage" world_pods up pods_in_namespace usage
    "pa_Namespace obj" "pa_Name obj" "live_object obj" for obj labelled usage
  by unfold_locales (use live_managed in \<open>auto simp: pod_reconciler_defs\<close>)

interpretation store_reads: read_inv "pod_reconciler obj labelled usage" "\<lambda>w. world_pods w = P" for obj labelled usage P
  by unfold_locales (simp_all add: pod_reconciler_defs)

interpretation store_objects: object_inv "pod_reconciler obj labelled usage" "\<lambda>w. world_pods w = P" "\<lambda>pa. True" "\<lambda>pa. True"
    for obj labelled usage P
  by unfold_locales (auto simp: pod_reconciler_defs split: if_splits)

section \<open>The pods after a reconciliation\<close>

text \<open>
  C6. In the modes \<^verbatim>\<open>InPlace\<close> and \<^verbatim>\<open>Auto\<close>, without dry-run and without a VPA conflict that halts, a reconciliation of a
  live object on a healthy server, with a steady VPA and steady bounds of the namespace, refines the update of a store of pods, whatever happened before: every
  running pod of the selection becomes what applying its plan makes of it (the significant
  recommendations for its containers, after the namespace's bounds, in order), every other pod stays
  as it is, and the calls that touch pods are exactly the patches of the plans, each from the pod as
  it was stored.
\<close>

theorem Reconcile_implements_plans:
  assumes "pod_store r pods_of healthy selected usage ns name obj"
    and "steady r healthy obj vres nc" and "\<not> shouldHaltForVPAConflict obj vres"
    and "update_mode obj \<in> {''InPlace'', ''Auto''}" and "\<not> sp_DryRun (pa_Spec obj)"
    and "LabelSelectorAsSelector (rc_Client r) (sp_Selector (pa_Spec obj)) = Inr sel"
    and "healthy (fst (rs_world s))" and "distinct (map key (pods_of (fst (rs_world s))))"
    and "Reconcile (traced_rec r) ns name s = (res, s')"
  shows "pods_of (fst (rs_world s')) =
      map (\<lambda>p. if in_scope selected obj sel p then apply_plan (rc_ops r) (target_plan r usage obj vres nc p) p else p)
        (pods_of (fst (rs_world s)))
    \<and> filter touches_pod (tr s') = filter touches_pod (tr s) @
        concat (map (\<lambda>p. plan_calls (rc_ops r) p (target_plan r usage obj vres nc p))
          (filter (in_scope selected obj sel) (pods_of (fst (rs_world s)))))
    \<and> healthy (fst (rs_world s'))"
  using pod_store.reconciled[OF assms(1,9,2-8)] by blast

text \<open>Two pods of the name \<open>web-1\<close> in two namespaces.\<close>

definition sample_usage_server :: "string \<Rightarrow> string \<Rightarrow> api_error + int PodMetrics" where
  "sample_usage_server ns name = Inr [sample_metrics]"

abbreviation no_vpa :: "int vpaCheckResult" where
  "no_vpa \<equiv> \<lparr>vc_status = None, vc_recommendations = []\<rparr>"

lemma live_sample [simp]: "live_object (sample_pa mode b) = sample_pa mode b"
  by (simp add: sample_pa_def)

lemma sample_steady: "steady (pod_reconciler obj labelled usage) up obj no_vpa EmptyConstraints"
  by (auto simp: steady_def checkVPAIntegration_def fetch_constraints_def call_def GetNamespaceConstraints_def traced_def untraced_def
      pod_reconciler_defs split: prod.splits)

lemma no_vpa_plan:
  "target_plan r usage obj no_vpa nc p = (case usage (pod_Namespace p) (pod_Name p) of Inl err \<Rightarrow> []
     | Inr ms \<Rightarrow> plan (rc_ops r) (\<lambda>_. metrics_want (rc_ops r) nc (ToCalculatorConstraints nc DefaultConstraints) (buildCalculatorConfig obj)
         (GetCurrentAllocations (rc_ops r) p)) p ms)"
  by (simp add: target_plan_def pod_plan_def uses_vpa_def split: sum.split)

lemma unbounded_constraints: "ToCalculatorConstraints EmptyConstraints DefaultConstraints = DefaultConstraints"
  by (simp add: ToCalculatorConstraints_def tighten_def EmptyConstraints_def DefaultConstraints_def MaxFloat64_def Let_def float_eval)

lemma sample_plan:
  "target_plan (pod_reconciler obj labelled sample_usage_server) sample_usage_server (sample_pa ''InPlace'' False) no_vpa EmptyConstraints sample_pod = [sample_rec]"
proof -
  have cf: "buildCalculatorConfig (sample_pa ''InPlace'' False) = DefaultConfig"
    by (simp add: buildCalculatorConfig_def sample_pa_def sample_spec_def)
  have al: "GetCurrentAllocations milli_ops sample_pod ''app'' = Some (container_resources milli_ops (hd (pod_Containers sample_pod)))"
    by (simp add: GetCurrentAllocations_def sample_pod_def)
  have a: "allocation_of ''app'' (container_resources milli_ops (hd (pod_Containers sample_pod))) = sample_alloc"
    by (simp add: allocation_of_def container_resources_def amount_def sample_pod_def milli_ops_def sample_alloc_def)
  have nm: "cm_Name sample_metrics = ''app''" by (simp add: sample_metrics_def)
  have k: "fst (clamp_to_namespace EmptyConstraints sample_rec) = sample_rec" "rr_SignificantVariance sample_rec"
    by (simp_all add: clamp_to_namespace_def EmptyConstraints_def sample_rec_def)
  have "metrics_want milli_ops EmptyConstraints DefaultConstraints DefaultConfig (GetCurrentAllocations milli_ops sample_pod) sample_metrics
      = Some sample_rec"
    using al a k by (simp add: metrics_want_def nm sample_metrics_usage sample_Calculate)
  then show ?thesis
    by (simp add: no_vpa_plan sample_usage_server_def unbounded_constraints cf pod_reconciler_def)
qed

abbreviation sample_start :: "((nat \<times> pod_world) \<times> (string, int) call list) rstate" where
  "sample_start \<equiv> start ((0, [], empty_status, [sample_pod, sample_pod\<lparr>pod_Namespace := ''test''\<rparr>]), [])"

abbreviation labelled_web :: "string \<times> string \<Rightarrow> bool" where
  "labelled_web k \<equiv> snd k = ''web-1''"

lemma sample_server:
  "pod_store (pod_reconciler (sample_pa ''InPlace'' False) labelled_web sample_usage_server) world_pods up pods_in_namespace
     sample_usage_server ''prod'' ''web'' (sample_pa ''InPlace'' False)"
  using stores.pod_store_axioms[of "sample_pa ''InPlace'' False" labelled_web sample_usage_server] by (simp add: sample_pa_def)

lemma sample_cycle:
  "\<not> shouldHaltForVPAConflict (sample_pa ''InPlace'' False) no_vpa"
  "update_mode (sample_pa ''InPlace'' False) \<in> {''InPlace'', ''Auto''}" "\<not> sp_DryRun (pa_Spec (sample_pa ''InPlace'' False))"
  "LabelSelectorAsSelector (rc_Client (pod_reconciler obj labelled_web u)) l = Inr labelled_web"
  "world_pods (fst (rs_world sample_start)) = [sample_pod, sample_pod\<lparr>pod_Namespace := ''test''\<rparr>]" "tr sample_start = []"
  "distinct (map key (world_pods (fst (rs_world sample_start))))" "up (fst (rs_world sample_start))"
  "in_scope pods_in_namespace (sample_pa ''InPlace'' False) labelled_web sample_pod"
  "\<not> in_scope pods_in_namespace (sample_pa ''InPlace'' False) labelled_web (sample_pod\<lparr>pod_Namespace := ''test''\<rparr>)"
  "rc_ops (pod_reconciler obj labelled_web u) = milli_ops"
  by (simp_all add: shouldHaltForVPAConflict_def update_mode_def sample_spec_def pod_reconciler_defs start_def key_def
      sample_pod_def in_scope_def) (simp_all add: sample_pa_def sample_spec_def)

theorem Reconcile_implements_plans_witness:
  "\<exists>res s'. Reconcile (traced_rec (pod_reconciler (sample_pa ''InPlace'' False) labelled_web sample_usage_server)) ''prod'' ''web'' sample_start
       = (res, s')
     \<and> world_pods (fst (rs_world s')) = [resized milli_ops sample_rec sample_pod, sample_pod\<lparr>pod_Namespace := ''test''\<rparr>]
     \<and> filter touches_pod (tr s') = [PatchCall sample_pod (resized milli_ops sample_rec sample_pod)]"
proof -
  let ?r = "pod_reconciler (sample_pa ''InPlace'' False) labelled_web sample_usage_server"
  obtain res s' where e: "Reconcile (traced_rec ?r) ''prod'' ''web'' sample_start = (res, s')" by (metis surj_pair)
  note R = Reconcile_implements_plans[OF sample_server sample_steady sample_cycle(1-4,8,7) e, unfolded sample_cycle(5,6,11)]
  have "world_pods (fst (rs_world s')) = [resized milli_ops sample_rec sample_pod, sample_pod\<lparr>pod_Namespace := ''test''\<rparr>]"
    using conjunct1[OF R] by (simp add: sample_plan sample_cycle(9,10))
  moreover have "filter touches_pod (tr s') = [PatchCall sample_pod (resized milli_ops sample_rec sample_pod)]"
    using conjunct1[OF conjunct2[OF R]] by (simp add: sample_plan sample_cycle(9,10))
  ultimately show ?thesis using e by blast
qed

end
