(* ===== verification/Convergence.thy ===== *)
theory Convergence
  imports PodCycle
begin

text \<open>
  After one reconciliation nothing is left to do: applying a plan leaves pods whose plan is empty,
  although resizes write whole millicores and bytes, so later reconciliations touch no pod.
\<close>

section \<open>Allocations of a pod whose plan has been applied\<close>

lemma apply_plan_allocations:
  assumes "distinct (map ct_Name (pod_Containers pod))" "\<forall>rec\<in>set recs. has_container rec pod"
  shows "GetCurrentAllocations ops (apply_plan ops recs pod) =
    foldl (\<lambda>m rec. m(rr_ContainerName rec \<mapsto> set_allocation ops rec)) (GetCurrentAllocations ops pod) recs"
  using assms
proof (induction recs arbitrary: pod)
  case (Cons rec recs)
  have "\<forall>x\<in>set recs. has_container x (resized ops rec pod)" using Cons.prems(2) by (simp add: has_container_names)
  then show ?case using Cons resized_allocations[OF Cons.prems(1), of ops rec] by simp
qed simp

lemma foldl_upd_other: "k \<notin> g ` set xs \<Longrightarrow> foldl (\<lambda>m x. m(g x \<mapsto> f x)) m xs k = m k"
  by (induction xs arbitrary: m) auto

lemma foldl_upd_same: "distinct (map g xs) \<Longrightarrow> x \<in> set xs \<Longrightarrow> foldl (\<lambda>m x. m(g x \<mapsto> f x)) m xs (g x) = Some (f x)"
  by (induction xs arbitrary: m) (auto simp: foldl_upd_other)

lemma apply_plan_other:
  assumes "distinct (map ct_Name (pod_Containers pod))" "\<forall>rec\<in>set recs. has_container rec pod" "n \<notin> rr_ContainerName ` set recs"
  shows "GetCurrentAllocations ops (apply_plan ops recs pod) n = GetCurrentAllocations ops pod n"
  unfolding apply_plan_allocations[OF assms(1,2)] by (rule foldl_upd_other[OF assms(3)])

lemma apply_plan_same:
  assumes "distinct (map ct_Name (pod_Containers pod))" "\<forall>rec\<in>set recs. has_container rec pod"
    and "distinct (map rr_ContainerName recs)" "rec \<in> set recs"
  shows "GetCurrentAllocations ops (apply_plan ops recs pod) (rr_ContainerName rec) = Some (set_allocation ops rec)"
  unfolding apply_plan_allocations[OF assms(1,2)] by (rule foldl_upd_same[OF assms(3,4)])

lemma plan_nothing: "\<forall>x\<in>set xs. want pod x = None \<Longrightarrow> plan ops want pod xs = []"
  by (induction xs) simp_all

section \<open>Plans from metrics\<close>

text \<open>A recommendation that has been written is not significant for the allocation it is read back as.\<close>

lemma written_insignificant:
  assumes "Calculate (usage_of ops cm) a (buildCalculatorConfig pa) DefaultConstraints = Inr rec"
    and "accurate ops" and "usage_ok (usage_of ops cm)" and "coarse_threshold pa"
  shows "\<exists>rec'. Calculate (usage_of ops cm) (allocation_of n (set_allocation ops rec)) (buildCalculatorConfig pa) DefaultConstraints = Inr rec'
    \<and> \<not> rr_SignificantVariance rec'"
proof -
  note B = Calculate_bounds[OF assms(3) config_of_spec_ok DefaultConstraints_ok assms(1), unfolded default_bounds]
  have "usual rec"
    using B(1,3,5,8) f_le_trans[OF B(6,7)] f_le_trans[OF B(9,10)] by (simp add: usual_def)
  note no = readback_variance[OF this assms(2), THEN below_threshold[OF assms(4)]]
  from Calculate_other[OF assms(1), of "allocation_of n (set_allocation ops rec)"] no show ?thesis
    by (simp add: allocation_of_def)
qed

lemma plan_constant_set: "rec \<in> set (plan ops (\<lambda>_. f) pod xs) \<longleftrightarrow> (\<exists>x\<in>set xs. f x = Some rec)"
  by (induction xs arbitrary: pod) (auto split: option.split)

lemma plan_constant_distinct:
  assumes "distinct (map g xs)" "\<And>x rec. f x = Some rec \<Longrightarrow> h rec = g x"
  shows "distinct (map h (plan ops (\<lambda>_. f) pod xs))"
  using assms(1)
proof (induction xs arbitrary: pod)
  case (Cons x xs)
  have "h rec \<notin> h ` set (plan ops (\<lambda>_. f) p xs)" if "f x = Some rec" for rec p
    using Cons.prems assms(2) that by (auto simp: plan_constant_set)
  then show ?case using Cons by (auto split: option.split)
qed simp

lemma metrics_settled:
  assumes "distinct (map ct_Name (pod_Containers pod))" and "distinct (map cm_Name ms)"
    and "accurate ops" and "\<forall>cm\<in>set ms. usage_ok (usage_of ops cm)" and "coarse_threshold obj"
    and "\<not> nc_LimitRangeFound nc" and "\<not> nc_ResourceQuotaFound nc"
  defines "want \<equiv> \<lambda>p. metrics_want ops nc DefaultConstraints (buildCalculatorConfig obj) (GetCurrentAllocations ops p)"
  defines "pod' \<equiv> apply_plan ops (plan ops (\<lambda>_. want pod) pod ms) pod"
  shows "plan ops (\<lambda>_. want pod') pod' ms = []"
proof (rule plan_nothing, rule ballI)
  fix cm assume cm: "cm \<in> set ms"
  let ?recs = "plan ops (\<lambda>_. want pod) pod ms" and ?cfg = "buildCalculatorConfig obj"
  have name: "rr_ContainerName rec = cm_Name x" if "want pod x = Some rec" for x rec
    using metrics_want_name that unfolding want_def by blast
  have has: "\<forall>rec\<in>set ?recs. has_container rec pod"
    using metrics_want_has[OF refl] by (auto simp: plan_constant_set want_def)
  have dist: "distinct (map rr_ContainerName ?recs)" by (rule plan_constant_distinct[OF assms(2) name])
  show "want pod' cm = None"
  proof (cases "want pod cm")
    case None
    have "cm_Name cm \<notin> rr_ContainerName ` set ?recs"
    proof
      assume "cm_Name cm \<in> rr_ContainerName ` set ?recs"
      then obtain x rec where x: "x \<in> set ms" "want pod x = Some rec" "cm_Name cm = rr_ContainerName rec" by (auto simp: plan_constant_set)
      then have "x = cm" using name[OF x(2)] cm assms(2) by (auto simp: distinct_map dest: inj_onD)
      then show False using x(2) None by simp
    qed
    note al = apply_plan_other[OF assms(1) has this, of ops, folded pod'_def]
    show ?thesis using None unfolding want_def metrics_want_def al .
  next
    case (Some rec)
    then have r: "rec \<in> set ?recs" using cm by (auto simp: plan_constant_set)
    have al: "GetCurrentAllocations ops pod' (cm_Name cm) = Some (set_allocation ops rec)"
      using apply_plan_same[OF assms(1) has dist r, of ops] by (simp add: pod'_def name[OF Some])
    obtain a rec0 where c: "Calculate (usage_of ops cm) a ?cfg DefaultConstraints = Inr rec0" "rec = rec0"
      using Some assms(6,7) by (auto simp: want_def metrics_want_def clamp_to_namespace_def split: option.splits sum.splits if_splits)
    show ?thesis
      using written_insignificant[OF c(1) assms(3) _ assms(5), of "cm_Name cm"] assms(4) cm
      by (auto simp: want_def metrics_want_def al c(2))
  qed
qed

section \<open>Plans from a VPA\<close>

lemma vpa_rec_name: "rr_ContainerName (fst (clamp_to_namespace nc (vpaRecommendationToCalculatorRec ops v cst))) = vcr_ContainerName v"
  by (simp add: clamp_keeps_name vpaRecommendationToCalculatorRec_def Let_def)

lemma set_variance_fields [simp]:
  "rr_ContainerName (set_variance cfg allocs rec) = rr_ContainerName rec"
  "set_allocation ops (set_variance cfg allocs rec) = set_allocation ops rec"
  by (simp_all add: set_variance_def set_allocation_def Let_def split: option.split)

lemma vpa_want_local:
  assumes "GetCurrentAllocations ops p (vcr_ContainerName v) = GetCurrentAllocations ops q (vcr_ContainerName v)"
  shows "vpa_want ops nc cst cfg p v = vpa_want ops nc cst cfg q v"
  by (simp add: vpa_want_def set_variance_def vpa_rec_name assms)

lemma vpa_plan_names: "rr_ContainerName ` set (plan ops (vpa_want ops nc cst cfg) pod vs) \<subseteq> vcr_ContainerName ` set vs"
proof (induction vs arbitrary: pod)
  case (Cons v vs)
  have "rr_ContainerName rec = vcr_ContainerName v" if "vpa_want ops nc cst cfg pod v = Some rec" for rec
    using that by (auto simp: vpa_want_def Let_def vpa_rec_name split: if_splits)
  then show ?case
    using Cons.IH[of pod] Cons.IH[of "resized ops (the (vpa_want ops nc cst cfg pod v)) pod"]
    by (cases "vpa_want ops nc cst cfg pod v") auto
qed simp

lemma vpa_plan_has: "\<forall>rec\<in>set (plan ops (vpa_want ops nc cst cfg) pod vs). has_container rec pod"
proof (induction vs arbitrary: pod)
  case (Cons v vs)
  have "has_container rec pod" if "has_container rec (resized ops rec0 pod)" for rec rec0
    using that by (simp add: has_container_names)
  then show ?case using Cons vpa_want_name[of ops nc cst cfg pod v] by (auto split: option.split)
qed simp

lemma vpa_insignificant:
  assumes "usual rec" and "accurate ops" and "\<And>q. is_f64 (AsApproximateFloat64 ops q)" and "coarse_threshold obj"
    and "allocs (rr_ContainerName rec) = Some (set_allocation ops rec)"
  shows "\<not> rr_SignificantVariance (set_variance (buildCalculatorConfig obj) allocs rec)"
proof -
  note no = readback_variance[OF assms(1,2), THEN below_threshold[OF assms(4)]]
  have f: "is_f64 (CPURequest (set_allocation ops rec))" "is_f64 (MemoryRequest (set_allocation ops rec))"
    using assms(3) by (simp_all add: set_allocation_def)
  have u: "is_f64 (rr_CPUCoresRequest rec)" "is_f64 (rr_MemoryBytesRequest rec)" using assms(1) by (simp_all add: usual_def)
  show ?thesis
    using no by (simp add: set_variance_def assms(5) Let_def ctrl_variance_eq[OF u(1) f(1)] ctrl_variance_eq[OF u(2) f(2)])
qed

lemma vpa_settled:
  assumes "distinct (map ct_Name (pod_Containers pod))" and "distinct (map vcr_ContainerName vs)"
    and ops: "accurate ops" "\<And>q. is_f64 (AsApproximateFloat64 ops q)" and coarse: "coarse_threshold obj"
    and "\<forall>v\<in>set vs. usual (fst (clamp_to_namespace nc (vpaRecommendationToCalculatorRec ops v cst)))"
  defines "want \<equiv> vpa_want ops nc cst (buildCalculatorConfig obj)"
  shows "plan ops want (apply_plan ops (plan ops want pod vs) pod) vs = []"
proof (rule plan_nothing)
  show "\<forall>v\<in>set vs. want (apply_plan ops (plan ops want pod vs) pod) v = None"
    using assms(1,2,6)
  proof (induction vs arbitrary: pod)
    case (Cons v vs)
    define pod1 where "pod1 = (case want pod v of None \<Rightarrow> pod | Some rec \<Rightarrow> resized ops rec pod)"
    define pod' where "pod' = apply_plan ops (plan ops want pod1 vs) pod1"
    have pod': "apply_plan ops (plan ops want pod (v # vs)) pod = pod'"
      by (simp add: pod'_def pod1_def split: option.split)
    have d1: "distinct (map ct_Name (pod_Containers pod1))" using Cons.prems(1) by (simp add: pod1_def split: option.split)
    have rest: "\<forall>u\<in>set vs. want pod' u = None" unfolding pod'_def using Cons.IH[OF d1] Cons.prems(2,3) by simp
    have "vcr_ContainerName v \<notin> rr_ContainerName ` set (plan ops want pod1 vs)"
      using vpa_plan_names[of ops nc cst "buildCalculatorConfig obj" pod1 vs] Cons.prems(2) unfolding want_def by auto
    note same = apply_plan_other[OF d1 vpa_plan_has[of ops nc cst "buildCalculatorConfig obj" pod1 vs, folded want_def] this, of ops, folded pod'_def]
    have "want pod' v = None"
    proof (cases "want pod v")
      case None
      then have "GetCurrentAllocations ops pod' (vcr_ContainerName v) = GetCurrentAllocations ops pod (vcr_ContainerName v)"
        using same by (simp add: pod1_def)
      then show ?thesis using vpa_want_local[of ops pod' v pod] None by (simp add: want_def)
    next
      case (Some rec)
      let ?rec = "fst (clamp_to_namespace nc (vpaRecommendationToCalculatorRec ops v cst))"
      have r: "rec = set_variance (buildCalculatorConfig obj) (GetCurrentAllocations ops pod) ?rec"
        using Some by (auto simp: want_def vpa_want_def Let_def split: if_splits)
      have "has_container rec pod" using Some vpa_want_name unfolding want_def by blast
      then have "GetCurrentAllocations ops pod1 (vcr_ContainerName v) = Some (set_allocation ops ?rec)"
        using resized_allocations[OF Cons.prems(1), of ops rec] by (simp add: pod1_def Some r vpa_rec_name)
      then have "GetCurrentAllocations ops pod' (rr_ContainerName ?rec) = Some (set_allocation ops ?rec)"
        using same by (simp add: vpa_rec_name)
      from vpa_insignificant[where rec = ?rec and allocs = "GetCurrentAllocations ops pod'", OF _ ops coarse this] Cons.prems(3) show ?thesis by (simp add: want_def vpa_want_def)
    qed
    then show ?case using rest unfolding pod' by simp
  qed simp
qed

section \<open>Reconciling again and again\<close>

text \<open>
  Reconciliations of the object, with anything else happening in between that leaves the pods alone and the server
  healthy.
\<close>

inductive undisturbed ::
  "('w, 's, 't, 'q) reconciler \<Rightarrow> ('w \<Rightarrow> 'q Pod list) \<Rightarrow> ('w \<Rightarrow> bool) \<Rightarrow> string \<Rightarrow> string
   \<Rightarrow> ('w, 's, 'q) traced_world rstate \<Rightarrow> ('w, 's, 'q) traced_world rstate \<Rightarrow> bool" for r pods_of healthy ns name s0 where
  start: "undisturbed r pods_of healthy ns name s0 s0"
| again: "undisturbed r pods_of healthy ns name s0 s \<Longrightarrow> Reconcile (traced_rec r) ns name s = (res, s') \<Longrightarrow> undisturbed r pods_of healthy ns name s0 s'"
| meanwhile: "undisturbed r pods_of healthy ns name s0 s \<Longrightarrow> pods_of w = pods_of (fst (rs_world s)) \<Longrightarrow> healthy w
    \<Longrightarrow> undisturbed r pods_of healthy ns name s0 (s\<lparr>rs_world := (w, tr s)\<rparr>)"

text \<open>
  Recommendations whose writing can be repeated: with a VPA, one per container and in the usual range; from
  metrics, one sample per container, of admissible usage, and no bounds of the namespace.
\<close>

definition repeatable ::
  "('w, 's, 't, 'q) reconciler \<Rightarrow> (string \<Rightarrow> string \<Rightarrow> api_error + 'q PodMetrics) \<Rightarrow> 'q vpaCheckResult \<Rightarrow> NamespaceConstraints \<Rightarrow> bool" where
  "repeatable r usage vres nc \<longleftrightarrow>
     (if uses_vpa vres
      then distinct (map vcr_ContainerName (vc_recommendations vres))
        \<and> (\<forall>v\<in>set (vc_recommendations vres).
              usual (fst (clamp_to_namespace nc (vpaRecommendationToCalculatorRec (rc_ops r) v (ToCalculatorConstraints nc DefaultConstraints)))))
      else nc = EmptyConstraints
        \<and> (\<forall>n m ms. usage n m = Inr ms \<longrightarrow> distinct (map cm_Name ms) \<and> (\<forall>cm\<in>set ms. usage_ok (usage_of (rc_ops r) cm))))"

lemma target_settled:
  assumes "accurate (rc_ops r)" "\<And>q. is_f64 (AsApproximateFloat64 (rc_ops r) q)" "coarse_threshold obj" "repeatable r usage vres nc"
    and "distinct (map ct_Name (pod_Containers p))"
  shows "target_plan r usage obj vres nc (apply_plan (rc_ops r) (target_plan r usage obj vres nc p) p) = []"
proof (cases "uses_vpa vres")
  case True
  then have "distinct (map vcr_ContainerName (vc_recommendations vres))"
    "\<forall>v\<in>set (vc_recommendations vres).
        usual (fst (clamp_to_namespace nc (vpaRecommendationToCalculatorRec (rc_ops r) v (ToCalculatorConstraints nc DefaultConstraints))))"
    using assms(4) by (simp_all add: repeatable_def)
  from vpa_settled[OF assms(5) this(1) assms(1-3) this(2)] show ?thesis by (simp add: target_plan_def pod_plan_def True)
next
  case False
  then have e: "nc = EmptyConstraints" using assms(4) by (simp add: repeatable_def)
  then have f: "\<not> nc_LimitRangeFound nc" "\<not> nc_ResourceQuotaFound nc" by (simp_all add: EmptyConstraints_def)
  show ?thesis
  proof (cases "usage (pod_Namespace p) (pod_Name p)")
    case (Inl err)
    then show ?thesis using False by (simp add: target_plan_def pod_plan_def)
  next
    case (Inr ms)
    then have "distinct (map cm_Name ms)" "\<forall>cm\<in>set ms. usage_ok (usage_of (rc_ops r) cm)"
      using assms(4) False by (simp_all add: repeatable_def)
    from metrics_settled[OF assms(5) this(1) assms(1) this(2) assms(3) f] show ?thesis
      using False by (simp add: target_plan_def pod_plan_def Inr e unbounded_constraints)
  qed
qed

definition settled ::
  "(string \<Rightarrow> 't \<Rightarrow> string \<times> string \<Rightarrow> bool) \<Rightarrow> ('s, 'q) PodAutoscaler \<Rightarrow> 't \<Rightarrow> ('q Pod \<Rightarrow> ResourceRecommendation list) \<Rightarrow> 'q Pod list \<Rightarrow> bool" where
  "settled selected obj sel todo pods \<longleftrightarrow> (\<forall>p\<in>set pods. in_scope selected obj sel p \<longrightarrow> todo p = [])"

lemma settled_calls:
  assumes "settled selected obj sel todo pods"
  shows "map (\<lambda>p. if in_scope selected obj sel p then apply_plan ops (todo p) p else p) pods = pods"
    and "concat (map (\<lambda>p. plan_calls ops p (todo p)) (filter (in_scope selected obj sel) pods)) = []"
  using assms by (auto simp: settled_def intro: map_idI)

lemma settled_after:
  assumes "\<And>p. p \<in> set pods \<Longrightarrow> in_scope selected obj sel p \<Longrightarrow> todo (apply_plan ops (todo p) p) = []"
  shows "settled selected obj sel todo (map (\<lambda>p. if in_scope selected obj sel p then apply_plan ops (todo p) p else p) pods)"
proof -
  have "in_scope selected obj sel (apply_plan ops rs p) = in_scope selected obj sel p" for rs p by (simp add: in_scope_def)
  then show ?thesis using assms by (auto simp: settled_def)
qed

text \<open>
  C7. Convergence and recovery in the modes \<^verbatim>\<open>InPlace\<close> and \<^verbatim>\<open>Auto\<close>, without dry-run and without a VPA conflict that
  halts.  Whatever happened before, failing calls included, once the server is healthy and
  the recommendations do not change, one reconciliation settles everything: however often and whenever the
  object is reconciled afterwards, as long as nobody else touches the pods, no pod is patched or evicted
  again.  This is for quantities that read back accurately, a threshold of
  at least eleven percent (the default is fifteen), containers with distinct names, and recommendations
  from a VPA (one for each container, and inside the default bounds once the namespace's bounds have been applied),
  or from metrics of admissible usage in a namespace without bounds.
\<close>

theorem reconciliations_converge:
  assumes "pod_store r pods_of healthy selected usage ns name obj"
    and "steady r healthy obj vres nc" and "\<not> shouldHaltForVPAConflict obj vres"
    and "update_mode obj \<in> {''InPlace'', ''Auto''}" and "\<not> sp_DryRun (pa_Spec obj)"
    and "LabelSelectorAsSelector (rc_Client r) (sp_Selector (pa_Spec obj)) = Inr sel"
    and "healthy (fst (rs_world s))" and "distinct (map key (pods_of (fst (rs_world s))))"
    and "\<forall>p\<in>set (pods_of (fst (rs_world s))). distinct (map ct_Name (pod_Containers p))"
    and "accurate (rc_ops r)" and "\<And>q. is_f64 (AsApproximateFloat64 (rc_ops r) q)" and "coarse_threshold obj"
    and "repeatable r usage vres nc"
    and "Reconcile (traced_rec r) ns name s = (res, s1)" and "undisturbed r pods_of healthy ns name s1 s2"
  shows "filter touches_pod (tr s2) = filter touches_pod (tr s1) \<and> pods_of (fst (rs_world s2)) = pods_of (fst (rs_world s1))"
proof -
  let ?todo = "target_plan r usage obj vres nc"
  note R = pod_store.reconciled[OF assms(1) _ assms(2-6)]
  note first = R[OF assms(14,7,8)]
  have settled1: "settled selected obj sel ?todo (pods_of (fst (rs_world s1)))"
    unfolding first(1) using target_settled[OF assms(10-13)] assms(9) by (intro settled_after) blast
  have dist1: "distinct (map key (pods_of (fst (rs_world s1))))"
  proof -
    have "key (if in_scope selected obj sel p then apply_plan (rc_ops r) (?todo p) p else p) = key p" for p by simp
    then show ?thesis using assms(8) unfolding first(1) map_map comp_def by simp
  qed
  from assms(15) have "filter touches_pod (tr s2) = filter touches_pod (tr s1) \<and> pods_of (fst (rs_world s2)) = pods_of (fst (rs_world s1))
      \<and> healthy (fst (rs_world s2))"
  proof (induction rule: undisturbed.induct)
    case (again s res s')
    have d: "healthy (fst (rs_world s))" "distinct (map key (pods_of (fst (rs_world s))))"
        "settled selected obj sel ?todo (pods_of (fst (rs_world s)))"
      using dist1 settled1 again.IH by simp_all
    show ?case using R[OF again.hyps(2) d(1,2)] again.IH unfolding settled_calls[OF d(3)] by simp
  qed (use first(3) in simp_all)
  then show ?thesis by blast
qed

text \<open>
  The server fails the first call.  The first reconciliation ends with its error, the second one resizes the pod, the
  third one leaves it.
\<close>

lemma outage_over:
  assumes "Reconcile (traced_rec (pod_reconciler obj labelled usage)) ns name (start ((1, w), [])) = (res, s')"
  shows "snd res = Some (Wrapf ''failed to get PodAutoscaler'' (ApiErr outage)) \<and> s' = start ((0, w), [])"
  using assms
  by (auto simp: Reconcile_def call_def traced_def untraced_def pod_reconciler_def flaky_cluster_def flaky_def start_def outage_def)

theorem reconciliations_converge_witness:
  "\<exists>res0 s0 res1 s1 res2 s2.
     Reconcile (traced_rec (pod_reconciler (sample_pa ''InPlace'' False) labelled_web sample_usage_server)) ''prod'' ''web''
       (start ((1, [], empty_status, [sample_pod, sample_pod\<lparr>pod_Namespace := ''test''\<rparr>]), [])) = (res0, s0) \<and> snd res0 \<noteq> None
     \<and> Reconcile (traced_rec (pod_reconciler (sample_pa ''InPlace'' False) labelled_web sample_usage_server)) ''prod'' ''web'' s0 = (res1, s1)
     \<and> Reconcile (traced_rec (pod_reconciler (sample_pa ''InPlace'' False) labelled_web sample_usage_server)) ''prod'' ''web'' s1 = (res2, s2)
     \<and> filter touches_pod (tr s2) = [PatchCall sample_pod (resized milli_ops sample_rec sample_pod)]"
proof -
  let ?r = "pod_reconciler (sample_pa ''InPlace'' False) labelled_web sample_usage_server"
  obtain res0 s0 where e0: "Reconcile (traced_rec ?r) ''prod'' ''web''
      (start ((1, [], empty_status, [sample_pod, sample_pod\<lparr>pod_Namespace := ''test''\<rparr>]), [])) = (res0, s0)" by (metis surj_pair)
  note s0 = conjunct2[OF outage_over[OF e0]] and f0 = conjunct1[OF outage_over[OF e0]]
  obtain res s1 where e: "Reconcile (traced_rec ?r) ''prod'' ''web'' sample_start = (res, s1)" by (metis surj_pair)
  obtain res2 s2 where e2: "Reconcile (traced_rec ?r) ''prod'' ''web'' s1 = (res2, s2)" by (metis surj_pair)
  have u: "undisturbed ?r world_pods up ''prod'' ''web'' s1 s2" by (rule undisturbed.again[OF undisturbed.start e2])
  have n: "\<forall>p\<in>set (world_pods (fst (rs_world sample_start))). distinct (map ct_Name (pod_Containers p))"
    unfolding sample_cycle(5) by (simp add: sample_pod_def)
  have o: "accurate (rc_ops ?r)" "is_f64 (AsApproximateFloat64 (rc_ops ?r) q)" for q
    by (simp_all add: sample_cycle(11) accurate_milli) (simp add: milli_ops_def is_f64_lit)
  have t: "coarse_threshold (sample_pa ''InPlace'' False)" by (simp add: coarse_threshold_def sample_pa_def sample_spec_def)
  have rp: "repeatable ?r sample_usage_server no_vpa EmptyConstraints"
    by (simp add: repeatable_def uses_vpa_def sample_usage_server_def sample_cycle(11) sample_metrics_usage sample_usage_ok)
  note C = reconciliations_converge[OF sample_server sample_steady sample_cycle(1-4,8,7) n o t rp e u]
  note first = pod_store.reconciled(2)[OF sample_server e sample_steady sample_cycle(1-4,8,7), unfolded sample_cycle(5,6,11)]
  have "filter touches_pod (tr s2) = [PatchCall sample_pod (resized milli_ops sample_rec sample_pod)]"
    using conjunct1[OF C] first by (simp add: sample_plan sample_cycle(9,10))
  with e0 e[folded s0] e2 f0 show ?thesis by blast
qed

end
