(* ===== verification/Report.thy ===== *)
theory Report
  imports PodCycle
begin

text \<open>
  Everything a reconciliation writes on a healthy server: the patches of the plans and then one status, whose
  numbers are those of the patches.
\<close>

lemma plan_calls_length [simp]: "length (plan_calls ops pod recs) = length recs"
  by (induction recs arbitrary: pod) simp_all

lemma calls_length: "length (concat (map (\<lambda>p. plan_calls ops p (todo p)) pods)) = sum_list (map (\<lambda>p. length (todo p)) pods)"
  by (induction pods) simp_all

context pod_store
begin

text \<open>With the finalizer in place nothing is written before the pods are evaluated.\<close>

lemma found:
  assumes g: "GetPodAutoscaler (rc_Client r) ns name (fst (rs_world s)) = (Inr pa, w1)"
    and fin: "ContainsFinalizer (rc_Client r) (pa_Finalizers pa) finalizerName"
    and sel: "LabelSelectorAsSelector (rc_Client r) (sp_Selector (pa_Spec obj)) = Inr sel" and ok: "ok s"
  obtains s1 s2 where "managed obj pa" "call (GetPodAutoscaler (traced (rc_Client r)) ns name) s = (Inr pa, s1)"
    "handleFinalizer (traced_rec r) pa s1 = (((False, None), pa), s1)"
    "discoverRunningPods (traced_rec r) pa s1 = ((Inr (filter (in_scope selected obj sel) (stored_pods s)), pa), s2)"
    "same_pods s s2" "tr s2 = tr s"
proof -
  obtain x s1 where c: "call (GetPodAutoscaler (traced (rc_Client r)) ns name) s = (x, s1)" by (metis surj_pair)
  have pa: "x = Inr pa" "managed obj pa"
    using c g object[OF ok] by (auto simp: call_def traced_def untraced_def split: prod.splits)
  have q: "same_pods s s1" using c by (rule reads_same)
  then have ok1: "ok s1" "stored_pods s1 = stored_pods s" using ok by (simp_all add: same_pods_def)
  have f: "handleFinalizer (traced_rec r) pa s1 = (((False, None), pa), s1)"
    using pa(2) fin by (simp add: handleFinalizer_def managed_def)
  obtain y pa2 s2 where d: "discoverRunningPods (traced_rec r) pa s1 = ((y, pa2), s2)" by (metis surj_pair)
  note D = discovered[OF d pa(2) ok1(1) sel, unfolded ok1(2)]
  have "LabelSelectorAsSelector (rc_Client r) (sp_Selector (pa_Spec pa)) = Inr sel" using sel pa(2) by (simp add: managed_def)
  then have "tr s2 = tr s" using d call_reads(1)[OF c]
    by (auto simp: discoverRunningPods_def split: prod.splits sum.splits dest!: call_reads)
  then show ?thesis using that[of s1 s2] c pa f d D q by (auto intro: same_pods_trans)
qed

lemma reported:
  assumes e: "Reconcile (traced_rec r) ns name s = (res, s')"
    and steady: "steady r healthy obj vres nc" "\<not> shouldHaltForVPAConflict obj vres"
    and mode: "update_mode obj \<in> {''InPlace'', ''Auto''}" "\<not> sp_DryRun (pa_Spec obj)"
    and sel: "LabelSelectorAsSelector (rc_Client r) (sp_Selector (pa_Spec obj)) = Inr sel"
    and ok: "ok s" and dist: "distinct (map key (stored_pods s))"
    and g: "GetPodAutoscaler (rc_Client r) ns name (fst (rs_world s)) = (Inr pa, w1)"
    and fin: "ContainsFinalizer (rc_Client r) (pa_Finalizers pa) finalizerName"
    and pods: "pods = filter (in_scope selected obj sel) (stored_pods s)"
    and patches: "patches = concat (map (\<lambda>p. plan_calls (rc_ops r) p (target_plan r usage obj vres nc p)) pods)"
  shows "\<exists>pa'. tr s' = tr s @ patches @ [StatusCall pa']
    \<and> st_TotalAdjustments (pa_Status pa') = st_TotalAdjustments (pa_Status pa) + of_nat (length patches)
    \<and> st_MonitoredPods (pa_Status pa') = of_nat (length pods)
    \<and> st_Phase (pa_Status pa') =
        (if pods = [] then ''Pending'' else if \<forall>p\<in>set pods. measured usage (uses_vpa vres) p then ''Active'' else ''Degraded'')"
proof -
  obtain s1 s2 where F: "managed obj pa" "call (GetPodAutoscaler (traced (rc_Client r)) ns name) s = (Inr pa, s1)"
    "handleFinalizer (traced_rec r) pa s1 = (((False, None), pa), s1)"
    "discoverRunningPods (traced_rec r) pa s1 = ((Inr pods, pa), s2)" "same_pods s s2" "tr s2 = tr s"
    unfolding pods by (rule found[OF g fin sel ok])
  define q where "q = upd_status (st_MonitoredPods_update (\<lambda>_. word_of_nat (length pods))) pa"
  define s3 where "s3 = count (\<lambda>p. p\<lparr>PodsMonitored := lit (of_nat (length pods))\<rparr>) s2"
  have q: "managed obj q" using F(1) by (simp add: q_def)
  have s3: "tr s3 = tr s" "ok s3" "stored_pods s3 = stored_pods s" using F(5,6) ok by (simp_all add: s3_def same_pods_def count_def)
  show ?thesis
  proof (cases "pods = []")
    case True
    define q2 where "q2 = upd_status (st_Phase_update (\<lambda>_. PhasePending)) q"
    obtain p4 s4 where c: "setCondition (traced_rec r) q2 ''Ready'' ConditionFalse ''NoPodsFound'' ''No running pods match the selector'' s3 = (p4, s4)"
      by (metis surj_pair)
    obtain p5 s5 where u: "status_update_ignored (traced_rec r) p4 s4 = (p5, s5)" by (metis surj_pair)
    have "s' = s5" using e
      by (simp only: Reconcile_def F(2-4) True bool.case prod.case sum.case Let_def if_True simp_thms traced_rec_simps
          s3_def[symmetric, unfolded True] q2_def[symmetric, unfolded q_def True] c u prod.inject)
    then have "tr s' = tr s @ [StatusCall p4]"
      using status_update_ignored_trace[OF u] setCondition_trace[OF c] s3(1) by simp
    moreover obtain now where "p4 = cond_upd now ''Ready'' ConditionFalse ''NoPodsFound'' ''No running pods match the selector'' q2"
      using setCondition_cond[OF c] by blast
    ultimately show ?thesis by (intro exI[of _ p4]) (simp add: patches True cond_upd_def q2_def q_def)
  next
    case False
    have "reconcile_pods (traced_rec r) q pods s3 = (res, s')"
      using e F(2-4) False by (simp add: Reconcile_def q_def s3_def)
    moreover have "set pods \<subseteq> set (stored_pods s3)" "distinct (map key pods)" "distinct (map key (stored_pods s3))"
      using dist by (auto simp: s3(3) pods distinct_map_filter)
    ultimately obtain pa' where N: "tr s' = tr s3 @ patches @ [StatusCall pa']"
      "counts usage (uses_vpa vres) (target_plan r usage obj vres nc) pods (pa_Status q) (pa_Status pa')"
      using pods_reconciled(4)[OF steady mode s3(2) _ _ _ q, of pods res s'] unfolding patches by blast
    have "length patches = sum_list (map (\<lambda>p. length (target_plan r usage obj vres nc p)) pods)" unfolding patches by (rule calls_length)
    then show ?thesis using N False by (intro exI[of _ pa']) (simp add: counts_def q_def s3(1))
  qed
qed

end

text \<open>
  C8. The status tells what was done, in the modes \<^verbatim>\<open>InPlace\<close> and \<^verbatim>\<open>Auto\<close>, without dry-run and without a VPA conflict that
  halts.  Once a live object has its finalizer, a reconciliation on a healthy server, with
  a steady VPA and steady bounds of the namespace, writes the patches of the plans of the running pods of the selection, pod by pod, and then one status, and
  nothing else: the total of adjustments grows by the number of patches, the pods monitored are those of the
  selection, and the phase says that there are none, that each of them could be evaluated, or that one
  could not.
\<close>

theorem Reconcile_reports_patches:
  assumes "pod_store r pods_of healthy selected usage ns name obj"
    and "steady r healthy obj vres nc" and "\<not> shouldHaltForVPAConflict obj vres"
    and "update_mode obj \<in> {''InPlace'', ''Auto''}" and "\<not> sp_DryRun (pa_Spec obj)"
    and "LabelSelectorAsSelector (rc_Client r) (sp_Selector (pa_Spec obj)) = Inr sel"
    and "healthy (fst (rs_world s))" and "distinct (map key (pods_of (fst (rs_world s))))"
    and "GetPodAutoscaler (rc_Client r) ns name (fst (rs_world s)) = (Inr pa, w1)"
    and "ContainsFinalizer (rc_Client r) (pa_Finalizers pa) ''podfather.io/finalizer''"
    and "pods = filter (in_scope selected obj sel) (pods_of (fst (rs_world s)))"
    and "patches = concat (map (\<lambda>p. plan_calls (rc_ops r) p (target_plan r usage obj vres nc p)) pods)"
    and "Reconcile (traced_rec r) ns name s = (res, s')"
  shows "\<exists>pa'. tr s' = tr s @ patches @ [StatusCall pa']
    \<and> st_TotalAdjustments (pa_Status pa') = st_TotalAdjustments (pa_Status pa) + of_nat (length patches)
    \<and> st_MonitoredPods (pa_Status pa') = of_nat (length pods)
    \<and> st_Phase (pa_Status pa') =
        (if pods = [] then ''Pending'' else if \<forall>p\<in>set pods. measured usage (uses_vpa vres) p then ''Active'' else ''Degraded'')"
  using pod_store.reported[OF assms(1,13,2-12)] .

text \<open>Two pods of which one is not in the namespace of the object, which has its finalizer.\<close>

theorem Reconcile_reports_patches_witness:
  "\<exists>res s' pa'. Reconcile (traced_rec (pod_reconciler (sample_pa ''InPlace'' False) labelled_web sample_usage_server)) ''prod'' ''web''
       (start ((0, [''podfather.io/finalizer''], empty_status, [sample_pod, sample_pod\<lparr>pod_Namespace := ''test''\<rparr>]), [])) = (res, s')
     \<and> tr s' = [PatchCall sample_pod (resized milli_ops sample_rec sample_pod), StatusCall pa']
     \<and> st_TotalAdjustments (pa_Status pa') = 1 \<and> st_MonitoredPods (pa_Status pa') = 1 \<and> st_Phase (pa_Status pa') = ''Active''"
proof -
  let ?pa = "sample_pa ''InPlace'' False"
  let ?r = "pod_reconciler ?pa labelled_web sample_usage_server"
  let ?s = "start ((0, [finalizerName], empty_status, [sample_pod, sample_pod\<lparr>pod_Namespace := ''test''\<rparr>]), [])
    :: ((nat \<times> pod_world) \<times> (string, int) call list) rstate"
  obtain res s' where e: "Reconcile (traced_rec ?r) ''prod'' ''web'' ?s = (res, s')" by (metis surj_pair)
  have w: "world_pods (fst (rs_world ?s)) = world_pods (fst (rs_world sample_start))" "up (fst (rs_world ?s))" "tr ?s = []"
    by (simp_all add: start_def)
  have g: "GetPodAutoscaler (rc_Client ?r) ''prod'' ''web'' (fst (rs_world ?s)) =
      (Inr (world_object ?pa (snd (fst (rs_world ?s)))), fst (rs_world ?s))"
    by (simp add: pod_reconciler_defs start_def)
  let ?q = "world_object ?pa (snd (fst (rs_world ?s)))"
  have f: "ContainsFinalizer (rc_Client ?r) (pa_Finalizers ?q) finalizerName" "st_TotalAdjustments (pa_Status ?q) = 0"
    by (simp_all add: world_object_def start_def pod_reconciler_defs empty_status_def)
  have p: "filter (in_scope pods_in_namespace ?pa labelled_web) (world_pods (fst (rs_world ?s))) = [sample_pod]"
    unfolding w(1) sample_cycle(5) by (simp add: sample_cycle(9,10))
  have c: "concat (map (\<lambda>p. plan_calls (rc_ops ?r) p (target_plan ?r sample_usage_server ?pa no_vpa EmptyConstraints p)) [sample_pod]) =
      ([PatchCall sample_pod (resized milli_ops sample_rec sample_pod)] :: (string, int) call list)"
    by (simp add: sample_plan sample_cycle(11))
  have m: "measured sample_usage_server (uses_vpa no_vpa) sample_pod" by (simp add: measured_def sample_usage_server_def)
  from Reconcile_reports_patches[OF sample_server sample_steady sample_cycle(1-4) w(2) sample_cycle(7)[folded w(1)] g f(1)
      p[symmetric] c[symmetric] e] show ?thesis
    using e m f(2) by (auto simp: w(3))
qed

end
