(* ===== verification/Deletion.thy ===== *)
theory Deletion
  imports PodCycle
begin

text \<open>
  The end of an object: what its deletion leaves of Podfather on the pods.
\<close>

lemma cleaned_fields [simp]:
  "pod_Name (cleaned p) = pod_Name p" "pod_Namespace (cleaned p) = pod_Namespace p" "key (cleaned p) = key p"
  by (simp_all add: cleaned_def key_def)

lemma not_annotated: "\<not> annotated (cleaned p)" "\<not> annotated p \<Longrightarrow> cleaned p = p"
proof -
  show "\<not> annotated (cleaned p)" by (auto simp: annotated_def cleaned_def)
  have "m(k := None) = m" if "m k = None" for m :: "string \<rightharpoonup> string" and k using that by auto
  then show "\<not> annotated p \<Longrightarrow> cleaned p = p" by (cases "pod_Annotations p") (auto simp: annotated_def cleaned_def)
qed

context pod_server
begin

lemma cleaned_pod:
  assumes "ok s" "p \<in> set (stored_pods s)" "distinct (map key (stored_pods s))"
  shows "stored_pods (cleanup_pod (traced_rec r) s p) = put_pod (cleaned p) (stored_pods s) \<and> ok (cleanup_pod (traced_rec r) s p)"
proof (cases "annotated p")
  case False
  then have "cleanup_pod (traced_rec r) s p = s" by (cases "pod_Annotations p") (auto simp: cleanup_pod_def annotated_def)
  then show ?thesis using put_pod_same[OF assms(3,2)] assms(1) by (simp add: not_annotated(2)[OF False])
next
  case True
  then obtain m where m: "pod_Annotations p = Some m" "m last_recommendation \<noteq> None" by (auto simp: annotated_def)
  then have c: "p\<lparr>pod_Annotations := Some (m(last_recommendation := None))\<rparr> = cleaned p" by (simp add: cleaned_def)
  obtain x w' where p: "PatchPod (rc_Client r) p (cleaned p) (fst (rs_world s)) = (x, w')" by (metis surj_pair)
  have "pods_of w' = put_pod (cleaned p) (stored_pods s) \<and> healthy w'" using patched[OF assms(1,2) _ p] by simp
  then show ?thesis by (simp add: cleanup_pod_def m call_def traced_def logged_def c p)
qed

lemma cleaned_all:
  "ok s \<Longrightarrow> set ps \<subseteq> set (stored_pods s) \<Longrightarrow> distinct (map key ps) \<Longrightarrow> distinct (map key (stored_pods s))
   \<Longrightarrow> stored_pods (foldl (cleanup_pod (traced_rec r)) s ps) = foldl (\<lambda>P p. put_pod (cleaned p) P) (stored_pods s) ps
     \<and> ok (foldl (cleanup_pod (traced_rec r)) s ps)"
proof (induction ps arbitrary: s)
  case (Cons p ps)
  let ?s = "cleanup_pod (traced_rec r) s p"
  have s: "stored_pods ?s = put_pod (cleaned p) (stored_pods s)" "ok ?s" using cleaned_pod Cons.prems by simp_all
  have "set ps \<subseteq> set (stored_pods ?s)"
  proof
    fix q assume q: "q \<in> set ps"
    then have "key q \<noteq> key (cleaned p)" using Cons.prems(3) by simp (metis imageI)
    then show "q \<in> set (stored_pods ?s)" unfolding s using q Cons.prems(2) by (intro put_pod_other) auto
  qed
  then have "stored_pods (foldl (cleanup_pod (traced_rec r)) ?s ps) = foldl (\<lambda>P p. put_pod (cleaned p) P) (stored_pods ?s) ps
      \<and> ok (foldl (cleanup_pod (traced_rec r)) ?s ps)"
    using Cons.IH[of ?s] Cons.prems(3,4) by (simp add: s)
  then show ?case by (simp add: s)
qed simp

lemma cleanup_stored:
  assumes "LabelSelectorAsSelector (rc_Client r) (sp_Selector (pa_Spec pa)) = Inr sel" "ok s" "distinct (map key (stored_pods s))"
  shows "stored_pods (cleanupManagedPods (traced_rec r) pa s) =
      map (\<lambda>p. if selected (pa_Namespace pa) sel (key p) then cleaned p else p) (stored_pods s)
    \<and> ok (cleanupManagedPods (traced_rec r) pa s)"
proof -
  let ?ps = "filter (\<lambda>p. selected (pa_Namespace pa) sel (key p)) (stored_pods s)"
  obtain x s1 where l: "call (ListPods (traced (rc_Client r)) (pa_Namespace pa) sel) s = (x, s1)" by (metis surj_pair)
  have x: "x = Inr ?ps"
    using l list_pods[OF assms(2), of "pa_Namespace pa" sel] by (auto simp: call_def traced_def untraced_def split: prod.splits)
  have s1: "stored_pods s1 = stored_pods s" "ok s1"
    using l calls_same(11)[OF assms(2), where n = "pa_Namespace pa" and sel = sel]
    by (auto simp: call_def intact_def split: prod.splits)
  have "distinct (map key ?ps)" using assms(3) by (simp add: distinct_map_filter)
  then have "stored_pods (foldl (cleanup_pod (traced_rec r)) s1 ?ps) =
      map (\<lambda>p. if p \<in> set ?ps then cleaned p else p) (stored_pods s) \<and> ok (foldl (cleanup_pod (traced_rec r)) s1 ?ps)"
    using cleaned_all[of s1 ?ps] put_pods[of ?ps "stored_pods s" cleaned] assms(3) by (simp add: s1)
  then show ?thesis by (simp add: cleanupManagedPods_def assms(1) l x)
qed

lemma deletion:
  assumes "GetPodAutoscaler (rc_Client r) ns name (fst (rs_world s)) = (Inr pa, w1)"
    and "pa_Deleting pa" and "ContainsFinalizer (rc_Client r) (pa_Finalizers pa) finalizerName"
    and "LabelSelectorAsSelector (rc_Client r) (sp_Selector (pa_Spec pa)) = Inr sel"
    and "ok s" and "distinct (map key (stored_pods s))" and "Reconcile (traced_rec r) ns name s = (res, s')"
  shows "stored_pods s' = map (\<lambda>p. if selected (pa_Namespace pa) sel (key p) then cleaned p else p) (stored_pods s)"
    and "fst res = 0"
    and "tr s' = tr s @ map (\<lambda>p. PatchCall p (cleaned p))
        (filter (\<lambda>p. selected (pa_Namespace pa) sel (key p) \<and> annotated p) (stored_pods s))
      @ [UpdateCall (pa\<lparr>pa_Finalizers := RemoveFinalizer (rc_Client r) (pa_Finalizers pa) finalizerName\<rparr>)]"
proof -
  let ?q = "pa\<lparr>pa_Finalizers := RemoveFinalizer (rc_Client r) (pa_Finalizers pa) finalizerName\<rparr>"
  define s1 where "s1 = s\<lparr>rs_world := (w1, tr s)\<rparr>"
  have g: "call (GetPodAutoscaler (traced (rc_Client r)) ns name) s = (Inr pa, s1)"
    using assms(1) by (simp add: call_def traced_def untraced_def s1_def)
  have st1: "stored_pods s1 = stored_pods s" "ok s1" using others(1)[OF assms(5), of ns name] assms(1) by (simp_all add: s1_def intact_def)
  define s2 where "s2 = cleanupManagedPods (traced_rec r) pa s1"
  note st2 = cleanup_stored[OF assms(4) st1(2), folded s2_def, unfolded st1(1), OF assms(6)]
  have "fst (ListPods (rc_Client r) (pa_Namespace pa) sel w1) = Inr (filter (\<lambda>p. selected (pa_Namespace pa) sel (key p)) (stored_pods s))"
    using list_pods[of w1 "pa_Namespace pa" sel] st1 by (simp add: s1_def)
  then have tr2: "tr s2 = tr s @ map (\<lambda>p. PatchCall p (cleaned p))
      (filter (\<lambda>p. selected (pa_Namespace pa) sel (key p) \<and> annotated p) (stored_pods s))"
    using cleanup_trace[of r pa s1] by (simp add: s2_def cleanup_calls_def assms(4) s1_def)
  obtain x s3 where u: "call (UpdatePodAutoscaler (traced (rc_Client r)) ?q) s2 = (x, s3)" by (metis surj_pair)
  have st3: "stored_pods s3 = stored_pods s2"
    using u calls_same(9)[OF conjunct2[OF st2], where pa = ?q] by (auto simp: call_def intact_def split: prod.splits)
  have tr3: "tr s3 = tr s2 @ [UpdateCall ?q]" using u by (rule call_writes)
  have "s' = s3 \<and> fst res = 0"
    using assms(7) g u by (cases x) (auto simp: Reconcile_def handleFinalizer_def assms(2,3) s2_def)
  then show "stored_pods s' = map (\<lambda>p. if selected (pa_Namespace pa) sel (key p) then cleaned p else p) (stored_pods s)"
    "fst res = 0" "tr s' = tr s @ map (\<lambda>p. PatchCall p (cleaned p))
        (filter (\<lambda>p. selected (pa_Namespace pa) sel (key p) \<and> annotated p) (stored_pods s)) @ [UpdateCall ?q]"
    using st2 st3 tr2 tr3 by simp_all
qed

end

text \<open>
  C15. A deletion on a healthy server cleans up after the controller: when an object that is being deleted and has the
  finalizer is reconciled, no pod of its selection, running or not, keeps Podfather's annotation; each of
  them that had it is patched once, everything else about the pods and every other pod stays as it is, and
  the last call gives up the finalizer.
\<close>

theorem deletion_cleans_pods:
  assumes "pod_server r pods_of healthy selected"
    and "GetPodAutoscaler (rc_Client r) ns name (fst (rs_world s)) = (Inr pa, w1)"
    and "pa_Deleting pa" and "ContainsFinalizer (rc_Client r) (pa_Finalizers pa) ''podfather.io/finalizer''"
    and "LabelSelectorAsSelector (rc_Client r) (sp_Selector (pa_Spec pa)) = Inr sel"
    and "healthy (fst (rs_world s))" and "distinct (map key (pods_of (fst (rs_world s))))" and "Reconcile (traced_rec r) ns name s = (res, s')"
  shows "pods_of (fst (rs_world s')) =
      map (\<lambda>p. if selected (pa_Namespace pa) sel (key p) then cleaned p else p) (pods_of (fst (rs_world s)))
    \<and> (\<forall>p\<in>set (pods_of (fst (rs_world s'))). selected (pa_Namespace pa) sel (key p) \<longrightarrow> \<not> annotated p)
    \<and> tr s' = tr s @ map (\<lambda>p. PatchCall p (cleaned p))
          (filter (\<lambda>p. selected (pa_Namespace pa) sel (key p) \<and> annotated p) (pods_of (fst (rs_world s))))
        @ [UpdateCall (pa\<lparr>pa_Finalizers := RemoveFinalizer (rc_Client r) (pa_Finalizers pa) ''podfather.io/finalizer''\<rparr>)]"
proof -
  note D = pod_server.deletion[OF assms]
  have "\<forall>p\<in>set (pods_of (fst (rs_world s'))). selected (pa_Namespace pa) sel (key p) \<longrightarrow> \<not> annotated p"
    unfolding D(1) by (auto simp: not_annotated(1))
  with D(1,3) show ?thesis by blast
qed

definition marked_pod :: "int Pod" where
  "marked_pod = sample_pod\<lparr>pod_Phase := ''Succeeded'', pod_Annotations := Some [last_recommendation \<mapsto> ''{}'', ''team'' \<mapsto> ''web'']\<rparr>"

theorem deletion_cleans_pods_witness:
  "\<exists>res s'. Reconcile (traced_rec (pod_reconciler (sample_pa ''Auto'' False\<lparr>pa_Deleting := True\<rparr>) labelled_web sample_usage_server)) ''prod'' ''web''
       (start ((0, ''podfather.io/finalizer'' # [], empty_status, [marked_pod, marked_pod\<lparr>pod_Namespace := ''test''\<rparr>]), [])) = (res, s')
     \<and> map pod_Annotations (world_pods (fst (rs_world s'))) = [Some [''team'' \<mapsto> ''web''], pod_Annotations marked_pod]"
proof -
  let ?pa = "sample_pa ''Auto'' False\<lparr>pa_Deleting := True\<rparr>"
  let ?r = "pod_reconciler ?pa labelled_web sample_usage_server"
  let ?s = "start ((0, [finalizerName], empty_status, [marked_pod, marked_pod\<lparr>pod_Namespace := ''test''\<rparr>]), [])
    :: ((nat \<times> pod_world) \<times> (string, int) call list) rstate"
  obtain res s' where e: "Reconcile (traced_rec ?r) ''prod'' ''web'' ?s = (res, s')" by (metis surj_pair)
  have g: "GetPodAutoscaler (rc_Client ?r) ''prod'' ''web'' (fst (rs_world ?s)) =
      (Inr (world_object ?pa (snd (fst (rs_world ?s)))), fst (rs_world ?s))"
    by (simp add: pod_reconciler_defs start_def)
  let ?q = "world_object ?pa (snd (fst (rs_world ?s)))"
  have d: "pa_Deleting ?q" "ContainsFinalizer (rc_Client ?r) (pa_Finalizers ?q) finalizerName"
    "LabelSelectorAsSelector (rc_Client ?r) (sp_Selector (pa_Spec ?q)) = Inr labelled_web" "pa_Namespace ?q = ''prod''"
    by (simp_all add: world_object_def start_def pod_reconciler_defs) (simp add: sample_pa_def)
  have w: "world_pods (fst (rs_world ?s)) = [marked_pod, marked_pod\<lparr>pod_Namespace := ''test''\<rparr>]" by (simp add: start_def)
  have k: "distinct (map key (world_pods (fst (rs_world ?s))))" unfolding w by (simp add: key_def marked_pod_def sample_pod_def)
  have h: "up (fst (rs_world ?s))" by (simp add: start_def)
  have m: "pods_in_namespace ''prod'' labelled_web (key marked_pod)"
      "\<not> pods_in_namespace ''prod'' labelled_web (key (marked_pod\<lparr>pod_Namespace := ''test''\<rparr>))"
    by (simp_all add: key_def marked_pod_def sample_pod_def)
  have c: "pod_Annotations (cleaned marked_pod) = Some [''team'' \<mapsto> ''web'']"
    by (auto simp: cleaned_def marked_pod_def)
  have "world_pods (fst (rs_world s')) = [cleaned marked_pod, marked_pod\<lparr>pod_Namespace := ''test''\<rparr>]"
    using conjunct1[OF deletion_cleans_pods[OF servers.pod_server_axioms g d(1-3) h k e]] m unfolding w d(4) by simp
  then show ?thesis using e c by (intro exI[of _ res] exI[of _ s']) simp
qed

end
