(* ===== verification/Eviction.thy ===== *)
theory Eviction
  imports PodCycle
begin

text \<open>
  What a cycle does to a pod in mode \<^verbatim>\<open>Recreate\<close>, on a server that accepts patches and evictions.
\<close>

text \<open>The recommendations that are wanted for a pod; annotating it does not change them.\<close>

definition wanted_recs :: "('q Pod \<Rightarrow> 'x \<Rightarrow> ResourceRecommendation option) \<Rightarrow> 'q Pod \<Rightarrow> 'x list \<Rightarrow> ResourceRecommendation list" where
  "wanted_recs want pod xs = List.map_filter (want pod) xs"

fun evict_calls :: "'q Pod \<Rightarrow> ResourceRecommendation list \<Rightarrow> ('s, 'q) call list" where
  "evict_calls pod [] = []"
| "evict_calls pod (rec # recs) =
     (case marshal rec of
        Inl err \<Rightarrow> evict_calls pod recs
      | Inr js \<Rightarrow>
          PatchCall pod (annotate last_recommendation js pod) # EvictCall (pod_Namespace pod) (pod_Name pod)
            # evict_calls (annotate last_recommendation js pod) recs)"

definition accepts :: "('w, 's, 't, 'q) cluster \<Rightarrow> bool" where
  "accepts cl \<longleftrightarrow> (\<forall>base p w. fst (PatchPod cl base p w) = Inr p) \<and> (\<forall>ns n w. fst (EvictPod cl ns n w) = None)"

lemma accepted_eviction:
  assumes "accepts cl" "applyViaEviction (traced cl) pod rec w = ((err, pod'), w')"
  shows "case marshal rec of
      Inl e \<Rightarrow> pod' = pod \<and> snd w' = snd w
    | Inr js \<Rightarrow> pod' = annotate last_recommendation js pod
        \<and> snd w' = snd w @ [PatchCall pod (annotate last_recommendation js pod), EvictCall (pod_Namespace pod) (pod_Name pod)]"
proof (cases "marshal rec")
  case (Inl e)
  then show ?thesis using assms(2) by (simp add: applyViaEviction_def)
next
  case (Inr js)
  let ?p = "annotate last_recommendation js pod"
  obtain w1 where p: "PatchPod cl pod ?p (fst w) = (Inr ?p, w1)" using assms(1) unfolding accepts_def by (metis prod.collapse)
  have n: "pod_Namespace ?p = pod_Namespace pod" "pod_Name ?p = pod_Name pod" by (simp_all add: annotate_def)
  obtain w2 where e: "EvictPod cl (pod_Namespace pod) (pod_Name pod) w1 = (None, w2)"
    using assms(1) unfolding accepts_def by (metis prod.collapse)
  show ?thesis using assms(2) Inr p e by (auto simp: applyViaEviction_def traced_def logged_def n Let_def)
qed

lemma applied_eviction:
  assumes "accepts (rc_Client r)" "update_mode pa = ''Recreate''"
    and "applyRecommendation (traced_rec r) pa pod rec source s = ((adj, pod'), s')"
  shows "case marshal rec of
      Inl e \<Rightarrow> pod' = pod \<and> tr s' = tr s
    | Inr js \<Rightarrow> pod' = annotate last_recommendation js pod
        \<and> tr s' = tr s @ [PatchCall pod (annotate last_recommendation js pod), EvictCall (pod_Namespace pod) (pod_Name pod)]"
proof -
  obtain err p w where e: "applyViaEviction (traced (rc_Client r)) pod rec (rs_world s) = ((err, p), w)" by (metis surj_pair)
  have "pod' = p \<and> rs_world s' = w"
    using assms(2,3) e by (auto simp: applyRecommendation_def update_mode_def call_def ApplyRecommendation_def Eventf_def count_def Let_def
        split: option.splits)
  then show ?thesis using accepted_eviction[OF assms(1) e] by (auto split: sum.splits)
qed

context planned_loop
begin

lemma follows_evictions:
  assumes "accepts (rc_Client r)" "update_mode pa = ''Recreate''" "\<not> sp_DryRun (pa_Spec pa)"
    and same: "\<And>p js x. want (annotate last_recommendation js p) x = want p x"
  shows "foldl step (ev, s) xs = (ev', s') \<Longrightarrow> tr s' = tr s @ evict_calls (ea_pod ev) (wanted_recs want (ea_pod ev) xs)"
proof (induction xs arbitrary: ev s)
  case (Cons x xs)
  obtain ev1 s1 where s1: "step (ev, s) x = (ev1, s1)" by fastforce
  then have rest: "foldl step (ev1, s1) xs = (ev', s')" using Cons.prems by simp
  show ?case
  proof (cases "want (ea_pod ev) x")
    case None
    then have "ea_pod ev1 = ea_pod ev" "rs_world s1 = rs_world s" using unwanted[OF assms(3)] s1 by blast+
    then show ?thesis using Cons.IH[OF rest] None by (simp add: wanted_recs_def map_filter_simps)
  next
    case (Some rec)
    obtain s0 adj where a: "rs_world s0 = rs_world s"
      "applyRecommendation (traced_rec r) pa (ea_pod ev) rec source s0 = ((adj, ea_pod ev1), s1)"
      using wanted[OF assms(3) Some s1] by blast
    note E = applied_eviction[OF assms(1,2) a(2), unfolded a(1)]
    have w: "wanted_recs want (annotate last_recommendation js (ea_pod ev)) xs = wanted_recs want (ea_pod ev) xs" for js
      using ext[where f = "want (annotate last_recommendation js (ea_pod ev))", OF same] by (simp add: wanted_recs_def)
    show ?thesis using Cons.IH[OF rest] E Some w
      by (cases "marshal rec") (auto simp: wanted_recs_def map_filter_simps)
  qed
qed (simp add: wanted_recs_def map_filter_simps)

end

section \<open>One pod of a cycle\<close>

definition eviction_plan ::
  "'q quantity_ops \<Rightarrow> 'q PodMetrics \<Rightarrow> bool \<Rightarrow> 'q VPAContainerRecommendation list \<Rightarrow> NamespaceConstraints \<Rightarrow> Constraints \<Rightarrow> Config
   \<Rightarrow> 'q Pod \<Rightarrow> ResourceRecommendation list" where
  "eviction_plan ops ms usingVPA vpaRecs nc cst cfg pod =
     (if usingVPA then wanted_recs (vpa_want ops nc cst cfg) pod vpaRecs
      else wanted_recs (\<lambda>_. metrics_want ops nc cst cfg (GetCurrentAllocations ops pod)) pod ms)"

lemma annotations_unread:
  "GetCurrentAllocations ops (pod\<lparr>pod_Annotations := a\<rparr>) = GetCurrentAllocations ops pod"
  "GetCurrentAllocations ops (annotate k v pod) = GetCurrentAllocations ops pod"
  "vpa_want ops nc cst cfg (pod\<lparr>pod_Annotations := a\<rparr>) = vpa_want ops nc cst cfg pod"
  "vpa_want ops nc cst cfg (annotate k v pod) = vpa_want ops nc cst cfg pod"
  by (simp_all add: GetCurrentAllocations_def annotate_def vpa_want_def fun_eq_iff)

lemma eviction_plan_unread: "eviction_plan ops ms v recs nc cst cfg (pod\<lparr>pod_Annotations := a\<rparr>) = eviction_plan ops ms v recs nc cst cfg pod"
  by (simp add: eviction_plan_def wanted_recs_def annotations_unread)

lemma evict_calls_evictions:
  "filter is_evict (evict_calls pod recs :: ('s, 'q) call list) =
     replicate (length (filter (\<lambda>rec. \<exists>js. marshal rec = Inr js) recs)) (EvictCall (pod_Namespace pod) (pod_Name pod))"
  by (induction recs arbitrary: pod) (auto simp: annotate_def split: sum.split)

lemma cycle_evictions:
  assumes "accepts (rc_Client r)" "update_mode pa = ''Recreate''" "\<not> sp_DryRun (pa_Spec pa)"
    and m: "fst (GetPodMetricsObject (rc_Client r) (pod_Namespace pod) (pod_Name pod) (fst (rs_world s))) = Inr ms"
    and e: "cycle_step (traced_rec r) pa v recs nc cst cfg (cy, s) pod = (cy', s')"
  shows "tr s' = tr s @ evict_calls pod (eviction_plan (rc_ops r) ms v recs nc cst cfg pod)"
proof (cases v)
  case True
  obtain ev s1 where f: "foldl (vpa_step (traced_rec r) pa nc cst cfg) (eval_start pod, s) recs = (ev, s1)" by fastforce
  have "s' = s1" using e True by (auto simp: cycle_step_def evaluateVPAPod_def f)
  moreover have "vpa_want (rc_ops r) nc cst cfg (annotate last_recommendation js p) x = vpa_want (rc_ops r) nc cst cfg p x" for js p x
    by (simp add: annotations_unread)
  from vpa_planned.follows_evictions[OF assms(1-3) this f] have "tr s1 = tr s @ evict_calls pod (wanted_recs (vpa_want (rc_ops r) nc cst cfg) pod recs)"
    by (simp add: eval_start_def)
  ultimately show ?thesis by (simp add: eviction_plan_def True)
next
  case False
  let ?allocs = "GetCurrentAllocations (rc_ops r) pod"
  obtain w' where y: "GetPodMetricsObject (rc_Client r) (pod_Namespace pod) (pod_Name pod) (fst (rs_world s)) = (Inr ms, w')"
    using m by (metis prod.collapse)
  obtain x s1 where g: "call (GetPodMetrics (traced (rc_Client r)) (pod_Namespace pod) (pod_Name pod)) s = (x, s1)" by (metis surj_pair)
  have x: "x = Inr ms" using metrics_answer[OF g y] by simp
  have t1: "tr s1 = tr s" using g by (rule call_reads)
  obtain ev s2 where f: "foldl (metrics_step (traced_rec r) pa nc cst cfg ?allocs) (eval_start pod, s1) ms = (ev, s2)" by fastforce
  have "s' = s2" using e False by (auto simp: cycle_step_def evaluatePodMetrics_def g x f)
  moreover have "tr s2 = tr s1 @ evict_calls pod (wanted_recs (\<lambda>_. metrics_want (rc_ops r) nc cst cfg ?allocs) pod ms)"
    using metrics_planned.follows_evictions[OF assms(1-3) refl f] by (simp add: eval_start_def)
  ultimately show ?thesis by (simp add: eviction_plan_def False t1)
qed

text \<open>
  C34. Mode \<^verbatim>\<open>Recreate\<close> evicts a pod once per container and never gets anywhere.  On a server that accepts
  everything, a cycle annotates and evicts the same pod for each of its containers with a significant
  recommendation, each annotation overwriting the last; and what is significant does not depend on
  the annotations, whatever they are, so the pod that its owner recreates with the same containers is
  treated in the same way by the next cycle.
\<close>

theorem recreate_never_settles:
  assumes "accepts (rc_Client r)" and "update_mode pa = ''Recreate''" and "\<not> sp_DryRun (pa_Spec pa)"
    and "fst (GetPodMetricsObject (rc_Client r) (pod_Namespace pod) (pod_Name pod) (fst (rs_world s))) = Inr ms"
    and "cycle_step (traced_rec r) pa v recs nc cst cfg (cy, s) (pod\<lparr>pod_Annotations := a\<rparr>) = (cy', s')"
  shows "tr s' = tr s @ evict_calls (pod\<lparr>pod_Annotations := a\<rparr>) (eviction_plan (rc_ops r) ms v recs nc cst cfg pod)
    \<and> filter is_evict (tr s') = filter is_evict (tr s) @
        replicate (length (filter (\<lambda>rec. \<exists>js. marshal rec = Inr js) (eviction_plan (rc_ops r) ms v recs nc cst cfg pod)))
          (EvictCall (pod_Namespace pod) (pod_Name pod))"
proof -
  let ?p = "pod\<lparr>pod_Annotations := a\<rparr>"
  have "fst (GetPodMetricsObject (rc_Client r) (pod_Namespace ?p) (pod_Name ?p) (fst (rs_world s))) = Inr ms" using assms(4) by simp
  from cycle_evictions[OF assms(1-3) this assms(5), unfolded eviction_plan_unread] show ?thesis
    by (simp add: evict_calls_evictions)
qed

text \<open>A pod with two containers alike.\<close>

definition twin_pod :: "int Pod" where
  "twin_pod = sample_pod\<lparr>pod_Containers := pod_Containers sample_pod @ [(hd (pod_Containers sample_pod))\<lparr>ct_Name := ''side''\<rparr>]\<rparr>"

definition twin_metrics :: "int PodMetrics" where
  "twin_metrics = [sample_metrics, sample_metrics\<lparr>cm_Name := ''side''\<rparr>]"

lemma Calculate_name:
  "Calculate u a cfg c = Inr rec \<Longrightarrow> n \<noteq> [] \<Longrightarrow>
   Calculate (u\<lparr>ru_ContainerName := n\<rparr>) (a\<lparr>ra_ContainerName := n'\<rparr>) cfg c = Inr (rec\<lparr>rr_ContainerName := n\<rparr>)"
  by (auto simp: Calculate_def Let_def split: prod.splits if_splits)

lemma twin_plan:
  "eviction_plan milli_ops twin_metrics False [] EmptyConstraints DefaultConstraints DefaultConfig twin_pod =
     [sample_rec, sample_rec\<lparr>rr_ContainerName := ''side''\<rparr>]"
proof -
  let ?al = "GetCurrentAllocations milli_ops twin_pod"
  have al: "?al ''app'' = Some (container_resources milli_ops (hd (pod_Containers sample_pod)))"
    "?al ''side'' = Some (container_resources milli_ops (hd (pod_Containers sample_pod)))"
    by (simp_all add: GetCurrentAllocations_def twin_pod_def sample_pod_def container_resources_def)
  have a: "allocation_of n (container_resources milli_ops (hd (pod_Containers sample_pod))) = sample_alloc\<lparr>ra_ContainerName := n\<rparr>" for n
    by (simp add: allocation_of_def container_resources_def amount_def sample_pod_def milli_ops_def sample_alloc_def)
  have u: "usage_of milli_ops (sample_metrics\<lparr>cm_Name := n\<rparr>) = sample_usage\<lparr>ru_ContainerName := n\<rparr>" for n
    using sample_metrics_usage by (simp add: usage_of_def Let_def sample_usage_def)
  have k: "fst (clamp_to_namespace EmptyConstraints rec) = rec" for rec by (simp add: clamp_to_namespace_def EmptyConstraints_def)
  have sg: "rr_SignificantVariance sample_rec" by (simp add: sample_rec_def)
  have nm: "cm_Name sample_metrics = ''app''" by (simp add: sample_metrics_def)
  have C: "Calculate (sample_usage\<lparr>ru_ContainerName := n\<rparr>) (sample_alloc\<lparr>ra_ContainerName := n\<rparr>) DefaultConfig DefaultConstraints
      = Inr (sample_rec\<lparr>rr_ContainerName := n\<rparr>)" if "n \<noteq> []" for n
    using Calculate_name[OF sample_Calculate that] .
  have w: "metrics_want milli_ops EmptyConstraints DefaultConstraints DefaultConfig ?al (sample_metrics\<lparr>cm_Name := n\<rparr>) =
      Some (sample_rec\<lparr>rr_ContainerName := n\<rparr>)" if "n = ''app'' \<or> n = ''side''" for n
    using that al C[of n] by (auto simp: metrics_want_def u a k sg)
  have "sample_metrics\<lparr>cm_Name := ''app''\<rparr> = sample_metrics" "sample_rec\<lparr>rr_ContainerName := ''app''\<rparr> = sample_rec"
    by (simp_all add: sample_metrics_def sample_rec_def)
  then show ?thesis using w[of "''app''"] w[of "''side''"]
    by (simp add: eviction_plan_def wanted_recs_def map_filter_simps twin_metrics_def)
qed

theorem recreate_never_settles_witness:
  "\<exists>cy s. cycle_step (traced_rec (sample_reconciler (sample_pa ''Recreate'' False) [] twin_metrics [])) (sample_pa ''Recreate'' False)
       False [] EmptyConstraints DefaultConstraints DefaultConfig
       (\<lparr>cy_recs = [], cy_adj = 0, cy_metricsAvailable = True, cy_reasons = []\<rparr>, start (0, [])) (twin_pod\<lparr>pod_Annotations := None\<rparr>) = (cy, s)
     \<and> filter is_evict (tr s) = [EvictCall ''prod'' ''web-1'', EvictCall ''prod'' ''web-1'']"
proof -
  let ?r = "sample_reconciler (sample_pa ''Recreate'' False) [] twin_metrics []" and ?pa = "sample_pa ''Recreate'' False"
  let ?cy = "\<lparr>cy_recs = [], cy_adj = 0, cy_metricsAvailable = True, cy_reasons = []\<rparr>"
  obtain cy s where e: "cycle_step (traced_rec ?r) ?pa False [] EmptyConstraints DefaultConstraints DefaultConfig (?cy, start (0, []))
      (twin_pod\<lparr>pod_Annotations := None\<rparr>) = (cy, s)" by (metis surj_pair)
  have h: "accepts (rc_Client ?r)" "update_mode ?pa = ''Recreate''" "\<not> sp_DryRun (pa_Spec ?pa)"
    "fst (GetPodMetricsObject (rc_Client ?r) (pod_Namespace twin_pod) (pod_Name twin_pod) (fst (rs_world (start (0, [] :: (string, int) call list))))) =
       Inr twin_metrics"
    by (simp_all add: accepts_def sample_reconciler_def fixed_cluster_def update_mode_def sample_pa_def sample_spec_def)
  have o: "rc_ops ?r = milli_ops" by (simp add: sample_reconciler_def)
  have m: "\<exists>js. marshal sample_rec = Inr js" "\<exists>js. marshal (sample_rec\<lparr>rr_ContainerName := ''side''\<rparr>) = Inr js"
    unfolding marshal_ok by (simp_all add: sample_rec_def float_eval)
  have n: "pod_Namespace twin_pod = ''prod''" "pod_Name twin_pod = ''web-1''" by (simp_all add: twin_pod_def sample_pod_def)
  have "filter is_evict (tr s) = [EvictCall ''prod'' ''web-1'', EvictCall ''prod'' ''web-1'']"
    using conjunct2[OF recreate_never_settles[OF h e]] m unfolding o twin_plan n by (simp add: start_def)
  with e show ?thesis by blast
qed

end
