(* ===== verification/PatchFailures.thy ===== *)
theory PatchFailures
  imports Eviction
begin

text \<open>
  In-place resizes on a server that may refuse a patch: what is stored after the evaluation of a pod,
  against what the events say.
\<close>

section \<open>The server\<close>

text \<open>
  A patch is the JSON merge patch from its base: it carries the list of containers as a whole if that has
  changed, and nothing of it if not.  The server refuses a patch or applies it to the stored pod
  and answers with the result.
\<close>

definition merged :: "'q Container list \<Rightarrow> 'q Container list \<Rightarrow> 'q Pod \<Rightarrow> 'q Pod" where
  "merged base cs q = (if cs = base then q else q\<lparr>pod_Containers := cs\<rparr>)"

locale patch_server =
  fixes r :: "('w, 's, 't, 'q) reconciler" and pods_of :: "'w \<Rightarrow> 'q Pod list"
  assumes answered: "distinct (map key (pods_of w)) \<Longrightarrow> q \<in> set (pods_of w) \<Longrightarrow> key q = key base
      \<Longrightarrow> PatchPod (rc_Client r) base (base\<lparr>pod_Containers := cs\<rparr>) w = (x, w')
      \<Longrightarrow> (\<exists>e. x = Inl e) \<and> pods_of w' = pods_of w
        \<or> x = Inr (merged (pod_Containers base) cs q) \<and> pods_of w' = put_pod (merged (pod_Containers base) cs q) (pods_of w)"
    and usage_read: "pods_of (snd (GetPodMetricsObject (rc_Client r) n m w)) = pods_of w"
begin

abbreviation stored_now :: "('w \<times> ('s, 'q) call list) rstate \<Rightarrow> 'q Pod list" where
  "stored_now s \<equiv> pods_of (fst (rs_world s))"

definition outcome :: "'q Pod \<Rightarrow> ('w \<times> ('s, 'q) call list) rstate \<Rightarrow> ('w \<times> ('s, 'q) call list) rstate \<Rightarrow> 64 word \<Rightarrow> string \<Rightarrow> bool" where
  "outcome p s s' adj why \<longleftrightarrow>
     (\<exists>ty msg. rs_events s' = rs_events s @ [\<lparr>ev_type = ty, ev_reason = why, ev_message = msg\<rparr>])
   \<and> (why = ''PodResourceAdjusted'' \<and> adj = 1 \<and> stored_now s' = put_pod p (stored_now s)
      \<or> why = ''UpdateFailed'' \<and> adj = 0 \<and> stored_now s' = stored_now s)"

lemma tried:
  assumes "applyRecommendation (traced_rec r) pa pod rec source s = ((adj, pod'), s')"
    and "update_mode pa = ''InPlace''" and "has_container rec pod" and "resized (rc_ops r) rec pod \<noteq> pod"
    and "distinct (map key (stored_now s))" and "q \<in> set (stored_now s)" and "pod = q\<lparr>pod_Containers := pod_Containers pod\<rparr>"
  shows "pod' = resized (rc_ops r) rec pod \<and> tr s' = tr s @ [PatchCall pod pod']
    \<and> (\<exists>why. outcome pod' s s' adj why \<and> (why = ''UpdateFailed'' \<longleftrightarrow> isl (fst (PatchPod (rc_Client r) pod pod' (fst (rs_world s))))))"
proof -
  let ?p = "resized (rc_ops r) rec pod"
  obtain w t where w: "rs_world s = (w, t)" by fastforce
  obtain cs where u: "update_container (rc_ops r) rec (pod_Containers pod) = (cs, True)"
    using assms(3) update_container_flag[of "rc_ops r" rec "pod_Containers pod"]
    by (cases "update_container (rc_ops r) rec (pod_Containers pod)") (simp add: has_container_def)
  have p: "?p = pod\<lparr>pod_Containers := cs\<rparr>" by (simp add: resized_def u)
  have cs: "cs \<noteq> pod_Containers pod" using assms(4) p by auto
  have k: "key q = key pod" using arg_cong[OF assms(7), of key] by (simp add: key_def)
  have m: "merged (pod_Containers pod) cs q = ?p" using cs arg_cong[OF assms(7), of "\<lambda>x. x\<lparr>pod_Containers := cs\<rparr>"] by (simp add: merged_def p)
  obtain x w' where c: "PatchPod (rc_Client r) pod ?p w = (x, w')" by (metis surj_pair)
  have q: "distinct (map key (pods_of w))" "q \<in> set (pods_of w)" using assms(5,6) by (simp_all add: w)
  note A = answered[OF q k c[unfolded p], unfolded m]
  have a: "ApplyRecommendation (traced (rc_Client r)) (rc_ops r) pod rec ''InPlace'' (w, t) =
      ((case x of Inl e \<Rightarrow> Inl (Wrapf ''in-place update failed'' (ApiErr e)) | Inr p' \<Rightarrow> Inr ''in-place'',
        case x of Inl e \<Rightarrow> ?p | Inr p' \<Rightarrow> p'), (w', t @ [PatchCall pod ?p]))"
    using c by (simp add: ApplyRecommendation_def applyInPlace_def u Let_def traced_def logged_def p split: sum.split)
  have call: "call (ApplyRecommendation (traced (rc_Client r)) (rc_ops r) pod rec ''InPlace'') s =
      ((case x of Inl e \<Rightarrow> Inl (Wrapf ''in-place update failed'' (ApiErr e)) | Inr p' \<Rightarrow> Inr ''in-place'',
        case x of Inl e \<Rightarrow> ?p | Inr p' \<Rightarrow> p'), s\<lparr>rs_world := (w', t @ [PatchCall pod ?p])\<rparr>)"
    by (simp add: call_def w a)
  note mode = assms(2)[unfolded update_mode_def]
  from A show ?thesis
  proof
    assume f: "(\<exists>e. x = Inl e) \<and> pods_of w' = pods_of w"
    then obtain e where x: "x = Inl e" by blast
    have "adj = 0 \<and> pod' = ?p \<and> rs_world s' = (w', t @ [PatchCall pod ?p])
        \<and> (\<exists>msg. rs_events s' = rs_events s @ [\<lparr>ev_type = EventTypeWarning, ev_reason = ''UpdateFailed'', ev_message = msg\<rparr>])"
      using assms(1) call by (auto simp: applyRecommendation_def mode x Let_def Eventf_def)
    then show ?thesis using f by (auto simp: outcome_def w c)
  next
    assume f: "x = Inr ?p \<and> pods_of w' = put_pod ?p (pods_of w)"
    have "adj = 1 \<and> pod' = ?p \<and> rs_world s' = (w', t @ [PatchCall pod ?p])
        \<and> (\<exists>msg. rs_events s' = rs_events s @ [\<lparr>ev_type = EventTypeNormal, ev_reason = ''PodResourceAdjusted'', ev_message = msg\<rparr>])"
      using assms(1) call f by (auto simp: applyRecommendation_def mode Let_def Eventf_def count_def)
    then show ?thesis using f by (auto simp: outcome_def w c)
  qed
qed

end

section \<open>Following a plan with failures\<close>

text \<open>How far the outcomes confirm a plan: up to the last one that succeeded.\<close>

fun confirmed :: "string list \<Rightarrow> nat" where
  "confirmed [] = 0"
| "confirmed (why # whys) =
     (if confirmed whys > 0 then Suc (confirmed whys) else if why = ''PodResourceAdjusted'' then 1 else 0)"

text \<open>Every step of the plan changes the pod.\<close>

fun changes :: "'q quantity_ops \<Rightarrow> 'q Pod \<Rightarrow> ResourceRecommendation list \<Rightarrow> bool" where
  "changes ops pod [] = True"
| "changes ops pod (rec # recs) \<longleftrightarrow> resized ops rec pod \<noteq> pod \<and> changes ops (resized ops rec pod) recs"

definition done_partly ::
  "('w, 's, 't, 'q) reconciler \<Rightarrow> ('w \<Rightarrow> 'q Pod list) \<Rightarrow> 'q Pod \<Rightarrow> ResourceRecommendation list \<Rightarrow> 64 word
   \<Rightarrow> ('w, 's, 'q) traced_world rstate \<Rightarrow> ('w, 's, 'q) traced_world rstate \<Rightarrow> string list \<Rightarrow> bool" where
  "done_partly r pods_of pod recs adj s s' whys \<longleftrightarrow>
     map ev_reason (rs_events s') = map ev_reason (rs_events s) @ whys \<and> length whys = length recs
   \<and> set whys \<subseteq> {''PodResourceAdjusted'', ''UpdateFailed''}
   \<and> adj = of_nat (count_list whys ''PodResourceAdjusted'')
   \<and> pods_of (fst (rs_world s')) =
        (if confirmed whys = 0 then pods_of (fst (rs_world s))
         else put_pod (apply_plan (rc_ops r) (take (confirmed whys) recs) pod) (pods_of (fst (rs_world s))))
   \<and> tr s' = tr s @ plan_calls (rc_ops r) pod recs"

lemma done_partly_start:
  "rs_world s1 = rs_world s \<Longrightarrow> rs_events s1 = rs_events s
   \<Longrightarrow> done_partly r pods_of pod recs adj s1 s' whys = done_partly r pods_of pod recs adj s s' whys"
  by (simp add: done_partly_def)

lemma done_partly_Cons:
  assumes "patch_server.outcome pods_of p s s1 adj1 why" and "p = resized (rc_ops r) rec pod" and "tr s1 = tr s @ [PatchCall pod p]"
    and "patch_server r pods_of" and "done_partly r pods_of p recs adj s1 s' whys"
  shows "done_partly r pods_of pod (rec # recs) (adj1 + adj) s s' (why # whys)"
  using assms(1)[unfolded patch_server.outcome_def[OF assms(4)]] assms(3,5)
  by (auto simp: done_partly_def assms(2))

context planned_loop
begin

lemma follows_despite_failures:
  assumes srv: "patch_server r pods_of" and mode: "update_mode pa = ''InPlace''" "\<not> sp_DryRun (pa_Spec pa)"
    and has: "\<And>p x rec. map ct_Name (pod_Containers p) = names \<Longrightarrow> want p x = Some rec \<Longrightarrow> has_container rec p"
  shows "map ct_Name (pod_Containers (ea_pod ev)) = names \<Longrightarrow> distinct (map key (pods_of (fst (rs_world s))))
    \<Longrightarrow> q \<in> set (pods_of (fst (rs_world s))) \<Longrightarrow> ea_pod ev = q\<lparr>pod_Containers := pod_Containers (ea_pod ev)\<rparr>
    \<Longrightarrow> changes (rc_ops r) (ea_pod ev) (plan (rc_ops r) want (ea_pod ev) xs) \<Longrightarrow> foldl step (ev, s) xs = (ev', s')
    \<Longrightarrow> \<exists>adj whys. ea_adj ev' = ea_adj ev + adj \<and> done_partly r pods_of (ea_pod ev) (plan (rc_ops r) want (ea_pod ev) xs) adj s s' whys"
proof (induction xs arbitrary: ev s q)
  case Nil
  then show ?case by (intro exI[of _ 0] exI[of _ "[]"]) (simp add: done_partly_def)
next
  case (Cons x xs)
  obtain ev1 s1 where s1: "step (ev, s) x = (ev1, s1)" by fastforce
  then have rest: "foldl step (ev1, s1) xs = (ev', s')" using Cons.prems(6) by simp
  show ?case
  proof (cases "want (ea_pod ev) x")
    case None
    then have u: "ea_pod ev1 = ea_pod ev" "ea_adj ev1 = ea_adj ev" "rs_world s1 = rs_world s" "rs_events s1 = rs_events s"
      using unwanted[OF mode(2)] s1 by blast+
    have "changes (rc_ops r) (ea_pod ev1) (plan (rc_ops r) want (ea_pod ev1) xs)" using Cons.prems(5) None by (simp add: u)
    from Cons.IH[OF _ _ _ _ this rest, of q] Cons.prems(1-4) show ?thesis by (simp add: u None done_partly_start[OF u(3,4)])
  next
    case (Some rec)
    obtain s0 adj1 where a: "rs_world s0 = rs_world s" "rs_events s0 = rs_events s" "ea_adj ev1 = ea_adj ev + adj1"
      "applyRecommendation (traced_rec r) pa (ea_pod ev) rec source s0 = ((adj1, ea_pod ev1), s1)"
      using wanted[OF mode(2) Some s1] by blast
    have ch: "resized (rc_ops r) rec (ea_pod ev) \<noteq> ea_pod ev"
        "changes (rc_ops r) (resized (rc_ops r) rec (ea_pod ev)) (plan (rc_ops r) want (resized (rc_ops r) rec (ea_pod ev)) xs)"
      using Cons.prems(5) Some by simp_all
    have q: "distinct (map key (pods_of (fst (rs_world s0))))" "q \<in> set (pods_of (fst (rs_world s0)))"
      using Cons.prems(2,3) by (simp_all add: a(1))
    from patch_server.tried[OF srv a(4) mode(1) has[OF Cons.prems(1) Some] ch(1) q Cons.prems(4)]
    obtain why where T: "ea_pod ev1 = resized (rc_ops r) rec (ea_pod ev)" "tr s1 = tr s0 @ [PatchCall (ea_pod ev) (ea_pod ev1)]"
        "patch_server.outcome pods_of (ea_pod ev1) s0 s1 adj1 why" by blast
    have O: "patch_server.outcome pods_of (ea_pod ev1) s s1 adj1 why"
      using T(3) by (simp add: patch_server.outcome_def[OF srv] a(1,2))
    have k: "key (ea_pod ev1) = key q"
      using arg_cong[OF Cons.prems(4), of key] by (simp add: T(1) key_def)
    have n1: "map ct_Name (pod_Containers (ea_pod ev1)) = names" using Cons.prems(1) by (simp add: T(1))
    have c1: "changes (rc_ops r) (ea_pod ev1) (plan (rc_ops r) want (ea_pod ev1) xs)" using ch(2) by (simp add: T(1))
    have "\<exists>q1. q1 \<in> set (pods_of (fst (rs_world s1))) \<and> ea_pod ev1 = q1\<lparr>pod_Containers := pod_Containers (ea_pod ev1)\<rparr>"
    proof (cases "why = ''PodResourceAdjusted''")
      case True
      then have "pods_of (fst (rs_world s1)) = put_pod (ea_pod ev1) (pods_of (fst (rs_world s)))"
        using O by (auto simp: patch_server.outcome_def[OF srv])
      then show ?thesis using put_pod_in[OF Cons.prems(3) k] by (intro exI[of _ "ea_pod ev1"]) simp
    next
      case False
      then have "pods_of (fst (rs_world s1)) = pods_of (fst (rs_world s))" using O by (auto simp: patch_server.outcome_def[OF srv])
      moreover have "ea_pod ev1 = q\<lparr>pod_Containers := pod_Containers (ea_pod ev1)\<rparr>"
        using arg_cong[OF Cons.prems(4), of "\<lambda>p. p\<lparr>pod_Containers := pod_Containers (ea_pod ev1)\<rparr>"] by (simp add: T(1) resized_def)
      ultimately show ?thesis using Cons.prems(3) by auto
    qed
    then obtain q1 where q1: "q1 \<in> set (pods_of (fst (rs_world s1)))" "ea_pod ev1 = q1\<lparr>pod_Containers := pod_Containers (ea_pod ev1)\<rparr>"
      by blast
    have d1: "distinct (map key (pods_of (fst (rs_world s1))))"
      using O Cons.prems(2) by (auto simp: patch_server.outcome_def[OF srv])
    obtain adj whys where I: "ea_adj ev' = ea_adj ev1 + adj"
        "done_partly r pods_of (ea_pod ev1) (plan (rc_ops r) want (ea_pod ev1) xs) adj s1 s' whys"
      using Cons.IH[OF n1 d1 q1 c1 rest] by blast
    have "done_partly r pods_of (ea_pod ev) (rec # plan (rc_ops r) want (ea_pod ev1) xs) (adj1 + adj) s s' (why # whys)"
      using done_partly_Cons[OF O T(1) _ srv I(2)] T(2) by (simp add: a(1))
    then show ?thesis using I(1) a(3) Some by (intro exI[of _ "adj1 + adj"] exI[of _ "why # whys"]) (simp add: T(1))
  qed
qed

end

section \<open>The evaluation of a pod\<close>

text \<open>
  C36. A resize that the server has refused is applied with the next one.  In mode \<^verbatim>\<open>InPlace\<close> the pod in memory
  keeps the refused change, so the patch for the next container carries it along: after the evaluation
  the stored pod has the new resources of every container up to the last one whose patch was accepted,
  also of those that were reported as failed and not counted.  Nothing else is stored, every container
  has its event, and the adjustments counted are the patches accepted.
\<close>

theorem refused_resizes_ride_along:
  assumes "patch_server r pods_of" and "update_mode pa = ''InPlace''" and "\<not> sp_DryRun (pa_Spec pa)"
    and "distinct (map key (pods_of (fst (rs_world s))))" and "pod \<in> set (pods_of (fst (rs_world s)))"
    and "fst (GetPodMetricsObject (rc_Client r) (pod_Namespace pod) (pod_Name pod) (fst (rs_world s))) = Inr ms"
    and "recs = plan (rc_ops r) (\<lambda>_. metrics_want (rc_ops r) nc cst cfg (GetCurrentAllocations (rc_ops r) pod)) pod ms"
    and "changes (rc_ops r) pod recs"
    and "evaluatePodMetrics (traced_rec r) pa nc cst cfg pod s = ((ev, ok), s')"
  shows "\<exists>whys. map ev_reason (rs_events s') = map ev_reason (rs_events s) @ whys \<and> length whys = length recs
    \<and> set whys \<subseteq> {''PodResourceAdjusted'', ''UpdateFailed''} \<and> ea_adj ev = of_nat (count_list whys ''PodResourceAdjusted'')
    \<and> pods_of (fst (rs_world s')) =
        (if confirmed whys = 0 then pods_of (fst (rs_world s))
         else put_pod (apply_plan (rc_ops r) (take (confirmed whys) recs) pod) (pods_of (fst (rs_world s))))
    \<and> tr s' = tr s @ plan_calls (rc_ops r) pod recs"
proof -
  let ?allocs = "GetCurrentAllocations (rc_ops r) pod"
  obtain w' where y: "GetPodMetricsObject (rc_Client r) (pod_Namespace pod) (pod_Name pod) (fst (rs_world s)) = (Inr ms, w')"
    using assms(6) by (metis prod.collapse)
  have w': "pods_of w' = pods_of (fst (rs_world s))"
    using patch_server.usage_read[OF assms(1), of "pod_Namespace pod" "pod_Name pod" "fst (rs_world s)"] y by simp
  define s1 where "s1 = s\<lparr>rs_world := (w', tr s)\<rparr>"
  have g: "call (GetPodMetrics (traced (rc_Client r)) (pod_Namespace pod) (pod_Name pod)) s = (Inr ms, s1)"
    using y by (simp add: call_def GetPodMetrics_def traced_def untraced_def s1_def)
  obtain ev2 s2 where f: "foldl (metrics_step (traced_rec r) pa nc cst cfg ?allocs) (eval_start pod, s1) ms = (ev2, s2)" by fastforce
  have e: "ev = ev2" "s' = s2" using assms(9) g f by (auto simp: evaluatePodMetrics_def)
  have has: "has_container rec p" if "map ct_Name (pod_Containers p) = map ct_Name (pod_Containers pod)"
      "metrics_want (rc_ops r) nc cst cfg ?allocs cm = Some rec" for p cm rec
    using that by (rule metrics_want_has)
  have st: "ea_pod (eval_start pod) = pod" "ea_adj (eval_start pod) = 0" by (simp_all add: eval_start_def)
  have "\<exists>adj whys. ea_adj ev2 = ea_adj (eval_start pod) + adj \<and> done_partly r pods_of (ea_pod (eval_start pod)) recs adj s1 s2 whys"
    unfolding assms(7) using metrics_planned.follows_despite_failures[OF assms(1-3) has _ _ _ _ _ f, where q = pod] assms(4,5,8)
    by (simp add: st s1_def w' assms(7))
  then obtain whys where "done_partly r pods_of pod recs (ea_adj ev) s1 s' whys" by (auto simp: st e)
  then show ?thesis by (intro exI[of _ whys]) (simp add: done_partly_def s1_def w')
qed

text \<open>A server that refuses the patches that a policy forbids.\<close>

definition strict_cluster ::
  "(int Pod \<Rightarrow> int Pod \<Rightarrow> bool) \<Rightarrow> int PodMetrics \<Rightarrow> (int Pod list, string, string, int) cluster" where
  "strict_cluster forbids metrics =
     \<lparr>GetPodAutoscaler = (\<lambda>ns name w. (Inr (sample_pa ''InPlace'' False), w)),
      UpdatePodAutoscaler = (\<lambda>p w. (Inr p, w)), UpdateStatus = (\<lambda>p w. (Inr p, w)),
      ListPods = (\<lambda>ns sel w. (Inr w, w)),
      PatchPod = (\<lambda>base p w.
        if forbids base p then (Inl \<lparr>ae_text = ''forbidden'', ae_not_found = False\<rparr>, w)
        else let pods = map (\<lambda>q. if key q = key base then merged (pod_Containers base) (pod_Containers p) q else q) w
             in (case filter (\<lambda>q. key q = key base) pods of
                   [] \<Rightarrow> Inl \<lparr>ae_text = ''not found'', ae_not_found = True\<rparr>
                 | q # _ \<Rightarrow> Inr q, pods)),
      EvictPod = (\<lambda>ns name w. (None, filter (\<lambda>p. key p \<noteq> (ns, name)) w)),
      GetPodMetricsObject = (\<lambda>ns name w. (Inr metrics, w)),
      ListLimitRanges = (\<lambda>ns w. (Inr [], w)), ListResourceQuotas = (\<lambda>ns w. (Inr [], w)),
      ListVPAsLimit = (\<lambda>n w. (Inr [], w)), ListVPAs = (\<lambda>ns w. (Inr [], w)),
      GetVPAObject = (\<lambda>ns name w. (Inl \<lparr>ae_text = ''not found'', ae_not_found = True\<rparr>, w)),
      Now = (\<lambda>w. (0, w)), LabelSelectorAsSelector = Inr,
      ContainsFinalizer = (\<lambda>fs f. f \<in> set fs), AddFinalizer = (\<lambda>fs f. fs @ [f]), RemoveFinalizer = (\<lambda>fs f. removeAll f fs)\<rparr>"

definition strict_reconciler :: "(int Pod \<Rightarrow> int Pod \<Rightarrow> bool) \<Rightarrow> int PodMetrics \<Rightarrow> (int Pod list, string, string, int) reconciler" where
  "strict_reconciler forbids metrics =
     \<lparr>rc_Client = strict_cluster forbids metrics, rc_ops = milli_ops, rc_uops = plain_unstructured, rc_VPAClient = False,
      rc_NamespaceLimitsFetcher = False\<rparr>"

lemma merged_key [simp]: "key (merged base cs q) = key q"
  by (simp add: merged_def key_def)

lemma filter_key_unique: "distinct (map key P) \<Longrightarrow> q \<in> set P \<Longrightarrow> filter (\<lambda>p. key p = key q) P = [q]"
  by (induction P) (auto simp: filter_empty_conv, metis imageI)

lemma patched_map:
  assumes "distinct (map key pods)" "q \<in> set pods" "\<And>q. key (f q) = key q"
  shows "map (\<lambda>p. if key p = key q then f p else p) pods = put_pod (f q) pods"
    and "filter (\<lambda>p. key p = key q) (map (\<lambda>p. if key p = key q then f p else p) pods) = [f q]"
proof -
  have u: "p = q" if "p \<in> set pods" "key p = key q" for p using that assms(1,2) by (auto simp: distinct_map dest: inj_onD)
  then show m: "map (\<lambda>p. if key p = key q then f p else p) pods = put_pod (f q) pods" by (auto simp: put_pod_def assms(3))
  show "filter (\<lambda>p. key p = key q) (map (\<lambda>p. if key p = key q then f p else p) pods) = [f q]"
    unfolding m using filter_key_unique[of "put_pod (f q) pods" "f q"] put_pod_in[OF assms(2) assms(3)] assms(1) by (simp add: assms(3))
qed

interpretation strict: patch_server "strict_reconciler forbids metrics" "\<lambda>w. w" for forbids metrics
proof
  fix w :: "int Pod list" and q base :: "int Pod" and cs x w'
  assume a: "distinct (map key w)" "q \<in> set w" "key q = key base"
    "PatchPod (rc_Client (strict_reconciler forbids metrics)) base (base\<lparr>pod_Containers := cs\<rparr>) w = (x, w')"
  show "(\<exists>e. x = Inl e) \<and> w' = w
      \<or> x = Inr (merged (pod_Containers base) cs q) \<and> w' = put_pod (merged (pod_Containers base) cs q) w"
    using a(4) patched_map[OF a(1,2), of "merged (pod_Containers base) (pod_Containers (base\<lparr>pod_Containers := cs\<rparr>))"]
    by (auto simp: strict_reconciler_def strict_cluster_def Let_def a(3) split: if_splits)
qed (simp add: strict_reconciler_def strict_cluster_def)

lemma strict_ops [simp]: "rc_ops (strict_reconciler forbids metrics) = milli_ops"
  by (simp add: strict_reconciler_def)

text \<open>Two containers; the patch from the pod as it was is refused, the next one is not.\<close>

abbreviation twin_server :: "(int Pod list, string, string, int) reconciler" where
  "twin_server \<equiv> strict_reconciler (\<lambda>base p. base = twin_pod) twin_metrics"

abbreviation twin_start :: "(int Pod list \<times> (string, int) call list) rstate" where
  "twin_start \<equiv> start ([twin_pod], [])"

abbreviation side_rec :: ResourceRecommendation where
  "side_rec \<equiv> sample_rec\<lparr>rr_ContainerName := ''side''\<rparr>"

lemma twin_wants:
  "metrics_want milli_ops EmptyConstraints DefaultConstraints DefaultConfig (GetCurrentAllocations milli_ops twin_pod) sample_metrics = Some sample_rec"
  "metrics_want milli_ops EmptyConstraints DefaultConstraints DefaultConfig (GetCurrentAllocations milli_ops twin_pod)
     (sample_metrics\<lparr>cm_Name := ''side''\<rparr>) = Some side_rec"
  using twin_plan by (auto simp: eviction_plan_def wanted_recs_def twin_metrics_def map_filter_simps split: option.splits)

lemma twin_changes: "resized milli_ops sample_rec twin_pod \<noteq> twin_pod"
  "resized milli_ops side_rec (resized milli_ops sample_rec twin_pod) \<noteq> resized milli_ops sample_rec twin_pod"
  "resized milli_ops side_rec twin_pod \<noteq> twin_pod"
proof -
  have al: "map_option MemoryRequest (GetCurrentAllocations milli_ops twin_pod n) = Some (lit 536870912)" if "n = ''app'' \<or> n = ''side''" for n
    using that by (auto simp: GetCurrentAllocations_def twin_pod_def sample_pod_def container_resources_def amount_def milli_ops_def)
  have d: "distinct (map ct_Name (pod_Containers twin_pod))" by (simp add: twin_pod_def sample_pod_def)
  have h: "has_container sample_rec twin_pod" "has_container side_rec twin_pod" "has_container side_rec (resized milli_ops sample_rec twin_pod)"
    by (simp_all add: has_container_names) (simp_all add: twin_pod_def sample_pod_def sample_rec_def)
  have q: "MemoryRequest (set_allocation milli_ops sample_rec) = lit 335544320" "MemoryRequest (set_allocation milli_ops side_rec) = lit 335544320"
    by (simp_all add: set_allocation_def mem_quantity_def milli_ops_def sample_rec_def to_int64_def float_eval)
  have ne: "lit 335544320 \<noteq> lit 536870912" by (simp add: float_eval)
  have R: "GetCurrentAllocations milli_ops p n = Some (set_allocation milli_ops rec)"
    if "resized milli_ops rec p = p" "distinct (map ct_Name (pod_Containers p))" "has_container rec p" "rr_ContainerName rec = n" for rec p n
    using fun_cong[OF resized_allocations[OF that(2), of milli_ops rec], of n] that by simp
  have n: "rr_ContainerName sample_rec = ''app''" "rr_ContainerName side_rec = ''side''" by (simp_all add: sample_rec_def)
  show "resized milli_ops sample_rec twin_pod \<noteq> twin_pod"
    using R[OF _ d h(1) n(1)] al[of "''app''"] q(1) ne by auto
  show "resized milli_ops side_rec twin_pod \<noteq> twin_pod"
    using R[OF _ d h(2) n(2)] al[of "''side''"] q(2) ne by auto
  have d2: "distinct (map ct_Name (pod_Containers (resized milli_ops sample_rec twin_pod)))" using d by simp
  have "GetCurrentAllocations milli_ops (resized milli_ops sample_rec twin_pod) ''side'' = GetCurrentAllocations milli_ops twin_pod ''side''"
    using resized_allocations[OF d, of milli_ops sample_rec] by (simp add: n(1))
  then show "resized milli_ops side_rec (resized milli_ops sample_rec twin_pod) \<noteq> resized milli_ops sample_rec twin_pod"
    using R[OF _ d2 h(3) n(2)] al[of "''side''"] q(2) ne by auto
qed

lemma twin_outcomes:
  assumes "evaluatePodMetrics (traced_rec twin_server) (sample_pa ''InPlace'' False) EmptyConstraints DefaultConstraints DefaultConfig twin_pod twin_start
    = ((ev, ok), s')"
  shows "map ev_reason (rs_events s') = [''UpdateFailed'', ''PodResourceAdjusted'']"
proof -
  let ?pa = "sample_pa ''InPlace'' False" and ?al = "GetCurrentAllocations milli_ops twin_pod"
  let ?step = "metrics_step (traced_rec twin_server) ?pa EmptyConstraints DefaultConstraints DefaultConfig ?al"
  let ?p1 = "resized milli_ops sample_rec twin_pod"
  have o: "rc_ops twin_server = milli_ops" by simp
  have m: "update_mode ?pa = ''InPlace''" "\<not> sp_DryRun (pa_Spec ?pa)" by (simp_all add: update_mode_def sample_pa_def sample_spec_def)
  have g: "call (GetPodMetrics (traced (rc_Client twin_server)) (pod_Namespace twin_pod) (pod_Name twin_pod)) twin_start = (Inr twin_metrics, twin_start)"
    by (simp add: call_def GetPodMetrics_def traced_def untraced_def strict_reconciler_def strict_cluster_def start_def)
  obtain ev1 s1 where s1: "?step (eval_start twin_pod, twin_start) sample_metrics = (ev1, s1)" by fastforce
  obtain ev2 s2 where s2: "?step (ev1, s1) (sample_metrics\<lparr>cm_Name := ''side''\<rparr>) = (ev2, s2)" by fastforce
  have f: "foldl ?step (eval_start twin_pod, twin_start) twin_metrics = (ev2, s2)"
    unfolding twin_metrics_def using s1 s2 unfolding twin_metrics_def by simp
  have same: "s' = s2" using assms by (simp add: evaluatePodMetrics_def g f)
  obtain t0 a1 where t0: "rs_world t0 = rs_world twin_start" "rs_events t0 = rs_events twin_start"
    "applyRecommendation (traced_rec twin_server) ?pa twin_pod sample_rec ''podfather'' t0 = ((a1, ea_pod ev1), s1)"
    using metrics_planned.wanted[OF m(2) twin_wants(1)[folded o] s1[folded o]] by (auto simp: eval_start_def)
  have hs: "has_container sample_rec twin_pod" "has_container side_rec ?p1"
    by (simp_all add: has_container_names) (simp_all add: twin_pod_def sample_pod_def sample_rec_def)
  have d0: "distinct (map key (fst (rs_world t0)))" "twin_pod \<in> set (fst (rs_world t0))" by (simp_all add: t0(1) start_def)
  have b0: "twin_pod = twin_pod\<lparr>pod_Containers := pod_Containers twin_pod\<rparr>" by simp
  from strict.tried[unfolded strict_ops, OF t0(3) m(1) hs(1) twin_changes(1) d0 b0]
  obtain why1 where W1: "ea_pod ev1 = ?p1" "strict.outcome (ea_pod ev1) t0 s1 a1 why1"
    "why1 = ''UpdateFailed'' \<longleftrightarrow> isl (fst (PatchPod (rc_Client twin_server) twin_pod (ea_pod ev1) (fst (rs_world t0))))"
    by (auto simp: o)
  have "why1 = ''UpdateFailed''" using W1(3) by (simp add: strict_reconciler_def strict_cluster_def)
  then have e1: "map ev_reason (rs_events s1) = [''UpdateFailed'']" "fst (rs_world s1) = [twin_pod]"
    using W1(2) by (auto simp: strict.outcome_def t0(1,2) start_def)
  obtain t1 a2 where t1: "rs_world t1 = rs_world s1" "rs_events t1 = rs_events s1"
    "applyRecommendation (traced_rec twin_server) ?pa ?p1 side_rec ''podfather'' t1 = ((a2, ea_pod ev2), s2)"
    using metrics_planned.wanted[OF m(2) twin_wants(2)[folded o] s2[folded o]] by (auto simp: W1(1))
  have d1: "distinct (map key (fst (rs_world t1)))" "twin_pod \<in> set (fst (rs_world t1))" by (simp_all add: t1(1) e1(2))
  have b: "?p1 = twin_pod\<lparr>pod_Containers := pod_Containers ?p1\<rparr>" by (simp add: resized_def)
  from strict.tried[unfolded strict_ops, OF t1(3) m(1) hs(2) twin_changes(2) d1 b]
  obtain why2 where W2: "ea_pod ev2 = resized milli_ops side_rec ?p1" "strict.outcome (ea_pod ev2) t1 s2 a2 why2"
    "why2 = ''UpdateFailed'' \<longleftrightarrow> isl (fst (PatchPod (rc_Client twin_server) ?p1 (ea_pod ev2) (fst (rs_world t1))))"
    by (auto simp: o)
  have k: "key ?p1 = key twin_pod" by simp
  have "why2 \<noteq> ''UpdateFailed''"
    using W2(3) twin_changes(1) by (simp add: strict_reconciler_def strict_cluster_def t1(1) e1(2) k Let_def)
  then have "map ev_reason (rs_events s2) = [''UpdateFailed'', ''PodResourceAdjusted'']"
    using W2(2) e1(1) by (auto simp: strict.outcome_def t1(2))
  then show ?thesis by (simp add: same)
qed

theorem refused_resizes_ride_along_witness:
  "\<exists>ev ok s'. evaluatePodMetrics (traced_rec twin_server) (sample_pa ''InPlace'' False) EmptyConstraints DefaultConstraints DefaultConfig twin_pod twin_start
       = ((ev, ok), s')
     \<and> map ev_reason (rs_events s') = [''UpdateFailed'', ''PodResourceAdjusted''] \<and> ea_adj ev = 1
     \<and> fst (rs_world s') = [resized milli_ops side_rec (resized milli_ops sample_rec twin_pod)]"
proof -
  let ?pa = "sample_pa ''InPlace'' False"
  obtain ev ok s' where e: "evaluatePodMetrics (traced_rec twin_server) ?pa EmptyConstraints DefaultConstraints DefaultConfig twin_pod twin_start
      = ((ev, ok), s')" by (metis surj_pair)
  have o: "rc_ops twin_server = milli_ops" by simp
  have m: "update_mode ?pa = ''InPlace''" "\<not> sp_DryRun (pa_Spec ?pa)" by (simp_all add: update_mode_def sample_pa_def sample_spec_def)
  have p: "plan (rc_ops twin_server) (\<lambda>_. metrics_want (rc_ops twin_server) EmptyConstraints DefaultConstraints DefaultConfig
      (GetCurrentAllocations (rc_ops twin_server) twin_pod)) twin_pod twin_metrics = [sample_rec, side_rec]"
    unfolding o using twin_wants unfolding twin_metrics_def by simp
  have s: "distinct (map key (fst (rs_world twin_start)))" "twin_pod \<in> set (fst (rs_world twin_start))"
    "fst (GetPodMetricsObject (rc_Client twin_server) (pod_Namespace twin_pod) (pod_Name twin_pod) (fst (rs_world twin_start))) = Inr twin_metrics"
    by (simp_all add: start_def strict_reconciler_def strict_cluster_def)
  have c: "changes (rc_ops twin_server) twin_pod [sample_rec, side_rec]" by (simp add: o twin_changes)
  from refused_resizes_ride_along[OF strict.patch_server_axioms m s p[symmetric] c e]
  obtain whys where W: "map ev_reason (rs_events s') = map ev_reason (rs_events twin_start) @ whys"
    "ea_adj ev = of_nat (count_list whys ''PodResourceAdjusted'')"
    "fst (rs_world s') = (if confirmed whys = 0 then fst (rs_world twin_start)
       else put_pod (apply_plan (rc_ops twin_server) (take (confirmed whys) [sample_rec, side_rec]) twin_pod) (fst (rs_world twin_start)))"
    by blast
  have "whys = [''UpdateFailed'', ''PodResourceAdjusted'']" using W(1) twin_outcomes[OF e] by (simp add: start_def)
  then have "ea_adj ev = 1" "fst (rs_world s') = [resized milli_ops side_rec (resized milli_ops sample_rec twin_pod)]"
    using W(2,3) by (simp_all add: o start_def put_pod_def)
  then show ?thesis by (intro exI conjI) (rule e, rule twin_outcomes[OF e])
qed

end
