(* ===== verification/Fallback.thy ===== *)
theory Fallback
  imports PatchFailures
begin

text \<open>
  Mode \<^verbatim>\<open>Auto\<close> on a server that does not resize pods in place: what falls back to what, and what a cycle
  does to a pod.
\<close>

section \<open>The server\<close>

text \<open>
  A patch that changes the containers is refused.  One that does not is accepted, and its answer, which is
  decoded into the pod, has the containers that the server has for the pod.  Evictions are accepted.
\<close>

locale no_resize_server =
  fixes cl :: "('w, 's, 't, 'q) cluster" and containers_of :: "string \<times> string \<Rightarrow> 'q Container list"
  assumes refused: "pod_Containers p \<noteq> pod_Containers base \<Longrightarrow> \<exists>e. fst (PatchPod cl base p w) = Inl e"
    and accepted: "pod_Containers p = pod_Containers base \<Longrightarrow> fst (PatchPod cl base p w) = Inr (p\<lparr>pod_Containers := containers_of (key p)\<rparr>)"
    and evicted: "fst (EvictPod cl n m w) = None"

text \<open>
  The recommendations for which there is something to refuse, and something to write down: the containers change,
  and the values are finite.
\<close>

definition effective :: "'q quantity_ops \<Rightarrow> 'q Pod \<Rightarrow> ResourceRecommendation \<Rightarrow> bool" where
  "effective ops pod rec \<longleftrightarrow> pod_Containers (resized ops rec pod) \<noteq> pod_Containers pod \<and> \<not> isl (marshal rec)"

fun fallback_calls :: "'q quantity_ops \<Rightarrow> 'q Pod \<Rightarrow> ResourceRecommendation list \<Rightarrow> ('s, 'q) call list" where
  "fallback_calls ops pod [] = []"
| "fallback_calls ops pod (rec # recs) =
     (let p = resized ops rec pod; js = projr (marshal rec) in
      PatchCall pod p # PatchCall p (annotate last_recommendation js p) # EvictCall (pod_Namespace pod) (pod_Name pod)
        # fallback_calls ops (annotate last_recommendation js pod) recs)"

lemma annotate_fields [simp]:
  "pod_Containers (annotate k v p) = pod_Containers p" "key (annotate k v p) = key p"
  "pod_Namespace (annotate k v p) = pod_Namespace p" "pod_Name (annotate k v p) = pod_Name p"
  by (simp_all add: annotate_def key_def)

lemma effective_annotated [simp]: "effective ops (annotate k v p) rec = effective ops p rec"
  by (simp add: effective_def resized_def)

lemma annotate_restored: "(annotate k v (resized ops rec p))\<lparr>pod_Containers := pod_Containers p\<rparr> = annotate k v p"
  by (simp add: annotate_def resized_def)

context no_resize_server
begin

lemma falls_back:
  assumes "pod_Containers pod = containers_of (key pod)" and "effective ops pod rec"
    and "ApplyRecommendation (traced cl) ops pod rec ''Auto'' w = ((res, pod'), w')"
  shows "res = Inr ''eviction-fallback'' \<and> pod' = annotate last_recommendation (projr (marshal rec)) pod
    \<and> snd w' = snd w @ fallback_calls ops pod [rec]"
proof -
  let ?p = "resized ops rec pod"
  obtain js where js: "marshal rec = Inr js" using assms(2) by (cases "marshal rec") (simp_all add: effective_def)
  let ?q = "annotate last_recommendation js ?p"
  have h: "has_container rec pod" using assms(2) resized_missing[of rec pod ops] by (cases "has_container rec pod") (auto simp: effective_def)
  obtain cs where u: "update_container ops rec (pod_Containers pod) = (cs, True)"
    using h update_container_flag[of ops rec "pod_Containers pod"]
    by (cases "update_container ops rec (pod_Containers pod)") (simp add: has_container_def)
  have p: "pod\<lparr>pod_Containers := cs\<rparr> = ?p" by (simp add: resized_def u)
  obtain e w1 where r: "PatchPod cl pod ?p (fst w) = (Inl e, w1)"
    using refused[of ?p pod "fst w"] assms(2) by (metis effective_def prod.collapse)
  have i: "applyInPlace (traced cl) ops pod rec w = ((Some (ApiErr e), ?p), (w1, snd w @ [PatchCall pod ?p]))"
    by (simp add: applyInPlace_def u Let_def p traced_def logged_def r)
  have s: "?q\<lparr>pod_Containers := containers_of (key ?q)\<rparr> = annotate last_recommendation js pod"
    using annotate_restored[where k = last_recommendation and v = js and ops = ops and rec = rec and p = pod] assms(1) by simp
  obtain w2 where a: "PatchPod cl ?p ?q w1 = (Inr (annotate last_recommendation js pod), w2)"
    using accepted[of ?q ?p w1] unfolding s by (metis annotate_fields(1) prod.collapse)
  obtain w3 where v: "EvictPod cl (pod_Namespace pod) (pod_Name pod) w2 = (None, w3)"
    using evicted[of "pod_Namespace pod" "pod_Name pod" w2] by (metis prod.collapse)
  have "applyViaEviction (traced cl) ?p rec (w1, snd w @ [PatchCall pod ?p]) =
      ((None, annotate last_recommendation js pod), (w3, snd w @ [PatchCall pod ?p, PatchCall ?p ?q, EvictCall (pod_Namespace pod) (pod_Name pod)]))"
    by (simp add: applyViaEviction_def js Let_def traced_def logged_def a v)
  then show ?thesis using assms(3) i by (auto simp: ApplyRecommendation_def js Let_def)
qed

end

section \<open>The loops\<close>

lemma applied_fallback:
  assumes "no_resize_server (rc_Client r) containers_of" and "update_mode pa = ''Auto''"
    and "pod_Containers pod = containers_of (key pod)" and "effective (rc_ops r) pod rec"
    and "applyRecommendation (traced_rec r) pa pod rec source s = ((adj, pod'), s')"
  shows "adj = 1 \<and> pod' = annotate last_recommendation (projr (marshal rec)) pod \<and> tr s' = tr s @ fallback_calls (rc_ops r) pod [rec]"
proof -
  obtain res p w where a: "ApplyRecommendation (traced (rc_Client r)) (rc_ops r) pod rec ''Auto'' (rs_world s) = ((res, p), w)"
    by (metis surj_pair)
  note F = no_resize_server.falls_back[OF assms(1,3,4) a]
  have "call (ApplyRecommendation (traced (rc_Client r)) (rc_ops r) pod rec (update_mode pa)) s =
      ((Inr ''eviction-fallback'', p), s\<lparr>rs_world := w\<rparr>)"
    using a F by (simp add: call_def assms(2))
  then have "adj = 1 \<and> pod' = p \<and> rs_world s' = w"
    using assms(5) by (auto simp: applyRecommendation_def update_mode_def Let_def Eventf_def count_def)
  then show ?thesis using F by blast
qed

context planned_loop
begin

lemma follows_fallbacks:
  assumes srv: "no_resize_server (rc_Client r) containers_of" and mode: "update_mode pa = ''Auto''" "\<not> sp_DryRun (pa_Spec pa)"
    and same: "\<And>js p x. want (annotate last_recommendation js p) x = want p x"
  shows "pod_Containers (ea_pod ev) = containers_of (key (ea_pod ev))
    \<Longrightarrow> \<forall>rec\<in>set (wanted_recs want (ea_pod ev) xs). effective (rc_ops r) (ea_pod ev) rec
    \<Longrightarrow> foldl step (ev, s) xs = (ev', s')
    \<Longrightarrow> ea_adj ev' = ea_adj ev + of_nat (length (wanted_recs want (ea_pod ev) xs))
      \<and> tr s' = tr s @ fallback_calls (rc_ops r) (ea_pod ev) (wanted_recs want (ea_pod ev) xs)"
proof (induction xs arbitrary: ev s)
  case (Cons x xs)
  obtain ev1 s1 where s1: "step (ev, s) x = (ev1, s1)" by fastforce
  then have rest: "foldl step (ev1, s1) xs = (ev', s')" using Cons.prems(3) by simp
  show ?case
  proof (cases "want (ea_pod ev) x")
    case None
    then have u: "ea_pod ev1 = ea_pod ev" "ea_adj ev1 = ea_adj ev" "rs_world s1 = rs_world s" using unwanted[OF mode(2)] s1 by blast+
    then show ?thesis using Cons.IH[OF _ _ rest] Cons.prems(1,2) None by (simp add: wanted_recs_def map_filter_simps)
  next
    case (Some rec)
    obtain s0 adj where a: "rs_world s0 = rs_world s" "ea_adj ev1 = ea_adj ev + adj"
      "applyRecommendation (traced_rec r) pa (ea_pod ev) rec source s0 = ((adj, ea_pod ev1), s1)"
      using wanted[OF mode(2) Some s1] by blast
    have w: "wanted_recs want (ea_pod ev) (x # xs) = rec # wanted_recs want (ea_pod ev) xs"
      using Some by (simp add: wanted_recs_def map_filter_simps)
    then have "effective (rc_ops r) (ea_pod ev) rec" using Cons.prems(2) by simp
    note F = applied_fallback[OF srv mode(1) Cons.prems(1) this a(3), unfolded a(1)]
    have "want (ea_pod ev1) = want (ea_pod ev)" using F same by (intro ext) simp
    then have w1: "wanted_recs want (ea_pod ev1) xs = wanted_recs want (ea_pod ev) xs" by (simp add: wanted_recs_def)
    have "\<forall>rec\<in>set (wanted_recs want (ea_pod ev1) xs). effective (rc_ops r) (ea_pod ev1) rec"
      using Cons.prems(2) F unfolding w1 w by simp
    moreover have "pod_Containers (ea_pod ev1) = containers_of (key (ea_pod ev1))" using Cons.prems(1) F by simp
    ultimately have "ea_adj ev' = ea_adj ev1 + of_nat (length (wanted_recs want (ea_pod ev) xs))
      \<and> tr s' = tr s1 @ fallback_calls (rc_ops r) (ea_pod ev1) (wanted_recs want (ea_pod ev) xs)"
      using Cons.IH[OF _ _ rest] unfolding w1 by blast
    then show ?thesis using F a(2) unfolding w by (simp add: Let_def)
  qed
qed (simp add: wanted_recs_def map_filter_simps)

end

section \<open>One pod of a cycle\<close>

lemma cycle_fallbacks:
  assumes "no_resize_server (rc_Client r) containers_of" "update_mode pa = ''Auto''" "\<not> sp_DryRun (pa_Spec pa)"
    and m: "fst (GetPodMetricsObject (rc_Client r) (pod_Namespace pod) (pod_Name pod) (fst (rs_world s))) = Inr ms"
    and pod: "pod_Containers pod = containers_of (key pod)"
    and recs: "recs = eviction_plan (rc_ops r) ms v vrecs nc cst cfg pod" "\<forall>rec\<in>set recs. effective (rc_ops r) pod rec"
    and e: "cycle_step (traced_rec r) pa v vrecs nc cst cfg (cy, s) pod = (cy', s')"
  shows "cy_adj cy' = cy_adj cy + of_nat (length recs) \<and> tr s' = tr s @ fallback_calls (rc_ops r) pod recs"
proof (cases v)
  case True
  obtain ev s1 where f: "foldl (vpa_step (traced_rec r) pa nc cst cfg) (eval_start pod, s) vrecs = (ev, s1)" by fastforce
  have c: "s' = s1" "cy_adj cy' = cy_adj cy + ea_adj ev" using e True by (auto simp: cycle_step_def evaluateVPAPod_def f)
  have "vpa_want (rc_ops r) nc cst cfg (annotate last_recommendation js p) x = vpa_want (rc_ops r) nc cst cfg p x" for js p x
    by (simp add: annotations_unread)
  from vpa_planned.follows_fallbacks[OF assms(1-3) this _ _ f] show ?thesis
    using recs pod by (simp add: c eviction_plan_def True eval_start_def)
next
  case False
  let ?allocs = "GetCurrentAllocations (rc_ops r) pod"
  obtain w' where y: "GetPodMetricsObject (rc_Client r) (pod_Namespace pod) (pod_Name pod) (fst (rs_world s)) = (Inr ms, w')"
    using m by (metis prod.collapse)
  obtain x s1 where g: "call (GetPodMetrics (traced (rc_Client r)) (pod_Namespace pod) (pod_Name pod)) s = (x, s1)" by (metis surj_pair)
  have x: "x = Inr ms" using metrics_answer[OF g y] by simp
  have t1: "tr s1 = tr s" using g by (rule call_reads)
  obtain ev s2 where f: "foldl (metrics_step (traced_rec r) pa nc cst cfg ?allocs) (eval_start pod, s1) ms = (ev, s2)" by fastforce
  have c: "s' = s2" "cy_adj cy' = cy_adj cy + ea_adj ev" using e False by (auto simp: cycle_step_def evaluatePodMetrics_def g x f)
  from metrics_planned.follows_fallbacks[OF assms(1-3) refl _ _ f] show ?thesis
    using recs pod by (simp add: c eviction_plan_def False eval_start_def t1)
qed

lemma fallback_evictions:
  "filter is_evict (fallback_calls ops pod recs :: ('s, 'q) call list) = replicate (length recs) (EvictCall (pod_Namespace pod) (pod_Name pod))"
  by (induction recs arbitrary: pod) (simp_all add: Let_def)

lemma fallback_plan_unread: "effective ops (pod\<lparr>pod_Annotations := a\<rparr>) rec = effective ops pod rec"
  by (simp add: effective_def resized_def)

text \<open>
  C35. Without resizing in place mode \<^verbatim>\<open>Auto\<close> comes to nothing but evictions.  On a server that refuses to change
  the containers of a pod, a cycle tries each of the significant recommendations in place, is refused, then
  annotates the pod and evicts it: one eviction for every recommendation, each of them counted
  as an adjustment.  Nothing of this depends on the annotations of the pod, so the pod that replaces
  it with the same containers is treated in the same way by the next cycle.
\<close>

theorem auto_comes_to_evictions:
  assumes "no_resize_server (rc_Client r) containers_of" and "update_mode pa = ''Auto''" and "\<not> sp_DryRun (pa_Spec pa)"
    and "fst (GetPodMetricsObject (rc_Client r) (pod_Namespace pod) (pod_Name pod) (fst (rs_world s))) = Inr ms"
    and "pod_Containers pod = containers_of (key pod)"
    and "recs = eviction_plan (rc_ops r) ms v vrecs nc cst cfg pod" and "\<forall>rec\<in>set recs. effective (rc_ops r) pod rec"
    and "cycle_step (traced_rec r) pa v vrecs nc cst cfg (cy, s) (pod\<lparr>pod_Annotations := a\<rparr>) = (cy', s')"
  shows "tr s' = tr s @ fallback_calls (rc_ops r) (pod\<lparr>pod_Annotations := a\<rparr>) recs
    \<and> cy_adj cy' = cy_adj cy + of_nat (length recs)
    \<and> filter is_evict (tr s') = filter is_evict (tr s) @ replicate (length recs) (EvictCall (pod_Namespace pod) (pod_Name pod))"
proof -
  let ?p = "pod\<lparr>pod_Annotations := a\<rparr>"
  have p: "fst (GetPodMetricsObject (rc_Client r) (pod_Namespace ?p) (pod_Name ?p) (fst (rs_world s))) = Inr ms"
    "pod_Containers ?p = containers_of (key ?p)" using assms(4,5) by (simp_all add: key_def)
  have "recs = eviction_plan (rc_ops r) ms v vrecs nc cst cfg ?p" "\<forall>rec\<in>set recs. effective (rc_ops r) ?p rec"
    using assms(6,7) by (simp_all only: eviction_plan_unread fallback_plan_unread)
  from cycle_fallbacks[OF assms(1-3) p this assms(8)] show ?thesis by (simp add: fallback_evictions)
qed

section \<open>A server without resizing\<close>

definition old_cluster :: "(nat, string, string, int) cluster" where
  "old_cluster = (fixed_cluster (sample_pa ''Auto'' False) [twin_pod] twin_metrics [] [] [])
     \<lparr>PatchPod := (\<lambda>base p w.
        if pod_Containers p \<noteq> pod_Containers base then (Inl \<lparr>ae_text = ''pod updates may not change fields'', ae_not_found = False\<rparr>, w)
        else (Inr (p\<lparr>pod_Containers := pod_Containers twin_pod\<rparr>), Suc w))\<rparr>"

definition old_reconciler :: "(nat, string, string, int) reconciler" where
  "old_reconciler = \<lparr>rc_Client = old_cluster, rc_ops = milli_ops, rc_uops = plain_unstructured, rc_VPAClient = False,
     rc_NamespaceLimitsFetcher = False\<rparr>"

interpretation old: no_resize_server "rc_Client old_reconciler" "\<lambda>k. pod_Containers twin_pod"
  by unfold_locales (simp_all add: old_reconciler_def old_cluster_def fixed_cluster_def)

lemma resized_same: "pod_Containers (resized ops rec pod) = pod_Containers pod \<Longrightarrow> resized ops rec pod = pod"
  by (simp add: resized_def)

theorem auto_comes_to_evictions_witness:
  "\<exists>cy s. cycle_step (traced_rec old_reconciler) (sample_pa ''Auto'' False) False [] EmptyConstraints DefaultConstraints DefaultConfig
       (\<lparr>cy_recs = [], cy_adj = 0, cy_metricsAvailable = True, cy_reasons = []\<rparr>, start (0, [])) (twin_pod\<lparr>pod_Annotations := None\<rparr>) = (cy, s)
     \<and> cy_adj cy = 2 \<and> filter is_evict (tr s) = [EvictCall ''prod'' ''web-1'', EvictCall ''prod'' ''web-1'']"
proof -
  let ?pa = "sample_pa ''Auto'' False" and ?cy = "\<lparr>cy_recs = [], cy_adj = 0, cy_metricsAvailable = True, cy_reasons = []\<rparr> :: int cycle"
  let ?s = "start (0, []) :: (nat \<times> (string, int) call list) rstate"
  obtain cy s where e: "cycle_step (traced_rec old_reconciler) ?pa False [] EmptyConstraints DefaultConstraints DefaultConfig (?cy, ?s)
      (twin_pod\<lparr>pod_Annotations := None\<rparr>) = (cy, s)" by (metis surj_pair)
  have h: "update_mode ?pa = ''Auto''" "\<not> sp_DryRun (pa_Spec ?pa)"
    "fst (GetPodMetricsObject (rc_Client old_reconciler) (pod_Namespace twin_pod) (pod_Name twin_pod) (fst (rs_world ?s))) = Inr twin_metrics"
    by (simp_all add: old_reconciler_def old_cluster_def fixed_cluster_def update_mode_def sample_pa_def sample_spec_def)
  have o: "rc_ops old_reconciler = milli_ops" by (simp add: old_reconciler_def)
  have m: "\<not> isl (marshal sample_rec)" "\<not> isl (marshal side_rec)"
    using marshal_ok[of sample_rec] marshal_ok[of side_rec] by (auto simp: sample_rec_def float_eval)
  have f: "\<forall>rec\<in>set [sample_rec, side_rec]. effective (rc_ops old_reconciler) twin_pod rec"
    using m twin_changes(1,3) resized_same[of milli_ops _ twin_pod] by (auto simp: effective_def o)
  have n: "pod_Namespace twin_pod = ''prod''" "pod_Name twin_pod = ''web-1''" by (simp_all add: twin_pod_def sample_pod_def)
  from conjunct2[OF auto_comes_to_evictions[OF old.no_resize_server_axioms h refl twin_plan[symmetric, folded o] f e]]
  have "cy_adj cy = 2 \<and> filter is_evict (tr s) = [EvictCall ''prod'' ''web-1'', EvictCall ''prod'' ''web-1'']"
    by (simp add: n start_def)
  with e show ?thesis by blast
qed

end
