(* ===== verification/VpaConflict.thy ===== *)
theory VpaConflict
  imports ReconcileProps
begin

text \<open>
  What the condition \<^verbatim>\<open>VPAConflict\<close> says after a cycle, against what the check for a VPA has found.
\<close>

section \<open>The check\<close>

text \<open>The VPA the check finds, if any.\<close>

definition vpa_found :: "('w, 's, 't, 'q) reconciler \<Rightarrow> ('s, 'q) PodAutoscaler \<Rightarrow> 'w rstate \<Rightarrow> 'q VPAInfo option" where
  "vpa_found r pa s =
     (if \<not> rc_VPAClient r \<or> vpa_disabled pa then None
      else case call (IsVPAInstalled (rc_Client r)) s of (False, s) \<Rightarrow> None | (True, s) \<Rightarrow> fst (lookup_vpa r pa s))"

definition in_conflict :: "'q VPAInfo option \<Rightarrow> bool" where
  "in_conflict found \<longleftrightarrow> (\<exists>v. found = Some v \<and> vi_UpdateMode v \<noteq> ''Off'')"

definition reports_conflict :: "VPAIntegrationStatus option \<Rightarrow> bool" where
  "reports_conflict st \<longleftrightarrow> (\<exists>x. st = Some x \<and> vs_VPAConflict x \<noteq> [])"

lemma validate_text: "ValidateVPAMode (Some v) = Some err \<Longrightarrow> err_text err \<noteq> []"
  by (auto simp: ValidateVPAMode_def split: if_splits)

lemma validate_Off: "ValidateVPAMode (Some v) = None \<longleftrightarrow> vi_UpdateMode v = ''Off''"
  by (simp add: ValidateVPAMode_def)

lemma checkVPA_found:
  assumes "checkVPAIntegration r pa s = ((vres, pa1), s1)"
  shows "reports_conflict (vc_status vres) \<longleftrightarrow> in_conflict (vpa_found r pa s)"
    and "if vpa_found r pa s = None \<or> in_conflict (vpa_found r pa s) then pa1 = pa
      else \<exists>now. pa1 = cond_upd now ''VPAConflict'' ''False'' ''NoConflict'' ''VPA is in Off mode'' pa"
proof -
  have S: "reports_conflict (Some (vpa_status b)) = False" for b by (simp add: reports_conflict_def vpa_status_def)
  have "(reports_conflict (vc_status vres) \<longleftrightarrow> in_conflict (vpa_found r pa s))
    \<and> (if vpa_found r pa s = None \<or> in_conflict (vpa_found r pa s) then pa1 = pa
       else \<exists>now. pa1 = cond_upd now ''VPAConflict'' ''False'' ''NoConflict'' ''VPA is in Off mode'' pa)"
  proof (cases "\<not> rc_VPAClient r \<or> vpa_disabled pa")
    case True
    then show ?thesis using assms S
      by (auto simp: checkVPAIntegration_def vpa_found_def in_conflict_def reports_conflict_def vpa_status_def split: if_splits)
  next
    case False
    obtain b s2 where i: "call (IsVPAInstalled (rc_Client r)) s = (b, s2)" by (metis surj_pair)
    obtain x s3 where l: "lookup_vpa r pa s2 = (x, s3)" by (metis surj_pair)
    have f: "vpa_found r pa s = (if b then x else None)" using False by (simp add: vpa_found_def i l)
    show ?thesis
    proof (cases "b \<and> x \<noteq> None")
      case True
      then obtain v where v: "b" "x = Some v" by blast
      have f: "vpa_found r pa s = Some v" by (simp add: f v)
      show ?thesis
      proof (cases "ValidateVPAMode (Some v)")
        case None
        obtain p s4 where sc: "setCondition r pa ''VPAConflict'' ConditionFalse ''NoConflict'' ''VPA is in Off mode'' s3 = (p, s4)"
          by (metis surj_pair)
        have "pa1 = p" "vc_status vres \<noteq> None" "\<not> reports_conflict (vc_status vres)"
          using assms False
          by (simp_all add: checkVPAIntegration_def i l v None sc[simplified] Let_def reports_conflict_def vpa_status_def split: if_splits)
             auto
        then show ?thesis using setCondition_cond[OF sc] validate_Off[of v] None by (simp add: f in_conflict_def)
      next
        case (Some err)
        have "pa1 = pa" "reports_conflict (vc_status vres)"
          using assms False validate_text[OF Some]
          by (auto simp: checkVPAIntegration_def i l v Some reports_conflict_def Let_def)
        then show ?thesis using validate_Off[of v] Some by (simp add: f in_conflict_def)
      qed
    next
      case F: False
      then have "vpa_found r pa s = None" using f by auto
      moreover have "pa1 = pa" "\<not> reports_conflict (vc_status vres)"
        using assms False F S by (auto simp: checkVPAIntegration_def i l Let_def split: bool.splits)
      ultimately show ?thesis by (simp add: in_conflict_def)
    qed
  qed
  then show "reports_conflict (vc_status vres) \<longleftrightarrow> in_conflict (vpa_found r pa s)"
    and "if vpa_found r pa s = None \<or> in_conflict (vpa_found r pa s) then pa1 = pa
      else \<exists>now. pa1 = cond_upd now ''VPAConflict'' ''False'' ''NoConflict'' ''VPA is in Off mode'' pa" by simp_all
qed

section \<open>The condition after a cycle\<close>

lemma halts_iff:
  "shouldHaltForVPAConflict pa vres \<longleftrightarrow>
     reports_conflict (vc_status vres) \<and> (\<exists>p. sp_VPAPolicy (pa_Spec pa) = Some p \<and> vp_StrictMode p)"
  by (auto simp: shouldHaltForVPAConflict_def reports_conflict_def split: option.splits)

text \<open>
  C40. The condition \<^verbatim>\<open>VPAConflict\<close> and the reported conflict can disagree.  Without strict mode a cycle
  reports a conflict text exactly when it found a VPA that is not \<^verbatim>\<open>Off\<close>; but the condition becomes False
  when the VPA is \<^verbatim>\<open>Off\<close>, and keeps whatever it said before otherwise: an old True stays when the VPA has
  been deleted or the integration disabled, and an old False stays although a conflict is reported.
\<close>

theorem conflict_condition_stale:
  assumes "reconcile_pods (traced_rec r) pa pods s = (res, s')"
    and "\<not> (\<exists>p. sp_VPAPolicy (pa_Spec pa) = Some p \<and> vp_StrictMode p)"
  shows "\<exists>new pa'. tr s' = tr s @ new @ [StatusCall pa']
    \<and> (reports_conflict (st_VPAStatus (pa_Status pa')) \<longleftrightarrow> in_conflict (vpa_found (traced_rec r) pa s))
    \<and> (if vpa_found (traced_rec r) pa s = None \<or> in_conflict (vpa_found (traced_rec r) pa s)
       then \<forall>v. holds ''VPAConflict'' v (pa_Status pa') \<longleftrightarrow> holds ''VPAConflict'' v (pa_Status pa)
       else holds ''VPAConflict'' ''False'' (pa_Status pa'))"
proof -
  obtain vres pa1 s1 where c: "checkVPAIntegration (traced_rec r) pa s = ((vres, pa1), s1)" by (metis surj_pair)
  note F = checkVPA_found[OF c]
  have h: "\<not> shouldHaltForVPAConflict pa vres" using assms(2) by (simp add: halts_iff)
  obtain nc s2 where f: "fetch_constraints (traced_rec r) (upd_status (st_VPAStatus_update (\<lambda>_. vc_status vres)) pa1) s1 = (nc, s2)"
    by (metis surj_pair)
  let ?q = "cycle_object (rc_ops r) vres nc pa1"
  obtain cy s3 where run: "run_cycle (traced_rec r) ?q (uses_vpa vres) (vc_recommendations vres) nc pods s2 = (cy, s3)"
    by (metis surj_pair)
  obtain new pa' where n: "tr s' = tr s @ new @ [StatusCall pa']" "reports ?q cy pa'"
    using reconcile_cycle[OF c h f run assms(1)] by blast
  have q: "st_VPAStatus (pa_Status pa') = vc_status vres"
    "holds ''VPAConflict'' v (pa_Status pa') \<longleftrightarrow> holds ''VPAConflict'' v (pa_Status pa1)" for v
    using n(2) by (simp_all add: reports_def Let_def cycle_object_def)
  have "if vpa_found (traced_rec r) pa s = None \<or> in_conflict (vpa_found (traced_rec r) pa s)
    then \<forall>v. holds ''VPAConflict'' v (pa_Status pa') \<longleftrightarrow> holds ''VPAConflict'' v (pa_Status pa)
    else holds ''VPAConflict'' ''False'' (pa_Status pa')"
  proof (cases "vpa_found (traced_rec r) pa s = None \<or> in_conflict (vpa_found (traced_rec r) pa s)")
    case True
    then show ?thesis using F(2) by (simp add: q(2))
  next
    case False
    with F(2) obtain now where "pa1 = cond_upd now ''VPAConflict'' ''False'' ''NoConflict'' ''VPA is in Off mode'' pa" by auto
    with False show ?thesis by (auto simp: q(2) cond_upd_def)
  qed
  moreover have "reports_conflict (st_VPAStatus (pa_Status pa')) \<longleftrightarrow> in_conflict (vpa_found (traced_rec r) pa s)"
    by (simp only: q(1) F(1))
  ultimately show ?thesis using n(1) by blast
qed

text \<open>A status that still says True, an integration that is switched off, and a cycle that ends Active.\<close>

definition stale_pa :: "(string, int) PodAutoscaler" where
  "stale_pa = (sample_pa ''Auto'' False)\<lparr>
     pa_Spec := (sample_spec ''Auto'' False)\<lparr>sp_VPAPolicy := Some \<lparr>vp_Enabled = Some False, vp_VPAName = [], vp_StrictMode = False\<rparr>\<rparr>,
     pa_Status := empty_status\<lparr>st_Conditions := [\<lparr>cond_Type = ''VPAConflict'', cond_Status = ''True'', cond_Reason = ''VPAConflict'',
       cond_Message = [], cond_LastTransitionTime = 0\<rparr>]\<rparr>\<rparr>"

theorem conflict_condition_stale_witness:
  "\<exists>res s' new pa'. reconcile_pods (traced_rec (sample_reconciler stale_pa [sample_pod] [] [])) stale_pa [sample_pod] (start (0, [])) = (res, s')
     \<and> tr s' = new @ [StatusCall pa'] \<and> holds ''VPAConflict'' ''True'' (pa_Status pa') \<and> \<not> reports_conflict (st_VPAStatus (pa_Status pa'))"
proof -
  let ?r = "sample_reconciler stale_pa [sample_pod] [] []"
  obtain res s' where e: "reconcile_pods (traced_rec ?r) stale_pa [sample_pod] (start (0, [])) = (res, s')" by (metis surj_pair)
  have v: "vpa_found (traced_rec ?r) stale_pa (start (0, [])) = None" by (simp add: vpa_found_def vpa_disabled_def stale_pa_def)
  have h: "holds ''VPAConflict'' ''True'' (pa_Status stale_pa)" by (simp add: stale_pa_def cond_holds_def)
  have n: "\<not> (\<exists>p. sp_VPAPolicy (pa_Spec stale_pa) = Some p \<and> vp_StrictMode p)" by (simp add: stale_pa_def)
  obtain new pa' where "tr s' = new @ [StatusCall pa']" "holds ''VPAConflict'' ''True'' (pa_Status pa')"
    "\<not> reports_conflict (st_VPAStatus (pa_Status pa'))"
    using conflict_condition_stale[OF e n, unfolded v] h by (auto simp: in_conflict_def start_def)
  with e show ?thesis by blast
qed

end
