(* ===== verification/WriteBound.thy ===== *)
theory WriteBound
  imports System
begin

text \<open>
  How much a reconciliation writes: the loops over pods, recommendations and container metrics each
  cost at most so much per iteration, so the whole ends within a number of writes that the sizes
  of the answers determine.
\<close>

section \<open>The cost of a loop\<close>

locale loop_cost =
  fixes cost :: "'a \<Rightarrow> nat" and step :: "'a \<Rightarrow> 'b \<Rightarrow> 'a" and n :: nat
  assumes step_cost: "cost (step a x) \<le> cost a + n"
begin

lemma loop: "cost (foldl step a xs) \<le> cost a + n * length xs"
proof (induction xs arbitrary: a)
  case (Cons x xs)
  show ?case using Cons.IH[of "step a x"] step_cost[of a x] by simp
qed simp

end

abbreviation written :: "('w \<times> 'c list) rstate \<Rightarrow> nat" where
  "written s \<equiv> length (tr s)"

section \<open>One pod\<close>

lemma eviction_calls_length: "eviction_calls rec pod new \<Longrightarrow> length new \<le> 2"
  by (auto simp: eviction_calls_def split: sum.splits)

lemma inplace_calls_length: "length (inplace_calls ops rec pod) \<le> 1"
  by (simp add: inplace_calls_def)

lemma Apply_length:
  assumes "ApplyRecommendation (traced cl) ops pod rec mode s = ((x, pod'), s')"
  shows "length (snd s') \<le> length (snd s) + 3"
proof -
  consider "mode = ''InPlace''" | "mode = ''Recreate''" | "mode = ''Auto''" | "mode \<notin> {''InPlace'', ''Recreate'', ''Auto''}"
    by blast
  then show ?thesis
  proof cases
    case 1
    with assms Apply_InPlace(1)[of cl ops pod rec s x pod' s'] show ?thesis by (simp add: inplace_calls_def)
  next
    case 2
    with assms Apply_Recreate[of cl ops pod rec s x pod' s'] show ?thesis by (auto dest: eviction_calls_length)
  next
    case 3
    with assms Apply_Auto[of cl ops pod rec s x pod' s'] show ?thesis
      by (auto simp: inplace_calls_def split: if_splits dest: eviction_calls_length)
  next
    case 4
    with assms have "s' = s" by (auto simp: ApplyRecommendation_def split: if_splits)
    then show ?thesis by simp
  qed
qed

lemma applyRecommendation_written:
  assumes "applyRecommendation (traced_rec r) pa pod rec source s = ((adj, pod'), s')"
  shows "written s' \<le> written s + 3"
proof -
  obtain x p w where a: "ApplyRecommendation (traced (rc_Client r)) (rc_ops r) pod rec (update_mode pa) (rs_world s) = ((x, p), w)"
    by (metis surj_pair)
  have "tr s' = snd w"
    using assms a by (auto simp: applyRecommendation_def update_mode_def call_def Let_def split: sum.splits)
  then show ?thesis using Apply_length[OF a] by simp
qed

interpretation vpa_cost: loop_cost "\<lambda>a. written (snd a)" "vpa_step (traced_rec r) pa nc cst cfg" 3
    for r pa nc cst cfg
proof
  show "written (snd (vpa_step (traced_rec r) pa nc cst cfg a v)) \<le> written (snd a) + 3" for a v
    by (cases a) (auto simp: vpa_step_def Let_def split: prod.splits dest: applyRecommendation_written)
qed

interpretation metrics_cost: loop_cost "\<lambda>a. written (snd a)" "metrics_step (traced_rec r) pa nc cst cfg allocs" 3
    for r pa nc cst cfg allocs
proof
  show "written (snd (metrics_step (traced_rec r) pa nc cst cfg allocs a cm)) \<le> written (snd a) + 3" for a cm
    by (cases a) (auto simp: metrics_step_def Let_def split: prod.splits option.splits sum.splits dest: applyRecommendation_written)
qed

interpretation cleanup_cost: loop_cost written "cleanup_pod (traced_rec r)" 1 for r
  by unfold_locales (simp add: cleanup_pod_trace)

section \<open>Bounded answers\<close>

definition lists_at_most :: "unstructured_ops \<Rightarrow> nat \<Rightarrow> imap \<Rightarrow> bool" where
  "lists_at_most u k v \<longleftrightarrow>
     (case NestedSlice u v [''status'', ''recommendation'', ''containerRecommendations''] of Found l \<Rightarrow> length l \<le> k | _ \<Rightarrow> True)"

text \<open>The API server lists at most \<open>n\<close> pods, and no pod or VPA has more than \<open>k\<close> containers.\<close>

definition answers_within :: "nat \<Rightarrow> nat \<Rightarrow> ('w, 's, 't, 'q) reconciler \<Rightarrow> bool" where
  "answers_within n k r \<longleftrightarrow> (\<forall>w.
     (\<forall>ns sel. case fst (ListPods (rc_Client r) ns sel w) of Inr pods \<Rightarrow> length pods \<le> n | _ \<Rightarrow> True)
   \<and> (\<forall>ns name. case fst (GetPodMetricsObject (rc_Client r) ns name w) of Inr pm \<Rightarrow> length pm \<le> k | _ \<Rightarrow> True)
   \<and> (\<forall>ns. case fst (ListVPAs (rc_Client r) ns w) of Inr vs \<Rightarrow> list_all (lists_at_most (rc_uops r) k) vs | _ \<Rightarrow> True)
   \<and> (\<forall>ns name. case fst (GetVPAObject (rc_Client r) ns name w) of Inr v \<Rightarrow> lists_at_most (rc_uops r) k v | _ \<Rightarrow> True))"

lemma parse_recs_length: "length (parse_recs ops l) \<le> length l"
  by (induction l) (auto split: option.split)

lemma parseVPA_length:
  "lists_at_most u k v \<Longrightarrow> parseVPA ops u v = Inr info \<Longrightarrow> length (vi_ContainerRecommendations info) \<le> k"
  using parse_recs_length by (fastforce simp: lists_at_most_def parseVPA_def Let_def split: nested.splits intro: le_trans)

lemma find_match_length:
  "list_all (lists_at_most u k) vs \<Longrightarrow> find_match ops u kind name vs = Some info \<Longrightarrow> length (vi_ContainerRecommendations info) \<le> k"
  by (induction vs) (auto split: sum.splits if_splits dest: parseVPA_length)


lemma lookup_length:
  assumes "answers_within n k r" "lookup_vpa (traced_rec r) pa s = (Some info, s')"
  shows "length (vi_ContainerRecommendations info) \<le> k"
proof -
  have l: "list_all (lists_at_most (rc_uops r) k) vs" if "ListVPAs (rc_Client r) ns w = (Inr vs, w')" for ns w vs w'
    using assms(1) that unfolding answers_within_def by (metis fst_conv sum.case(2))
  have g: "lists_at_most (rc_uops r) k v" if "GetVPAObject (rc_Client r) ns name w = (Inr v, w')" for ns name w v w'
    using assms(1) that unfolding answers_within_def by (metis fst_conv sum.case(2))
  have F: "length (vi_ContainerRecommendations info) \<le> k"
    if "call (FindMatchingVPA (traced (rc_Client r)) (rc_ops r) (rc_uops r) ns kind name) s = (Inr (Some info), s')" for ns kind name
    using that l by (auto simp: call_def FindMatchingVPA_def traced_def untraced_def split: prod.splits sum.splits if_splits
        dest: find_match_length[OF l])
  have G: "length (vi_ContainerRecommendations info) \<le> k"
    if "call (GetVPA (traced (rc_Client r)) (rc_ops r) (rc_uops r) ns name) s = (Inr (Some info), s')" for ns name
  proof -
    obtain y w' where "GetVPAObject (rc_Client r) ns name (fst (rs_world s)) = (y, w')" by (metis surj_pair)
    with that g show ?thesis
      by (cases y) (auto simp: call_def GetVPA_def traced_def untraced_def map_sum_def split: if_splits sum.splits dest: parseVPA_length[OF g])
  qed
  show ?thesis
    using assms(2) by (auto simp: lookup_vpa_def Let_def split: option.splits if_splits prod.splits sum.splits dest: F G)
qed

lemma checkVPA_length:
  assumes "answers_within n k r" "checkVPAIntegration (traced_rec r) pa s = ((res, pa'), s')"
  shows "length (vc_recommendations res) \<le> k"
  using assms(2)
  by (auto simp: checkVPAIntegration_def Let_def split: prod.splits if_splits option.splits bool.splits dest: lookup_length[OF assms(1)])

section \<open>The cycle\<close>

lemma evaluateVPAPod_written:
  "evaluateVPAPod (traced_rec r) pa recs nc cst cfg pod s = (ev, s') \<Longrightarrow> written s' \<le> written s + 3 * length recs"
  using vpa_cost.loop[of r pa nc cst cfg "(eval_start pod, s)" recs] by (simp add: evaluateVPAPod_def)

lemma evaluatePodMetrics_written:
  assumes "answers_within n k r" "evaluatePodMetrics (traced_rec r) pa nc cst cfg pod s = ((ev, ok), s')"
  shows "written s' \<le> written s + 3 * k"
proof -
  obtain x s1 where g: "call (GetPodMetrics (traced (rc_Client r)) (pod_Namespace pod) (pod_Name pod)) s = (x, s1)"
    by (metis surj_pair)
  have q: "tr s1 = tr s" using g by (rule call_reads)
  show ?thesis
  proof (cases x)
    case (Inl e)
    with assms(2) g q show ?thesis by (auto simp: evaluatePodMetrics_def)
  next
    case (Inr pm)
    obtain y w' where y: "GetPodMetricsObject (rc_Client r) (pod_Namespace pod) (pod_Name pod) (fst (rs_world s)) = (y, w')"
      by (metis surj_pair)
    then have "y = Inr pm" using g Inr by (cases y) (auto simp: call_def GetPodMetrics_def traced_def untraced_def)
    then have "length pm \<le> k" using assms(1) y unfolding answers_within_def by (metis fst_conv sum.case(2))
    moreover have "s' = snd (foldl (metrics_step (traced_rec r) pa nc cst cfg (GetCurrentAllocations (rc_ops r) pod)) (eval_start pod, s1) pm)"
      using assms(2) g Inr by (auto simp: evaluatePodMetrics_def Let_def split: prod.splits)
    ultimately show ?thesis
      using metrics_cost.loop[of r pa nc cst cfg "GetCurrentAllocations (rc_ops r) pod" "(eval_start pod, s1)" pm] q
      by simp
  qed
qed

lemma cycle_step_written:
  assumes "answers_within n k r" "length recs \<le> k"
  shows "written (snd (cycle_step (traced_rec r) pa usingVPA recs nc cst cfg a pod)) \<le> written (snd a) + 3 * k"
proof -
  have "written s' \<le> written s + 3 * k" if "evaluateVPAPod (traced_rec r) pa recs nc cst cfg pod s = (ev, s')" for ev s s'
    using evaluateVPAPod_written[OF that] assms(2) by simp
  then show ?thesis
    by (cases a) (auto simp: cycle_step_def Let_def split: prod.splits dest: evaluatePodMetrics_written[OF assms(1)])
qed

lemma run_cycle_written:
  assumes "answers_within n k r" "length recs \<le> k"
    and "run_cycle (traced_rec r) pa usingVPA recs nc pods s = (cy, s')"
  shows "written s' \<le> written s + 3 * k * length pods"
proof -
  let ?cst = "ToCalculatorConstraints nc DefaultConstraints" and ?cfg = "buildCalculatorConfig pa"
  let ?init = "\<lparr>cy_recs = [], cy_adj = 0, cy_metricsAvailable = True, cy_reasons = []\<rparr>"
  let ?step = "cycle_step (traced_rec r) pa usingVPA recs nc ?cst ?cfg"
  have L: "loop_cost (\<lambda>a. written (snd a)) ?step (3 * k)"
    by unfold_locales (rule cycle_step_written[OF assms(1,2)])
  obtain t1 s1 where n1: "call (Now (traced (rc_Client r))) s = (t1, s1)" by (metis surj_pair)
  obtain c2 s2 where f: "foldl ?step (?init, s1) pods = (c2, s2)" by (metis surj_pair)
  obtain t3 s3 where n3: "call (Now (traced (rc_Client r))) s2 = (t3, s3)" by (metis surj_pair)
  have "tr s1 = tr s" "tr s3 = tr s2" using n1 n3 by (auto dest: call_reads)
  moreover have "tr s' = tr s3" using assms(3) by (auto simp: run_cycle_def Let_def n1 f n3)
  ultimately show ?thesis
    using loop_cost.loop[OF L, of "(?init, s1)" pods] by (simp add: f)
qed

lemma reconcile_pods_written:
  assumes a: "answers_within n k r" and e: "reconcile_pods (traced_rec r) pa pods s = (res, s')"
  shows "written s' \<le> written s + 3 * k * length pods + 1"
proof -
  obtain vres pa1 s1 where c: "checkVPAIntegration (traced_rec r) pa s = ((vres, pa1), s1)" by (metis surj_pair)
  obtain d err where res: "res = (d, err)" by (cases res)
  show ?thesis
  proof (cases "shouldHaltForVPAConflict pa vres")
    case True
    then obtain st where "vc_status vres = Some st" by (auto simp: shouldHaltForVPAConflict_def split: option.splits)
    then obtain pa' where "tr s' = tr s @ [StatusCall pa']" using reconcile_halts[OF c True] e[unfolded res] by blast
    then show ?thesis by simp
  next
    case False
    let ?p = "cycle_object (rc_ops r) vres"
    obtain nc s2 where f: "fetch_constraints (traced_rec r) (upd_status (st_VPAStatus_update (\<lambda>_. vc_status vres)) pa1) s1 = (nc, s2)"
      by (metis surj_pair)
    obtain cy s3 where run: "run_cycle (traced_rec r) (?p nc pa1) (uses_vpa vres) (vc_recommendations vres) nc pods s2 = (cy, s3)"
      by (metis surj_pair)
    have h1: "\<not> shouldHaltForVPAConflict (upd_status (st_VPAStatus_update (\<lambda>_. vc_status vres)) pa1) vres"
      using False same_halt[OF checkVPA_same[OF c]] halt_status by blast
    have fin: "finish_cycle (traced_rec r) (?p nc pa1) (uses_vpa vres) cy s3 = ((d, err), s')"
      using e by (simp only: reconcile_pods_def c Let_def prod.case h1 if_False f traced_rec_simps res run
          flip: cycle_object_def uses_vpa_def)
    have "tr s2 = tr s" using fetch_trace[OF f] checkVPA_trace[OF c] by simp
    then show ?thesis
      using run_cycle_written[OF a checkVPA_length[OF a c] run] finish_cycle_status[OF fin] by auto
  qed
qed


section \<open>The reconciliation\<close>

lemma list_length:
  assumes "answers_within n k r" "call (ListPods (traced (rc_Client r)) ns sel) s = (Inr pods, s')"
  shows "length pods \<le> n"
proof -
  obtain w' where "ListPods (rc_Client r) ns sel (fst (rs_world s)) = (Inr pods, w')"
    using assms(2) by (auto simp: call_def traced_def untraced_def split: prod.splits)
  then show ?thesis using assms(1) unfolding answers_within_def by (metis fst_conv sum.case(2))
qed

lemma cleanup_written:
  assumes "answers_within n k r"
  shows "written (cleanupManagedPods (traced_rec r) pa s) \<le> written s + n"
proof -
  have "written (foldl (cleanup_pod (traced_rec r)) s' pods) \<le> written s + n"
    if "call (ListPods (traced (rc_Client r)) ns sel) s = (Inr pods, s')" for ns sel pods s'
    using cleanup_cost.loop[of r s' pods] list_length[OF assms that] call_reads(2)[OF that] by simp
  then show ?thesis
    by (auto simp: cleanupManagedPods_def split: sum.split prod.split dest: call_reads)
qed

lemma handleFinalizer_written:
  assumes "answers_within n k r" "handleFinalizer (traced_rec r) pa s = (((stop, err), pa'), s')"
  shows "written s' \<le> written s + (if stop then n else 0) + 1"
  using assms(2) cleanup_written[OF assms(1), of pa s]
  by (auto simp: handleFinalizer_def Let_def split: prod.splits sum.splits if_splits dest!: call_writes)

lemma discover_written:
  assumes "answers_within n k r" "discoverRunningPods (traced_rec r) pa s = ((x, pa'), s')"
  shows "case x of Inl err \<Rightarrow> written s' \<le> written s + 1 | Inr pods \<Rightarrow> tr s' = tr s \<and> length pods \<le> n"
proof -
  have f: "length (filterRunningPods pods) \<le> n"
    if "call (ListPods (traced (rc_Client r)) ns sel) s = (Inr pods, s2)" for ns sel pods s2
    using list_length[OF assms(1) that] le_trans[OF length_filter_le] by (auto simp: filterRunningPods_def)
  show ?thesis
    using assms(2)
    by (auto simp: discoverRunningPods_def Let_def split: prod.splits sum.splits
        dest: f call_reads dest!: setCondition_trace status_update_ignored_trace)
qed

lemma pending_written:
  assumes "setCondition (traced_rec r) pa t v rsn msg s = (p, s1)" "status_update_ignored (traced_rec r) p s1 = (p2, s2)"
  shows "written s2 = written s + 1"
  using status_update_ignored_trace[OF assms(2)] setCondition_trace[OF assms(1)] by simp

text \<open>
  C17. A reconciliation ends after a bounded number of writes, whatever the API server answers.  Let every
  listing of pods have at most \<open>n\<close> of them, and every answer about the metrics of a pod and every
  VPA at most \<open>k\<close> containers.  Then a reconciliation writes at most \<open>max n (3 k n) + 2\<close> times: either the
  cleanup of a deletion, at most once per pod, or for every pod and container of an answer at most a resize, an
  annotation and an eviction; and one update each of the finalizer and the status.
\<close>

theorem Reconcile_writes_bounded:
  assumes "answers_within n k r" and "Reconcile (traced_rec r) ns name s = (res, s')"
  shows "length (tr s') \<le> length (tr s) + max n (3 * k * n) + 2"
proof -
  obtain g s1 where g: "call (GetPodAutoscaler (traced (rc_Client r)) ns name) s = (g, s1)" by (metis surj_pair)
  have t1: "tr s1 = tr s" using g by (rule call_reads)
  show ?thesis
  proof (cases g)
    case (Inl e)
    with assms(2) g t1 show ?thesis by (auto simp: Reconcile_def split: if_splits)
  next
    case (Inr pa)
    obtain stop err pa2 s2 where f: "handleFinalizer (traced_rec r) pa s1 = (((stop, err), pa2), s2)" by (metis surj_pair)
    note F = handleFinalizer_written[OF assms(1) f, unfolded t1]
    obtain x pa3 s3 where d: "discoverRunningPods (traced_rec r) pa2 s2 = ((x, pa3), s3)" by (metis surj_pair)
    note D = discover_written[OF assms(1) d]
    show ?thesis
    proof (cases "stop \<or> (\<exists>e. x = Inl e)")
      case True
      with assms(2) g Inr f d F D show ?thesis by (auto simp: Reconcile_def split: if_splits sum.splits bool.splits)
    next
      case False
      then obtain pods where x: "x = Inr pods" "\<not> stop" by (cases x) auto
      have "written s' \<le> written s3 + 3 * k * length pods + 1"
        using assms(2) g Inr f d x
        by (auto simp: Reconcile_def Let_def split: prod.splits if_splits dest!: pending_written reconcile_pods_written[OF assms(1)])
      moreover have "3 * k * length pods \<le> max n (3 * k * n)" using D x mult_le_mono2 by (simp add: le_max_iff_disj)
      moreover have "written s3 \<le> written s + 1" using F D x by simp
      ultimately show ?thesis by linarith
    qed
  qed
qed


text \<open>One running pod, one VPA with one recommendation.\<close>

theorem Reconcile_writes_bounded_witness:
  "length (tr (snd (Reconcile (traced_rec (sample_reconciler (sample_pa ''Auto'' False) [sample_pod] [] [sample_vpa ''Off'']))
     ''prod'' ''web'' (start (0, []))))) \<le> 5"
proof -
  let ?r = "sample_reconciler (sample_pa ''Auto'' False) [sample_pod] [] [sample_vpa ''Off'']"
  have a: "answers_within 1 1 ?r"
    by (simp add: answers_within_def sample_reconciler_def fixed_cluster_def lists_at_most_def)
       (simp add: plain_unstructured_simps sample_vpa_def)
  obtain res s' where e: "Reconcile (traced_rec ?r) ''prod'' ''web'' (start (0, [])) = (res, s')" by (metis surj_pair)
  from Reconcile_writes_bounded[OF a e] have "length (tr s') \<le> 5" by (simp add: start_def)
  then show ?thesis by (simp add: e)
qed

end
