(* ===== verification/Memory.thy ===== *)
theory Memory
  imports ApiTypes
begin

text \<open>
  Memory as the generated deep copies of \<^verbatim>\<open>api/v1alpha1\<close> see it: structs with pointers, maps and
  slices in them, one typed store per type of a cell, and a counter for allocation.  Two contracts
  carry the proofs: \<open>cell\<close>, a store that can be read and written at an address, and \<open>copier\<close>, an
  operation that makes a copy which reads like its original and lives in newly allocated cells.
  The contract of a pointer or a slice of copyable things follows from the contract of the things.
  The values of library types inside the structs (quantities, label selectors, object
  metadata, conditions, times) are values here too; their own deep copies are parameters.
\<close>

section \<open>Structs in memory\<close>

text \<open>A pointer, a map or the backing array of a slice; \<open>None\<close> is nil.\<close>

type_synonym ptr = "nat option"

record TypeMeta =
  tm_Kind :: string
  tm_APIVersion :: string

record ObjectMeta =
  om_Name :: string
  om_Namespace :: string
  om_Generation :: "64 word"
  om_Deleting :: bool
  om_Finalizers :: "string list"

record ContainerRecommendation_mem =
  mcr_ContainerName :: string
  mcr_Target :: ptr
  mcr_LowerBound :: ptr
  mcr_UpperBound :: ptr

record ContainerResourcePolicy_mem =
  mcrp_ContainerName :: string
  mcrp_MinAllowed :: ptr
  mcrp_MaxAllowed :: ptr
  mcrp_ControlledResources :: ptr

record NamespaceConstraintsStatus_mem =
  mns_LimitRangeFound :: bool
  mns_ResourceQuotaFound :: bool
  mns_EffectiveMinCPU :: string
  mns_EffectiveMaxCPU :: string
  mns_EffectiveMinMemory :: string
  mns_EffectiveMaxMemory :: string
  mns_ClampReasons :: ptr

record PodAutoscalerSpec_mem =
  msp_Selector :: ptr
  msp_TargetRef :: ptr
  msp_ResourcePolicy :: ptr
  msp_UpdatePolicy :: ptr
  msp_MetricsCollectionIntervalSeconds :: ptr
  msp_EvaluationWindowMinutes :: ptr
  msp_VarianceThresholdPercent :: ptr
  msp_DryRun :: bool
  msp_VPAPolicy :: ptr

record PodAutoscalerStatus_mem =
  mst_Phase :: PodAutoscalerPhase
  mst_Conditions :: ptr
  mst_MonitoredPods :: "32 word"
  mst_Recommendation :: ptr
  mst_LastEvaluationTime :: ptr
  mst_LastUpdateTime :: ptr
  mst_TotalAdjustments :: "64 word"
  mst_ObservedGeneration :: "64 word"
  mst_VPAStatus :: ptr
  mst_NamespaceConstraints :: ptr

record PodAutoscaler_mem =
  mpa_TypeMeta :: TypeMeta
  mpa_ObjectMeta :: ObjectMeta
  mpa_Spec :: PodAutoscalerSpec_mem
  mpa_Status :: PodAutoscalerStatus_mem

record 'l PodAutoscalerList_mem =
  mpl_TypeMeta :: TypeMeta
  mpl_ListMeta :: 'l
  mpl_Items :: ptr

record Recommendation_mem =
  mrec_ContainerRecommendations :: ptr

record ResourcePolicy_mem =
  mrp_ContainerPolicies :: ptr

record UpdatePolicy_mem =
  mup_UpdateMode :: UpdateMode
  mup_MaxUnavailable :: ptr

record VPAPolicy_mem =
  mvp_Enabled :: ptr
  mvp_VPAName :: string
  mvp_StrictMode :: bool

section \<open>The heap\<close>

record ('s, 'q, 'l) heap =
  hp_next :: nat
  hp_ResourceList :: "nat \<Rightarrow> string \<rightharpoonup> 'q"
  hp_strings :: "nat \<Rightarrow> string list"
  hp_int32 :: "nat \<Rightarrow> 32 word"
  hp_bool :: "nat \<Rightarrow> bool"
  hp_Time :: "nat \<Rightarrow> int"
  hp_LabelSelector :: "nat \<Rightarrow> 's"
  hp_Conditions :: "nat \<Rightarrow> Condition list"
  hp_ContainerRecommendation :: "nat \<Rightarrow> ContainerRecommendation_mem"
  hp_ContainerRecommendations :: "nat \<Rightarrow> ContainerRecommendation_mem list"
  hp_ContainerResourcePolicy :: "nat \<Rightarrow> ContainerResourcePolicy_mem"
  hp_ContainerPolicies :: "nat \<Rightarrow> ContainerResourcePolicy_mem list"
  hp_CrossVersionObjectReference :: "nat \<Rightarrow> CrossVersionObjectReference"
  hp_NamespaceConstraintsStatus :: "nat \<Rightarrow> NamespaceConstraintsStatus_mem"
  hp_PodAutoscaler :: "nat \<Rightarrow> PodAutoscaler_mem"
  hp_PodAutoscalers :: "nat \<Rightarrow> PodAutoscaler_mem list"
  hp_PodAutoscalerList :: "nat \<Rightarrow> 'l PodAutoscalerList_mem"
  hp_PodAutoscalerSpec :: "nat \<Rightarrow> PodAutoscalerSpec_mem"
  hp_PodAutoscalerStatus :: "nat \<Rightarrow> PodAutoscalerStatus_mem"
  hp_Recommendation :: "nat \<Rightarrow> Recommendation_mem"
  hp_ResourcePolicy :: "nat \<Rightarrow> ResourcePolicy_mem"
  hp_UpdatePolicy :: "nat \<Rightarrow> UpdatePolicy_mem"
  hp_VPAIntegrationStatus :: "nat \<Rightarrow> VPAIntegrationStatus"
  hp_VPAPolicy :: "nat \<Rightarrow> VPAPolicy_mem"

text \<open>Two heaps hold the same at an address, in every store.\<close>

definition same_at :: "nat \<Rightarrow> ('s, 'q, 'l) heap \<Rightarrow> ('s, 'q, 'l) heap \<Rightarrow> bool" where
  "same_at a h h' \<longleftrightarrow>
     hp_ResourceList h' a = hp_ResourceList h a \<and> hp_strings h' a = hp_strings h a \<and>
     hp_int32 h' a = hp_int32 h a \<and> hp_bool h' a = hp_bool h a \<and> hp_Time h' a = hp_Time h a \<and>
     hp_LabelSelector h' a = hp_LabelSelector h a \<and> hp_Conditions h' a = hp_Conditions h a \<and>
     hp_ContainerRecommendation h' a = hp_ContainerRecommendation h a \<and>
     hp_ContainerRecommendations h' a = hp_ContainerRecommendations h a \<and>
     hp_ContainerResourcePolicy h' a = hp_ContainerResourcePolicy h a \<and>
     hp_ContainerPolicies h' a = hp_ContainerPolicies h a \<and>
     hp_CrossVersionObjectReference h' a = hp_CrossVersionObjectReference h a \<and>
     hp_NamespaceConstraintsStatus h' a = hp_NamespaceConstraintsStatus h a \<and>
     hp_PodAutoscaler h' a = hp_PodAutoscaler h a \<and> hp_PodAutoscalers h' a = hp_PodAutoscalers h a \<and>
     hp_PodAutoscalerList h' a = hp_PodAutoscalerList h a \<and> hp_PodAutoscalerSpec h' a = hp_PodAutoscalerSpec h a \<and>
     hp_PodAutoscalerStatus h' a = hp_PodAutoscalerStatus h a \<and> hp_Recommendation h' a = hp_Recommendation h a \<and>
     hp_ResourcePolicy h' a = hp_ResourcePolicy h a \<and> hp_UpdatePolicy h' a = hp_UpdatePolicy h a \<and>
     hp_VPAIntegrationStatus h' a = hp_VPAIntegrationStatus h a \<and> hp_VPAPolicy h' a = hp_VPAPolicy h a"

text \<open>Nothing allocated in \<open>h\<close> has changed in \<open>h'\<close>.\<close>

definition frame :: "('s, 'q, 'l) heap \<Rightarrow> ('s, 'q, 'l) heap \<Rightarrow> bool" where
  "frame h h' \<longleftrightarrow> hp_next h \<le> hp_next h' \<and> (\<forall>a<hp_next h. same_at a h h')"

lemma same_at_refl [simp]: "same_at a h h"
  by (simp add: same_at_def)

lemma same_at_trans: "same_at a h h1 \<Longrightarrow> same_at a h1 h2 \<Longrightarrow> same_at a h h2"
  by (simp add: same_at_def)

lemma frame_refl [simp]: "frame h h"
  by (simp add: frame_def)

lemma frame_trans [trans]: "frame h h1 \<Longrightarrow> frame h1 h2 \<Longrightarrow> frame h h2"
  using same_at_trans by (fastforce simp: frame_def)

lemma frame_next: "frame h h' \<Longrightarrow> hp_next h \<le> hp_next h'"
  by (simp add: frame_def)

lemma same_at_next [simp]: "same_at a h (h\<lparr>hp_next := n\<rparr>)"
  by (simp add: same_at_def)

definition allocated :: "('s, 'q, 'l) heap \<Rightarrow> nat set" where
  "allocated h = {..<hp_next h}"

section \<open>Copying\<close>

text \<open>
  \<^verbatim>\<open>if in.F != nil { *out = new(T) or make(T, len(*in)); ... }\<close>: a fresh cell, filled with a copy of
  the old one's contents.
\<close>

definition new_copy ::
  "(('s, 'q, 'l) heap \<Rightarrow> nat \<Rightarrow> 'x) \<Rightarrow> (nat \<Rightarrow> 'x \<Rightarrow> ('s, 'q, 'l) heap \<Rightarrow> ('s, 'q, 'l) heap)
   \<Rightarrow> ('x \<Rightarrow> ('s, 'q, 'l) heap \<Rightarrow> 'x \<times> ('s, 'q, 'l) heap) \<Rightarrow> ptr \<Rightarrow> ('s, 'q, 'l) heap \<Rightarrow> ptr \<times> ('s, 'q, 'l) heap" where
  "new_copy get upd copy p h =
     (case p of
        None \<Rightarrow> (None, h)
      | Some a \<Rightarrow>
          (let b = hp_next h;
               h = h\<lparr>hp_next := Suc b\<rparr>;
               (y, h) = copy (get h a) h
           in (Some b, upd b y h)))"

text \<open>\<^verbatim>\<open>**out = **in\<close>, or a copy made by a library function.\<close>

definition plain :: "('x \<Rightarrow> 'x) \<Rightarrow> 'x \<Rightarrow> ('s, 'q, 'l) heap \<Rightarrow> 'x \<times> ('s, 'q, 'l) heap" where
  "plain f x h = (f x, h)"

text \<open>\<^verbatim>\<open>for i := range *in { (*in)[i].DeepCopyInto(&(*out)[i]) }\<close>\<close>

fun copy_list ::
  "('x \<Rightarrow> ('s, 'q, 'l) heap \<Rightarrow> 'x \<times> ('s, 'q, 'l) heap) \<Rightarrow> 'x list \<Rightarrow> ('s, 'q, 'l) heap \<Rightarrow> 'x list \<times> ('s, 'q, 'l) heap" where
  "copy_list copy [] h = ([], h)"
| "copy_list copy (x # xs) h =
     (let (y, h) = copy x h; (ys, h) = copy_list copy xs h in (y # ys, h))"

section \<open>Contracts\<close>

locale cell =
  fixes get :: "('s, 'q, 'l) heap \<Rightarrow> nat \<Rightarrow> 'x"
    and upd :: "nat \<Rightarrow> 'x \<Rightarrow> ('s, 'q, 'l) heap \<Rightarrow> ('s, 'q, 'l) heap"
  assumes get_upd: "get (upd a x h) a = x"
    and next_upd: "hp_next (upd a x h) = hp_next h"
    and same_upd: "b \<noteq> a \<Longrightarrow> same_at b h (upd a x h)"
    and get_same: "same_at a h h' \<Longrightarrow> get h' a = get h a"

text \<open>
  What a copying operation promises: \<open>val\<close> is the value a thing in memory stands for, \<open>want\<close> the
  value its copy should have (the same but for what the library copies make of library values),
  and \<open>foot\<close> the set of addresses the thing is spread over.
\<close>

locale copier =
  fixes copy :: "'x \<Rightarrow> ('s, 'q, 'l) heap \<Rightarrow> 'x \<times> ('s, 'q, 'l) heap"
    and want :: "('s, 'q, 'l) heap \<Rightarrow> 'x \<Rightarrow> 'v" and val :: "('s, 'q, 'l) heap \<Rightarrow> 'x \<Rightarrow> 'v"
    and foot :: "('s, 'q, 'l) heap \<Rightarrow> 'x \<Rightarrow> nat set"
  assumes want_same: "(\<And>a. a \<in> foot h x \<Longrightarrow> same_at a h h') \<Longrightarrow> want h' x = want h x"
    and val_same: "(\<And>a. a \<in> foot h x \<Longrightarrow> same_at a h h') \<Longrightarrow> val h' x = val h x"
    and foot_same: "(\<And>a. a \<in> foot h x \<Longrightarrow> same_at a h h') \<Longrightarrow> foot h' x = foot h x"
    and copies: "foot h x \<subseteq> allocated h \<Longrightarrow> copy x h = (y, h') \<Longrightarrow>
      frame h h' \<and> val h' y = want h x \<and> foot h' y \<subseteq> allocated h' - allocated h"
begin

text \<open>The judgement for a part of a struct: \<open>y\<close> is the copy of \<open>x\<close> of an earlier heap.\<close>

definition copied :: "('s, 'q, 'l) heap \<Rightarrow> 'x \<Rightarrow> ('s, 'q, 'l) heap \<Rightarrow> 'x \<Rightarrow> bool" where
  "copied h0 x h y \<longleftrightarrow> frame h0 h \<and> val h y = want h0 x \<and> foot h y \<subseteq> allocated h - allocated h0"

lemma copied_frame:
  assumes "copied h0 x h y" "frame h h'"
  shows "copied h0 x h' y"
proof -
  have s: "same_at a h h'" if "a \<in> foot h y" for a
    using that assms by (auto simp: copied_def frame_def allocated_def)
  have "frame h0 h'" using assms frame_trans by (auto simp: copied_def)
  moreover have "foot h' y = foot h y" "val h' y = val h y"
    using foot_same[of h y h'] val_same[of h y h'] s by auto
  ultimately show ?thesis
    using assms frame_next[OF assms(2)] by (auto simp: copied_def allocated_def)
qed

lemma copied_step:
  assumes "foot h0 x \<subseteq> allocated h0" "frame h0 h" "copy x h = (y, h1)"
  shows "frame h h1" "copied h0 x h1 y"
proof -
  have s: "same_at a h0 h" if "a \<in> foot h0 x" for a
    using that assms by (auto simp: frame_def allocated_def)
  have e: "foot h x = foot h0 x" "want h x = want h0 x"
    using foot_same[of h0 x h] want_same[of h0 x h] s by auto
  have "foot h x \<subseteq> allocated h"
    using assms(1) frame_next[OF assms(2)] by (auto simp: e allocated_def)
  note c = copies[OF this assms(3)]
  show "frame h h1" using c by simp
  then show "copied h0 x h1 y"
    using c frame_trans[OF assms(2)] frame_next[OF assms(2)] by (auto simp: copied_def e allocated_def)
qed

text \<open>A copy is independent of its original: writing to one of them does not show in the other.\<close>

lemma copy_independent:
  assumes "foot h x \<subseteq> allocated h" "copy x h = (y, h')"
  shows "val h' y = want h x" "val h' x = val h x" "foot h' x \<inter> foot h' y = {}"
    and "(\<And>a. a \<notin> foot h' y \<Longrightarrow> same_at a h' h2) \<Longrightarrow> val h2 x = val h x"
    and "(\<And>a. a \<notin> foot h' x \<Longrightarrow> same_at a h' h2) \<Longrightarrow> val h2 y = want h x"
proof -
  note c = copies[OF assms]
  have s: "same_at a h h'" if "a \<in> foot h x" for a using c assms(1) that by (auto simp: frame_def allocated_def)
  have e: "foot h' x = foot h x" "val h' x = val h x" using foot_same[of h x h'] val_same[of h x h'] s by auto
  show "val h' y = want h x" "val h' x = val h x" using c e by simp_all
  show d: "foot h' x \<inter> foot h' y = {}" using c assms(1) by (auto simp: e)
  show "val h2 x = val h x" if "\<And>a. a \<notin> foot h' y \<Longrightarrow> same_at a h' h2"
  proof -
    have "same_at a h' h2" if "a \<in> foot h' x" for a using d that \<open>\<And>a. a \<notin> foot h' y \<Longrightarrow> same_at a h' h2\<close> by blast
    then show ?thesis using val_same[of h' x h2] e by simp
  qed
  show "val h2 y = want h x" if "\<And>a. a \<notin> foot h' x \<Longrightarrow> same_at a h' h2"
  proof -
    have "same_at a h' h2" if "a \<in> foot h' y" for a using d that \<open>\<And>a. a \<notin> foot h' x \<Longrightarrow> same_at a h' h2\<close> by blast
    then show ?thesis using val_same[of h' y h2] c by simp
  qed
qed

end

section \<open>Pointers and slices\<close>

definition ptr_foot ::
  "(('s, 'q, 'l) heap \<Rightarrow> nat \<Rightarrow> 'x) \<Rightarrow> (('s, 'q, 'l) heap \<Rightarrow> 'x \<Rightarrow> nat set) \<Rightarrow> ('s, 'q, 'l) heap \<Rightarrow> ptr \<Rightarrow> nat set" where
  "ptr_foot get foot h p = (case p of None \<Rightarrow> {} | Some a \<Rightarrow> insert a (foot h (get h a)))"

definition deref ::
  "(('s, 'q, 'l) heap \<Rightarrow> nat \<Rightarrow> 'x) \<Rightarrow> (('s, 'q, 'l) heap \<Rightarrow> 'x \<Rightarrow> 'v) \<Rightarrow> ('s, 'q, 'l) heap \<Rightarrow> ptr \<Rightarrow> 'v option" where
  "deref get val h p = map_option (\<lambda>a. val h (get h a)) p"

lemma ptr_foot_simps [simp]: "ptr_foot get foot h None = {}" "ptr_foot get foot h (Some a) = insert a (foot h (get h a))"
  by (simp_all add: ptr_foot_def)

lemma deref_simps [simp]: "deref get val h None = None" "deref get val h (Some a) = Some (val h (get h a))"
  by (simp_all add: deref_def)

locale pointee = copier copy want val foot + cell get upd
  for copy :: "'x \<Rightarrow> ('s, 'q, 'l) heap \<Rightarrow> 'x \<times> ('s, 'q, 'l) heap"
    and want :: "('s, 'q, 'l) heap \<Rightarrow> 'x \<Rightarrow> 'v" and val :: "('s, 'q, 'l) heap \<Rightarrow> 'x \<Rightarrow> 'v"
    and foot :: "('s, 'q, 'l) heap \<Rightarrow> 'x \<Rightarrow> nat set"
    and get :: "('s, 'q, 'l) heap \<Rightarrow> nat \<Rightarrow> 'x" and upd :: "nat \<Rightarrow> 'x \<Rightarrow> ('s, 'q, 'l) heap \<Rightarrow> ('s, 'q, 'l) heap"
begin

lemma new_copy_ok:
  assumes "ptr_foot get foot h p \<subseteq> allocated h" "new_copy get upd copy p h = (q, h')"
  shows "frame h h' \<and> deref get val h' q = deref get want h p \<and> ptr_foot get foot h' q \<subseteq> allocated h' - allocated h"
proof (cases p)
  case (Some a)
  let ?h0 = "h\<lparr>hp_next := Suc (hp_next h)\<rparr>"
  obtain y h1 where c: "copy (get ?h0 a) ?h0 = (y, h1)" by (metis surj_pair)
  have q: "q = Some (hp_next h)" "h' = upd (hp_next h) y h1"
    using assms(2) by (simp_all add: new_copy_def Some Let_def c)
  have g: "get ?h0 a = get h a" by (rule get_same) simp
  have fr: "frame h ?h0" by (simp add: frame_def)
  have f: "foot h (get h a) \<subseteq> allocated h" using assms(1) by (simp add: Some)
  from copied_step[OF f fr c[unfolded g]]
  have c1: "frame ?h0 h1" "copied h (get h a) h1 y" by simp_all
  have fresh: "hp_next h \<notin> foot h1 y"
  proof -
    from c have c': "copy (get h a) ?h0 = (y, h1)" by (simp add: g)
    have s: "same_at b h ?h0" for b by simp
    have "foot ?h0 (get h a) \<subseteq> allocated ?h0"
      using foot_same[of h "get h a" ?h0] f by (auto simp: allocated_def)
    from copies[OF this c'] show ?thesis by (auto simp: allocated_def)
  qed
  have s: "same_at b h1 h'" if "b \<noteq> hp_next h" for b using same_upd that by (simp add: q)
  have e: "val h' y = val h1 y" "foot h' y = foot h1 y"
    using val_same[of h1 y h'] foot_same[of h1 y h'] s fresh by (metis, metis)
  have n: "hp_next h' = hp_next h1" by (simp add: q next_upd)
  have "frame h h'"
    using c1(2) s n by (auto simp: copied_def frame_def intro: same_at_trans)
  moreover have "get h' (hp_next h) = y" by (simp add: q get_upd)
  ultimately show ?thesis
    using c1 e n by (auto simp: Some q(1) copied_def allocated_def frame_def)
qed (use assms in \<open>simp add: new_copy_def\<close>)

end

sublocale pointee < ptr: copier "new_copy get upd copy" "deref get want" "deref get val" "ptr_foot get foot"
proof unfold_locales
  fix h :: "('s, 'q, 'l) heap" and h' p
  assume s: "\<And>a. a \<in> ptr_foot get foot h p \<Longrightarrow> same_at a h h'"
  have g: "p = Some a \<Longrightarrow> get h' a = get h a" for a using s[of a] get_same by simp
  have x: "p = Some a \<Longrightarrow> b \<in> foot h (get h a) \<Longrightarrow> same_at b h h'" for a b using s by simp
  show "deref get want h' p = deref get want h p"
    using want_same[of h _ h'] x g by (cases p) auto
  show "deref get val h' p = deref get val h p"
    using val_same[of h _ h'] x g by (cases p) auto
  show "ptr_foot get foot h' p = ptr_foot get foot h p"
    using foot_same[of h _ h'] x g by (cases p) auto
qed (rule new_copy_ok)

locale element = copier copy want val foot
  for copy :: "'x \<Rightarrow> ('s, 'q, 'l) heap \<Rightarrow> 'x \<times> ('s, 'q, 'l) heap"
    and want :: "('s, 'q, 'l) heap \<Rightarrow> 'x \<Rightarrow> 'v" and val :: "('s, 'q, 'l) heap \<Rightarrow> 'x \<Rightarrow> 'v"
    and foot :: "('s, 'q, 'l) heap \<Rightarrow> 'x \<Rightarrow> nat set"
begin

lemma copy_list_ok:
  assumes "\<Union> (foot h ` set xs) \<subseteq> allocated h" "copy_list copy xs h = (ys, h')"
  shows "frame h h' \<and> map (val h') ys = map (want h) xs \<and> \<Union> (foot h' ` set ys) \<subseteq> allocated h' - allocated h"
  using assms
proof (induction xs arbitrary: h ys)
  case (Cons x xs)
  obtain y h1 where c: "copy x h = (y, h1)" by (metis surj_pair)
  obtain zs where z: "copy_list copy xs h1 = (zs, h')" and ys: "ys = y # zs"
    using Cons.prems(2) c by (auto split: prod.splits)
  have f: "foot h x \<subseteq> allocated h" "\<And>x. x \<in> set xs \<Longrightarrow> foot h x \<subseteq> allocated h" using Cons.prems(1) by auto
  note c1 = copied_step[OF f(1) frame_refl c]
  have s: "same_at a h h1" if "x \<in> set xs" "a \<in> foot h x" for x a
    using that c1(1) f(2) by (force simp: frame_def allocated_def)
  have e: "foot h1 x = foot h x" "want h1 x = want h x" if "x \<in> set xs" for x
    using foot_same[of h x h1] want_same[of h x h1] s that by auto
  have "\<Union> (foot h1 ` set xs) \<subseteq> allocated h1"
    using e f(2) frame_next[OF c1(1)] by (force simp: allocated_def)
  note IH = Cons.IH[OF this z]
  have "copied h x h' y" by (rule copied_frame[OF c1(2)]) (use IH in simp)
  then show ?case using IH e frame_next[OF c1(1)] by (auto simp: ys copied_def allocated_def)
qed simp

end

sublocale element < elems: copier "copy_list copy" "\<lambda>h. map (want h)" "\<lambda>h. map (val h)" "\<lambda>h xs. \<Union> (foot h ` set xs)"
proof unfold_locales
  fix h :: "('s, 'q, 'l) heap" and h' xs
  assume s: "\<And>a. a \<in> \<Union> (foot h ` set xs) \<Longrightarrow> same_at a h h'"
  have "want h' x = want h x \<and> val h' x = val h x \<and> foot h' x = foot h x" if "x \<in> set xs" for x
    using want_same[of h x h'] val_same[of h x h'] foot_same[of h x h'] s that by blast
  then show "map (want h') xs = map (want h) xs" "map (val h') xs = map (val h) xs"
    "\<Union> (foot h' ` set xs) = \<Union> (foot h ` set xs)" by auto
qed (rule copy_list_ok)

locale slice = element copy want val foot + cell get upd
  for copy :: "'x \<Rightarrow> ('s, 'q, 'l) heap \<Rightarrow> 'x \<times> ('s, 'q, 'l) heap"
    and want :: "('s, 'q, 'l) heap \<Rightarrow> 'x \<Rightarrow> 'v" and val :: "('s, 'q, 'l) heap \<Rightarrow> 'x \<Rightarrow> 'v"
    and foot :: "('s, 'q, 'l) heap \<Rightarrow> 'x \<Rightarrow> nat set"
    and get :: "('s, 'q, 'l) heap \<Rightarrow> nat \<Rightarrow> 'x list" and upd :: "nat \<Rightarrow> 'x list \<Rightarrow> ('s, 'q, 'l) heap \<Rightarrow> ('s, 'q, 'l) heap"
begin

end

sublocale slice < array: pointee "copy_list copy" "\<lambda>h. map (want h)" "\<lambda>h. map (val h)" "\<lambda>h xs. \<Union> (foot h ` set xs)" get upd ..

section \<open>Structs\<close>

text \<open>Values without pointers are copied by a function.\<close>

lemma plain_copier: "copier (plain f) (\<lambda>h. f) (\<lambda>h x. x) (\<lambda>h x. {})"
  by unfold_locales (auto simp: plain_def)

text \<open>Two fields, one after the other.\<close>

definition both where
  "both c d = (\<lambda>(x, y) h. let (x, h) = c x h; (y, h) = d y h in ((x, y), h))"

lemma both_copier:
  assumes "copier c w v f" "copier d w' v' g"
  shows "copier (both c d) (\<lambda>h (x, y). (w h x, w' h y)) (\<lambda>h (x, y). (v h x, v' h y)) (\<lambda>h (x, y). f h x \<union> g h y)"
proof -
  note C = assms(1) and D = assms(2)
  show ?thesis
  proof (unfold_locales, goal_cases)
    case (1 h z h')
    obtain x y where z: "z = (x, y)" by (cases z)
    show ?case using copier.want_same[OF C, of h x h'] copier.want_same[OF D, of h y h'] 1 by (simp add: z)
  next
    case (2 h z h')
    obtain x y where z: "z = (x, y)" by (cases z)
    show ?case using copier.val_same[OF C, of h x h'] copier.val_same[OF D, of h y h'] 2 by (simp add: z)
  next
    case (3 h z h')
    obtain x y where z: "z = (x, y)" by (cases z)
    show ?case using copier.foot_same[OF C, of h x h'] copier.foot_same[OF D, of h y h'] 3 by (simp add: z)
  next
    case (4 h z z' h')
    obtain x y where z: "z = (x, y)" by (cases z)
    obtain x' h1 where c: "c x h = (x', h1)" by (metis surj_pair)
    obtain y' where d: "d y h1 = (y', h')" and z': "z' = (x', y')"
      using 4(2) by (auto simp: both_def z c split: prod.splits)
    have w: "f h x \<subseteq> allocated h" "g h y \<subseteq> allocated h" using 4(1) by (simp_all add: z)
    note a = copier.copied_step[OF C w(1) frame_refl c]
    note b = copier.copied_step[OF D w(2) a(1) d]
    show ?case
      using copier.copied_frame[OF C a(2) b(1)] b(2) by (simp add: z z' copier.copied_def[OF C] copier.copied_def[OF D])
  qed
qed

text \<open>
  A struct whose pointer fields, as a tuple, have a copier: the rest of the struct is copied by
  value.
\<close>

lemma struct_copier:
  assumes c: "copier c w v f"
    and copy: "\<And>x h. copy x h = (let (t, h) = c (parts x) h in (build x t, h))"
    and want: "\<And>h x. want h x = known x (w h (parts x))"
    and val: "\<And>h x. val h x = is_val x (v h (parts x))"
    and foot: "\<And>h x. foot h x = f h (parts x)"
    and build: "\<And>x t. parts (build x t) = t" "\<And>x t u. is_val (build x t) u = known x u"
  shows "copier copy want val foot"
proof (unfold_locales, goal_cases)
  case (1 h x h')
  then show ?case using copier.want_same[OF c, of h "parts x" h'] by (simp add: want foot)
next
  case (2 h x h')
  then show ?case using copier.val_same[OF c, of h "parts x" h'] by (simp add: val foot)
next
  case (3 h x h')
  then show ?case using copier.foot_same[OF c, of h "parts x" h'] by (simp add: foot)
next
  case (4 h x y h')
  obtain t where t: "c (parts x) h = (t, h')" "y = build x t"
    using 4(2) by (auto simp: copy split: prod.splits)
  show ?case using copier.copies[OF c _ t(1)] 4(1) by (simp add: t(2) want val foot build)
qed

end
