(* ===== verification/DeepCopy.thy ===== *)
theory DeepCopy
  imports Memory
begin

text \<open>
  \<^verbatim>\<open>api/v1alpha1/zz_generated.deepcopy.go\<close>: the deep copies of the PodAutoscaler types.
  \<^verbatim>\<open>DeepCopyInto\<close> of a type takes the struct and returns the struct it leaves in \<^verbatim>\<open>*out\<close>; \<^verbatim>\<open>DeepCopy\<close>
  works on a pointer.
\<close>

section \<open>Library values\<close>

text \<open>The deep copies of \<^verbatim>\<open>k8s.io/apimachinery\<close> for its own types.\<close>

record ('s, 'q, 'l) lib_copies =
  lc_Quantity :: "'q \<Rightarrow> 'q"
  lc_LabelSelector :: "'s \<Rightarrow> 's"
  lc_ObjectMeta :: "ObjectMeta \<Rightarrow> ObjectMeta"
  lc_ListMeta :: "'l \<Rightarrow> 'l"
  lc_Condition :: "Condition \<Rightarrow> Condition"
  lc_Time :: "int \<Rightarrow> int"

definition exact :: "('s, 'q, 'l) lib_copies" where
  "exact = \<lparr>lc_Quantity = (\<lambda>x. x), lc_LabelSelector = (\<lambda>x. x), lc_ObjectMeta = (\<lambda>x. x), lc_ListMeta = (\<lambda>x. x),
     lc_Condition = (\<lambda>x. x), lc_Time = (\<lambda>x. x)\<rparr>"

text \<open>What the library documents: a copy equals its original.\<close>

definition faithful :: "('s, 'q, 'l) lib_copies \<Rightarrow> bool" where
  "faithful lc \<longleftrightarrow> (\<forall>x. lc_Quantity lc x = x) \<and> (\<forall>x. lc_LabelSelector lc x = x) \<and> (\<forall>x. lc_ObjectMeta lc x = x)
     \<and> (\<forall>x. lc_ListMeta lc x = x) \<and> (\<forall>x. lc_Condition lc x = x) \<and> (\<forall>x. lc_Time lc x = x)"

lemma faithful_exact: "faithful lc \<Longrightarrow> lc = exact"
  by (cases lc) (auto simp: faithful_def exact_def)

lemma exact_simps [simp]:
  "lc_Quantity exact = (\<lambda>x. x)" "lc_LabelSelector exact = (\<lambda>x. x)" "lc_ObjectMeta exact = (\<lambda>x. x)"
  "lc_ListMeta exact = (\<lambda>x. x)" "lc_Condition exact = (\<lambda>x. x)" "lc_Time exact = (\<lambda>x. x)"
  by (simp_all add: exact_def)

section \<open>The copies\<close>

text \<open>
  \<^verbatim>\<open>make(corev1.ResourceList, len(*in))\<close> filled by \<^verbatim>\<open>for key, val := range *in\<close>; each key occurs once, so
  the order of the iteration does not matter.
\<close>

definition copy_ResourceList :: "('s, 'q, 'l) lib_copies \<Rightarrow> (string \<rightharpoonup> 'q) \<Rightarrow> (string \<rightharpoonup> 'q)" where
  "copy_ResourceList lc m = (\<lambda>key. case m key of None \<Rightarrow> None | Some val \<Rightarrow> Some (lc_Quantity lc val))"

abbreviation put_ResourceList where "put_ResourceList a x \<equiv> hp_ResourceList_update (\<lambda>f. f(a := x))"
abbreviation put_strings where "put_strings a x \<equiv> hp_strings_update (\<lambda>f. f(a := x))"
abbreviation put_int32 where "put_int32 a x \<equiv> hp_int32_update (\<lambda>f. f(a := x))"
abbreviation put_bool where "put_bool a x \<equiv> hp_bool_update (\<lambda>f. f(a := x))"
abbreviation put_Time where "put_Time a x \<equiv> hp_Time_update (\<lambda>f. f(a := x))"
abbreviation put_LabelSelector where "put_LabelSelector a x \<equiv> hp_LabelSelector_update (\<lambda>f. f(a := x))"
abbreviation put_Conditions where "put_Conditions a x \<equiv> hp_Conditions_update (\<lambda>f. f(a := x))"
abbreviation put_ContainerRecommendation where "put_ContainerRecommendation a x \<equiv> hp_ContainerRecommendation_update (\<lambda>f. f(a := x))"
abbreviation put_ContainerRecommendations where "put_ContainerRecommendations a x \<equiv> hp_ContainerRecommendations_update (\<lambda>f. f(a := x))"
abbreviation put_ContainerResourcePolicy where "put_ContainerResourcePolicy a x \<equiv> hp_ContainerResourcePolicy_update (\<lambda>f. f(a := x))"
abbreviation put_ContainerPolicies where "put_ContainerPolicies a x \<equiv> hp_ContainerPolicies_update (\<lambda>f. f(a := x))"
abbreviation put_CrossVersionObjectReference where "put_CrossVersionObjectReference a x \<equiv> hp_CrossVersionObjectReference_update (\<lambda>f. f(a := x))"
abbreviation put_NamespaceConstraintsStatus where "put_NamespaceConstraintsStatus a x \<equiv> hp_NamespaceConstraintsStatus_update (\<lambda>f. f(a := x))"
abbreviation put_PodAutoscaler where "put_PodAutoscaler a x \<equiv> hp_PodAutoscaler_update (\<lambda>f. f(a := x))"
abbreviation put_PodAutoscalers where "put_PodAutoscalers a x \<equiv> hp_PodAutoscalers_update (\<lambda>f. f(a := x))"
abbreviation put_PodAutoscalerList where "put_PodAutoscalerList a x \<equiv> hp_PodAutoscalerList_update (\<lambda>f. f(a := x))"
abbreviation put_PodAutoscalerSpec where "put_PodAutoscalerSpec a x \<equiv> hp_PodAutoscalerSpec_update (\<lambda>f. f(a := x))"
abbreviation put_PodAutoscalerStatus where "put_PodAutoscalerStatus a x \<equiv> hp_PodAutoscalerStatus_update (\<lambda>f. f(a := x))"
abbreviation put_Recommendation where "put_Recommendation a x \<equiv> hp_Recommendation_update (\<lambda>f. f(a := x))"
abbreviation put_ResourcePolicy where "put_ResourcePolicy a x \<equiv> hp_ResourcePolicy_update (\<lambda>f. f(a := x))"
abbreviation put_UpdatePolicy where "put_UpdatePolicy a x \<equiv> hp_UpdatePolicy_update (\<lambda>f. f(a := x))"
abbreviation put_VPAIntegrationStatus where "put_VPAIntegrationStatus a x \<equiv> hp_VPAIntegrationStatus_update (\<lambda>f. f(a := x))"
abbreviation put_VPAPolicy where "put_VPAPolicy a x \<equiv> hp_VPAPolicy_update (\<lambda>f. f(a := x))"

abbreviation new_ResourceList where
  "new_ResourceList lc \<equiv> new_copy hp_ResourceList put_ResourceList (plain (copy_ResourceList lc))"
abbreviation new_strings where "new_strings \<equiv> new_copy hp_strings put_strings (plain (\<lambda>x. x))"
abbreviation new_int32 where "new_int32 \<equiv> new_copy hp_int32 put_int32 (plain (\<lambda>x. x))"
abbreviation new_Time where "new_Time lc \<equiv> new_copy hp_Time put_Time (plain (lc_Time lc))"

definition DeepCopyInto_ContainerRecommendation ::
  "('s, 'q, 'l) lib_copies \<Rightarrow> ContainerRecommendation_mem \<Rightarrow> ('s, 'q, 'l) heap \<Rightarrow> ContainerRecommendation_mem \<times> ('s, 'q, 'l) heap" where
  "DeepCopyInto_ContainerRecommendation lc inp h =
     (let out = inp;
          (p, h) = new_ResourceList lc (mcr_Target inp) h; out = out\<lparr>mcr_Target := p\<rparr>;
          (p, h) = new_ResourceList lc (mcr_LowerBound inp) h; out = out\<lparr>mcr_LowerBound := p\<rparr>;
          (p, h) = new_ResourceList lc (mcr_UpperBound inp) h; out = out\<lparr>mcr_UpperBound := p\<rparr>
      in (out, h))"

definition DeepCopy_ContainerRecommendation :: "('s, 'q, 'l) lib_copies \<Rightarrow> ptr \<Rightarrow> ('s, 'q, 'l) heap \<Rightarrow> ptr \<times> ('s, 'q, 'l) heap" where
  "DeepCopy_ContainerRecommendation lc =
     new_copy hp_ContainerRecommendation put_ContainerRecommendation (DeepCopyInto_ContainerRecommendation lc)"

definition DeepCopyInto_ContainerResourcePolicy ::
  "('s, 'q, 'l) lib_copies \<Rightarrow> ContainerResourcePolicy_mem \<Rightarrow> ('s, 'q, 'l) heap \<Rightarrow> ContainerResourcePolicy_mem \<times> ('s, 'q, 'l) heap" where
  "DeepCopyInto_ContainerResourcePolicy lc inp h =
     (let out = inp;
          (p, h) = new_ResourceList lc (mcrp_MinAllowed inp) h; out = out\<lparr>mcrp_MinAllowed := p\<rparr>;
          (p, h) = new_ResourceList lc (mcrp_MaxAllowed inp) h; out = out\<lparr>mcrp_MaxAllowed := p\<rparr>;
          (p, h) = new_strings (mcrp_ControlledResources inp) h; out = out\<lparr>mcrp_ControlledResources := p\<rparr>
      in (out, h))"

definition DeepCopy_ContainerResourcePolicy :: "('s, 'q, 'l) lib_copies \<Rightarrow> ptr \<Rightarrow> ('s, 'q, 'l) heap \<Rightarrow> ptr \<times> ('s, 'q, 'l) heap" where
  "DeepCopy_ContainerResourcePolicy lc =
     new_copy hp_ContainerResourcePolicy put_ContainerResourcePolicy (DeepCopyInto_ContainerResourcePolicy lc)"

definition DeepCopyInto_CrossVersionObjectReference ::
  "CrossVersionObjectReference \<Rightarrow> ('s, 'q, 'l) heap \<Rightarrow> CrossVersionObjectReference \<times> ('s, 'q, 'l) heap" where
  "DeepCopyInto_CrossVersionObjectReference = plain (\<lambda>x. x)"

definition DeepCopy_CrossVersionObjectReference :: "ptr \<Rightarrow> ('s, 'q, 'l) heap \<Rightarrow> ptr \<times> ('s, 'q, 'l) heap" where
  "DeepCopy_CrossVersionObjectReference =
     new_copy hp_CrossVersionObjectReference put_CrossVersionObjectReference DeepCopyInto_CrossVersionObjectReference"

definition DeepCopyInto_NamespaceConstraintsStatus ::
  "NamespaceConstraintsStatus_mem \<Rightarrow> ('s, 'q, 'l) heap \<Rightarrow> NamespaceConstraintsStatus_mem \<times> ('s, 'q, 'l) heap" where
  "DeepCopyInto_NamespaceConstraintsStatus inp h =
     (let out = inp;
          (p, h) = new_strings (mns_ClampReasons inp) h; out = out\<lparr>mns_ClampReasons := p\<rparr>
      in (out, h))"

definition DeepCopy_NamespaceConstraintsStatus :: "ptr \<Rightarrow> ('s, 'q, 'l) heap \<Rightarrow> ptr \<times> ('s, 'q, 'l) heap" where
  "DeepCopy_NamespaceConstraintsStatus =
     new_copy hp_NamespaceConstraintsStatus put_NamespaceConstraintsStatus DeepCopyInto_NamespaceConstraintsStatus"

definition DeepCopyInto_Recommendation ::
  "('s, 'q, 'l) lib_copies \<Rightarrow> Recommendation_mem \<Rightarrow> ('s, 'q, 'l) heap \<Rightarrow> Recommendation_mem \<times> ('s, 'q, 'l) heap" where
  "DeepCopyInto_Recommendation lc inp h =
     (let out = inp;
          (p, h) = new_copy hp_ContainerRecommendations put_ContainerRecommendations
                     (copy_list (DeepCopyInto_ContainerRecommendation lc)) (mrec_ContainerRecommendations inp) h;
          out = out\<lparr>mrec_ContainerRecommendations := p\<rparr>
      in (out, h))"

definition DeepCopy_Recommendation :: "('s, 'q, 'l) lib_copies \<Rightarrow> ptr \<Rightarrow> ('s, 'q, 'l) heap \<Rightarrow> ptr \<times> ('s, 'q, 'l) heap" where
  "DeepCopy_Recommendation lc = new_copy hp_Recommendation put_Recommendation (DeepCopyInto_Recommendation lc)"

definition DeepCopyInto_ResourcePolicy ::
  "('s, 'q, 'l) lib_copies \<Rightarrow> ResourcePolicy_mem \<Rightarrow> ('s, 'q, 'l) heap \<Rightarrow> ResourcePolicy_mem \<times> ('s, 'q, 'l) heap" where
  "DeepCopyInto_ResourcePolicy lc inp h =
     (let out = inp;
          (p, h) = new_copy hp_ContainerPolicies put_ContainerPolicies
                     (copy_list (DeepCopyInto_ContainerResourcePolicy lc)) (mrp_ContainerPolicies inp) h;
          out = out\<lparr>mrp_ContainerPolicies := p\<rparr>
      in (out, h))"

definition DeepCopy_ResourcePolicy :: "('s, 'q, 'l) lib_copies \<Rightarrow> ptr \<Rightarrow> ('s, 'q, 'l) heap \<Rightarrow> ptr \<times> ('s, 'q, 'l) heap" where
  "DeepCopy_ResourcePolicy lc = new_copy hp_ResourcePolicy put_ResourcePolicy (DeepCopyInto_ResourcePolicy lc)"

definition DeepCopyInto_UpdatePolicy :: "UpdatePolicy_mem \<Rightarrow> ('s, 'q, 'l) heap \<Rightarrow> UpdatePolicy_mem \<times> ('s, 'q, 'l) heap" where
  "DeepCopyInto_UpdatePolicy inp h =
     (let out = inp;
          (p, h) = new_int32 (mup_MaxUnavailable inp) h; out = out\<lparr>mup_MaxUnavailable := p\<rparr>
      in (out, h))"

definition DeepCopy_UpdatePolicy :: "ptr \<Rightarrow> ('s, 'q, 'l) heap \<Rightarrow> ptr \<times> ('s, 'q, 'l) heap" where
  "DeepCopy_UpdatePolicy = new_copy hp_UpdatePolicy put_UpdatePolicy DeepCopyInto_UpdatePolicy"

definition DeepCopyInto_VPAIntegrationStatus :: "VPAIntegrationStatus \<Rightarrow> ('s, 'q, 'l) heap \<Rightarrow> VPAIntegrationStatus \<times> ('s, 'q, 'l) heap" where
  "DeepCopyInto_VPAIntegrationStatus = plain (\<lambda>x. x)"

definition DeepCopy_VPAIntegrationStatus :: "ptr \<Rightarrow> ('s, 'q, 'l) heap \<Rightarrow> ptr \<times> ('s, 'q, 'l) heap" where
  "DeepCopy_VPAIntegrationStatus = new_copy hp_VPAIntegrationStatus put_VPAIntegrationStatus DeepCopyInto_VPAIntegrationStatus"

definition DeepCopyInto_VPAPolicy :: "VPAPolicy_mem \<Rightarrow> ('s, 'q, 'l) heap \<Rightarrow> VPAPolicy_mem \<times> ('s, 'q, 'l) heap" where
  "DeepCopyInto_VPAPolicy inp h =
     (let out = inp;
          (p, h) = new_copy hp_bool put_bool (plain (\<lambda>x. x)) (mvp_Enabled inp) h; out = out\<lparr>mvp_Enabled := p\<rparr>
      in (out, h))"

definition DeepCopy_VPAPolicy :: "ptr \<Rightarrow> ('s, 'q, 'l) heap \<Rightarrow> ptr \<times> ('s, 'q, 'l) heap" where
  "DeepCopy_VPAPolicy = new_copy hp_VPAPolicy put_VPAPolicy DeepCopyInto_VPAPolicy"

text \<open>
  \<^verbatim>\<open>TargetRef\<close> and \<^verbatim>\<open>VPAStatus\<close> are copied by \<^verbatim>\<open>**out = **in\<close>, the other structs by their own
  \<^verbatim>\<open>DeepCopyInto\<close>.
\<close>

definition DeepCopyInto_PodAutoscalerSpec ::
  "('s, 'q, 'l) lib_copies \<Rightarrow> PodAutoscalerSpec_mem \<Rightarrow> ('s, 'q, 'l) heap \<Rightarrow> PodAutoscalerSpec_mem \<times> ('s, 'q, 'l) heap" where
  "DeepCopyInto_PodAutoscalerSpec lc inp h =
     (let out = inp;
          (p, h) = new_copy hp_LabelSelector put_LabelSelector (plain (lc_LabelSelector lc)) (msp_Selector inp) h;
          out = out\<lparr>msp_Selector := p\<rparr>;
          (p, h) = new_copy hp_CrossVersionObjectReference put_CrossVersionObjectReference (plain (\<lambda>x. x)) (msp_TargetRef inp) h;
          out = out\<lparr>msp_TargetRef := p\<rparr>;
          (p, h) = new_copy hp_ResourcePolicy put_ResourcePolicy (DeepCopyInto_ResourcePolicy lc) (msp_ResourcePolicy inp) h;
          out = out\<lparr>msp_ResourcePolicy := p\<rparr>;
          (p, h) = new_copy hp_UpdatePolicy put_UpdatePolicy DeepCopyInto_UpdatePolicy (msp_UpdatePolicy inp) h;
          out = out\<lparr>msp_UpdatePolicy := p\<rparr>;
          (p, h) = new_int32 (msp_MetricsCollectionIntervalSeconds inp) h;
          out = out\<lparr>msp_MetricsCollectionIntervalSeconds := p\<rparr>;
          (p, h) = new_int32 (msp_EvaluationWindowMinutes inp) h;
          out = out\<lparr>msp_EvaluationWindowMinutes := p\<rparr>;
          (p, h) = new_int32 (msp_VarianceThresholdPercent inp) h;
          out = out\<lparr>msp_VarianceThresholdPercent := p\<rparr>;
          (p, h) = new_copy hp_VPAPolicy put_VPAPolicy DeepCopyInto_VPAPolicy (msp_VPAPolicy inp) h;
          out = out\<lparr>msp_VPAPolicy := p\<rparr>
      in (out, h))"

definition DeepCopy_PodAutoscalerSpec :: "('s, 'q, 'l) lib_copies \<Rightarrow> ptr \<Rightarrow> ('s, 'q, 'l) heap \<Rightarrow> ptr \<times> ('s, 'q, 'l) heap" where
  "DeepCopy_PodAutoscalerSpec lc = new_copy hp_PodAutoscalerSpec put_PodAutoscalerSpec (DeepCopyInto_PodAutoscalerSpec lc)"

definition DeepCopyInto_PodAutoscalerStatus ::
  "('s, 'q, 'l) lib_copies \<Rightarrow> PodAutoscalerStatus_mem \<Rightarrow> ('s, 'q, 'l) heap \<Rightarrow> PodAutoscalerStatus_mem \<times> ('s, 'q, 'l) heap" where
  "DeepCopyInto_PodAutoscalerStatus lc inp h =
     (let out = inp;
          (p, h) = new_copy hp_Conditions put_Conditions (copy_list (plain (lc_Condition lc))) (mst_Conditions inp) h;
          out = out\<lparr>mst_Conditions := p\<rparr>;
          (p, h) = new_copy hp_Recommendation put_Recommendation (DeepCopyInto_Recommendation lc) (mst_Recommendation inp) h;
          out = out\<lparr>mst_Recommendation := p\<rparr>;
          (p, h) = new_Time lc (mst_LastEvaluationTime inp) h;
          out = out\<lparr>mst_LastEvaluationTime := p\<rparr>;
          (p, h) = new_Time lc (mst_LastUpdateTime inp) h;
          out = out\<lparr>mst_LastUpdateTime := p\<rparr>;
          (p, h) = new_copy hp_VPAIntegrationStatus put_VPAIntegrationStatus (plain (\<lambda>x. x)) (mst_VPAStatus inp) h;
          out = out\<lparr>mst_VPAStatus := p\<rparr>;
          (p, h) = new_copy hp_NamespaceConstraintsStatus put_NamespaceConstraintsStatus
                     DeepCopyInto_NamespaceConstraintsStatus (mst_NamespaceConstraints inp) h;
          out = out\<lparr>mst_NamespaceConstraints := p\<rparr>
      in (out, h))"

definition DeepCopy_PodAutoscalerStatus :: "('s, 'q, 'l) lib_copies \<Rightarrow> ptr \<Rightarrow> ('s, 'q, 'l) heap \<Rightarrow> ptr \<times> ('s, 'q, 'l) heap" where
  "DeepCopy_PodAutoscalerStatus lc = new_copy hp_PodAutoscalerStatus put_PodAutoscalerStatus (DeepCopyInto_PodAutoscalerStatus lc)"

definition DeepCopyInto_PodAutoscaler ::
  "('s, 'q, 'l) lib_copies \<Rightarrow> PodAutoscaler_mem \<Rightarrow> ('s, 'q, 'l) heap \<Rightarrow> PodAutoscaler_mem \<times> ('s, 'q, 'l) heap" where
  "DeepCopyInto_PodAutoscaler lc inp h =
     (let out = inp;
          out = out\<lparr>mpa_TypeMeta := mpa_TypeMeta inp\<rparr>;
          out = out\<lparr>mpa_ObjectMeta := lc_ObjectMeta lc (mpa_ObjectMeta inp)\<rparr>;
          (x, h) = DeepCopyInto_PodAutoscalerSpec lc (mpa_Spec inp) h; out = out\<lparr>mpa_Spec := x\<rparr>;
          (x, h) = DeepCopyInto_PodAutoscalerStatus lc (mpa_Status inp) h; out = out\<lparr>mpa_Status := x\<rparr>
      in (out, h))"

definition DeepCopy_PodAutoscaler :: "('s, 'q, 'l) lib_copies \<Rightarrow> ptr \<Rightarrow> ('s, 'q, 'l) heap \<Rightarrow> ptr \<times> ('s, 'q, 'l) heap" where
  "DeepCopy_PodAutoscaler lc = new_copy hp_PodAutoscaler put_PodAutoscaler (DeepCopyInto_PodAutoscaler lc)"

text \<open>A \<^verbatim>\<open>runtime.Object\<close> of these types; \<open>None\<close> is the nil interface.\<close>

datatype object = OPodAutoscaler nat | OPodAutoscalerList nat

definition DeepCopyObject_PodAutoscaler ::
  "('s, 'q, 'l) lib_copies \<Rightarrow> ptr \<Rightarrow> ('s, 'q, 'l) heap \<Rightarrow> object option \<times> ('s, 'q, 'l) heap" where
  "DeepCopyObject_PodAutoscaler lc p h =
     (case DeepCopy_PodAutoscaler lc p h of (Some c, h) \<Rightarrow> (Some (OPodAutoscaler c), h) | (None, h) \<Rightarrow> (None, h))"

definition DeepCopyInto_PodAutoscalerList ::
  "('s, 'q, 'l) lib_copies \<Rightarrow> 'l PodAutoscalerList_mem \<Rightarrow> ('s, 'q, 'l) heap \<Rightarrow> 'l PodAutoscalerList_mem \<times> ('s, 'q, 'l) heap" where
  "DeepCopyInto_PodAutoscalerList lc inp h =
     (let out = inp;
          out = out\<lparr>mpl_TypeMeta := mpl_TypeMeta inp\<rparr>;
          out = out\<lparr>mpl_ListMeta := lc_ListMeta lc (mpl_ListMeta inp)\<rparr>;
          (p, h) = new_copy hp_PodAutoscalers put_PodAutoscalers (copy_list (DeepCopyInto_PodAutoscaler lc)) (mpl_Items inp) h;
          out = out\<lparr>mpl_Items := p\<rparr>
      in (out, h))"

definition DeepCopy_PodAutoscalerList :: "('s, 'q, 'l) lib_copies \<Rightarrow> ptr \<Rightarrow> ('s, 'q, 'l) heap \<Rightarrow> ptr \<times> ('s, 'q, 'l) heap" where
  "DeepCopy_PodAutoscalerList lc = new_copy hp_PodAutoscalerList put_PodAutoscalerList (DeepCopyInto_PodAutoscalerList lc)"

definition DeepCopyObject_PodAutoscalerList ::
  "('s, 'q, 'l) lib_copies \<Rightarrow> ptr \<Rightarrow> ('s, 'q, 'l) heap \<Rightarrow> object option \<times> ('s, 'q, 'l) heap" where
  "DeepCopyObject_PodAutoscalerList lc p h =
     (case DeepCopy_PodAutoscalerList lc p h of (Some c, h) \<Rightarrow> (Some (OPodAutoscalerList c), h) | (None, h) \<Rightarrow> (None, h))"

end
