(* ===== verification/DeepCopyProps.thy ===== *)
theory DeepCopyProps
  imports DeepCopy
begin

text \<open>
  A deep copy equals its original and shares no memory with it.  Every type gets the value it
  stands for (\<open>read_\<close>, in the types of \<^verbatim>\<open>api/v1alpha1\<close>) and the addresses it is spread over
  (\<open>foot_\<close>); the contracts of \<open>Memory\<close> are interpreted on every store and every copy.
\<close>

section \<open>The stores\<close>

interpretation ResourceList_cell: cell hp_ResourceList put_ResourceList by (rule cell.intro) (simp_all add: same_at_def)
interpretation strings_cell: cell hp_strings put_strings by (rule cell.intro) (simp_all add: same_at_def)
interpretation int32_cell: cell hp_int32 put_int32 by (rule cell.intro) (simp_all add: same_at_def)
interpretation bool_cell: cell hp_bool put_bool by (rule cell.intro) (simp_all add: same_at_def)
interpretation Time_cell: cell hp_Time put_Time by (rule cell.intro) (simp_all add: same_at_def)
interpretation LabelSelector_cell: cell hp_LabelSelector put_LabelSelector by (rule cell.intro) (simp_all add: same_at_def)
interpretation Conditions_cell: cell hp_Conditions put_Conditions by (rule cell.intro) (simp_all add: same_at_def)
interpretation ContainerRecommendation_cell: cell hp_ContainerRecommendation put_ContainerRecommendation by (rule cell.intro) (simp_all add: same_at_def)
interpretation ContainerRecommendations_cell: cell hp_ContainerRecommendations put_ContainerRecommendations by (rule cell.intro) (simp_all add: same_at_def)
interpretation ContainerResourcePolicy_cell: cell hp_ContainerResourcePolicy put_ContainerResourcePolicy by (rule cell.intro) (simp_all add: same_at_def)
interpretation ContainerPolicies_cell: cell hp_ContainerPolicies put_ContainerPolicies by (rule cell.intro) (simp_all add: same_at_def)
interpretation CrossVersionObjectReference_cell: cell hp_CrossVersionObjectReference put_CrossVersionObjectReference by (rule cell.intro) (simp_all add: same_at_def)
interpretation NamespaceConstraintsStatus_cell: cell hp_NamespaceConstraintsStatus put_NamespaceConstraintsStatus by (rule cell.intro) (simp_all add: same_at_def)
interpretation PodAutoscaler_cell: cell hp_PodAutoscaler put_PodAutoscaler by (rule cell.intro) (simp_all add: same_at_def)
interpretation PodAutoscalers_cell: cell hp_PodAutoscalers put_PodAutoscalers by (rule cell.intro) (simp_all add: same_at_def)
interpretation PodAutoscalerList_cell: cell hp_PodAutoscalerList put_PodAutoscalerList by (rule cell.intro) (simp_all add: same_at_def)
interpretation PodAutoscalerSpec_cell: cell hp_PodAutoscalerSpec put_PodAutoscalerSpec by (rule cell.intro) (simp_all add: same_at_def)
interpretation PodAutoscalerStatus_cell: cell hp_PodAutoscalerStatus put_PodAutoscalerStatus by (rule cell.intro) (simp_all add: same_at_def)
interpretation Recommendation_cell: cell hp_Recommendation put_Recommendation by (rule cell.intro) (simp_all add: same_at_def)
interpretation ResourcePolicy_cell: cell hp_ResourcePolicy put_ResourcePolicy by (rule cell.intro) (simp_all add: same_at_def)
interpretation UpdatePolicy_cell: cell hp_UpdatePolicy put_UpdatePolicy by (rule cell.intro) (simp_all add: same_at_def)
interpretation VPAIntegrationStatus_cell: cell hp_VPAIntegrationStatus put_VPAIntegrationStatus by (rule cell.intro) (simp_all add: same_at_def)
interpretation VPAPolicy_cell: cell hp_VPAPolicy put_VPAPolicy by (rule cell.intro) (simp_all add: same_at_def)

section \<open>Resource lists, strings and other plain contents\<close>

definition no_foot :: "('s, 'q, 'l) heap \<Rightarrow> 'x \<Rightarrow> nat set" where
  "no_foot h x = {}"

definition as_is :: "('x \<Rightarrow> 'y) \<Rightarrow> ('s, 'q, 'l) heap \<Rightarrow> 'x \<Rightarrow> 'y" where
  "as_is f h x = f x"

lemma plain_copies: "copier (plain f) (as_is f) (as_is (\<lambda>x. x)) no_foot"
  using plain_copier[of f] by (simp add: as_is_def[abs_def] no_foot_def[abs_def])

lemma copy_exact [simp]: "copy_ResourceList exact = (\<lambda>x. x)"
  by (auto simp: copy_ResourceList_def fun_eq_iff split: option.split)

interpretation ResourceList: pointee "plain (copy_ResourceList lc)" "as_is (copy_ResourceList lc)" "as_is (\<lambda>x. x)" no_foot
    hp_ResourceList put_ResourceList for lc
  by (rule pointee.intro[OF plain_copies ResourceList_cell.cell_axioms])

interpretation strings: pointee "plain (\<lambda>x. x)" "as_is (\<lambda>x. x)" "as_is (\<lambda>x. x)" no_foot hp_strings put_strings
  by (rule pointee.intro[OF plain_copies strings_cell.cell_axioms])

interpretation int32: pointee "plain (\<lambda>x. x)" "as_is (\<lambda>x. x)" "as_is (\<lambda>x. x)" no_foot hp_int32 put_int32
  by (rule pointee.intro[OF plain_copies int32_cell.cell_axioms])

interpretation bool: pointee "plain (\<lambda>x. x)" "as_is (\<lambda>x. x)" "as_is (\<lambda>x. x)" no_foot hp_bool put_bool
  by (rule pointee.intro[OF plain_copies bool_cell.cell_axioms])

interpretation Time: pointee "plain (lc_Time lc)" "as_is (lc_Time lc)" "as_is (\<lambda>x. x)" no_foot hp_Time put_Time for lc
  by (rule pointee.intro[OF plain_copies Time_cell.cell_axioms])

interpretation LabelSelector: pointee "plain (lc_LabelSelector lc)" "as_is (lc_LabelSelector lc)" "as_is (\<lambda>x. x)" no_foot
    hp_LabelSelector put_LabelSelector for lc
  by (rule pointee.intro[OF plain_copies LabelSelector_cell.cell_axioms])

interpretation Reference: pointee "plain (\<lambda>x. x)" "as_is (\<lambda>x. x)" "as_is (\<lambda>x. x)" no_foot
    hp_CrossVersionObjectReference put_CrossVersionObjectReference
  by (rule pointee.intro[OF plain_copies CrossVersionObjectReference_cell.cell_axioms])

interpretation VPAStatus: pointee "plain (\<lambda>x. x)" "as_is (\<lambda>x. x)" "as_is (\<lambda>x. x)" no_foot
    hp_VPAIntegrationStatus put_VPAIntegrationStatus
  by (rule pointee.intro[OF plain_copies VPAIntegrationStatus_cell.cell_axioms])

interpretation Conditions: slice "plain (lc_Condition lc)" "as_is (lc_Condition lc)" "as_is (\<lambda>x. x)" no_foot
    hp_Conditions put_Conditions for lc
  by (intro slice.intro element.intro plain_copies Conditions_cell.cell_axioms)

section \<open>The values and the addresses\<close>

text \<open>A resource list behind a pointer, and the contents of a slice, nil read as empty.\<close>

definition read_ResourceList :: "('s, 'q, 'l) lib_copies \<Rightarrow> ('s, 'q, 'l) heap \<Rightarrow> ptr \<Rightarrow> 'q ResourceList" where
  "read_ResourceList lc h p = deref hp_ResourceList (as_is (copy_ResourceList lc)) h p"

definition contents :: "'x list option \<Rightarrow> 'x list" where
  "contents xs = (case xs of None \<Rightarrow> [] | Some ys \<Rightarrow> ys)"

definition read_ContainerRecommendation ::
  "('s, 'q, 'l) lib_copies \<Rightarrow> ('s, 'q, 'l) heap \<Rightarrow> ContainerRecommendation_mem \<Rightarrow> 'q ContainerRecommendation" where
  "read_ContainerRecommendation lc h x =
     \<lparr>cr_ContainerName = mcr_ContainerName x, cr_Target = read_ResourceList lc h (mcr_Target x),
      cr_LowerBound = read_ResourceList lc h (mcr_LowerBound x), cr_UpperBound = read_ResourceList lc h (mcr_UpperBound x)\<rparr>"

definition foot_ContainerRecommendation :: "('s, 'q, 'l) heap \<Rightarrow> ContainerRecommendation_mem \<Rightarrow> nat set" where
  "foot_ContainerRecommendation h x =
     ptr_foot hp_ResourceList no_foot h (mcr_Target x) \<union> ptr_foot hp_ResourceList no_foot h (mcr_LowerBound x)
     \<union> ptr_foot hp_ResourceList no_foot h (mcr_UpperBound x)"

definition read_ContainerResourcePolicy ::
  "('s, 'q, 'l) lib_copies \<Rightarrow> ('s, 'q, 'l) heap \<Rightarrow> ContainerResourcePolicy_mem \<Rightarrow> 'q ContainerResourcePolicy" where
  "read_ContainerResourcePolicy lc h x =
     \<lparr>crp_ContainerName = mcrp_ContainerName x, crp_MinAllowed = read_ResourceList lc h (mcrp_MinAllowed x),
      crp_MaxAllowed = read_ResourceList lc h (mcrp_MaxAllowed x),
      crp_ControlledResources = contents (deref hp_strings (as_is (\<lambda>x. x)) h (mcrp_ControlledResources x))\<rparr>"

definition foot_ContainerResourcePolicy :: "('s, 'q, 'l) heap \<Rightarrow> ContainerResourcePolicy_mem \<Rightarrow> nat set" where
  "foot_ContainerResourcePolicy h x =
     ptr_foot hp_ResourceList no_foot h (mcrp_MinAllowed x) \<union> ptr_foot hp_ResourceList no_foot h (mcrp_MaxAllowed x)
     \<union> ptr_foot hp_strings no_foot h (mcrp_ControlledResources x)"

interpretation ContainerRecommendation: copier "DeepCopyInto_ContainerRecommendation lc" "read_ContainerRecommendation lc"
    "read_ContainerRecommendation exact" foot_ContainerRecommendation for lc
  by (rule struct_copier[OF both_copier[OF ResourceList.ptr.copier_axioms[of lc]
          both_copier[OF ResourceList.ptr.copier_axioms[of lc] ResourceList.ptr.copier_axioms[of lc]]],
        where parts = "\<lambda>x. (mcr_Target x, mcr_LowerBound x, mcr_UpperBound x)"
          and build = "\<lambda>x (p, q, r). x\<lparr>mcr_Target := p, mcr_LowerBound := q, mcr_UpperBound := r\<rparr>"
          and known = "\<lambda>x (p, q, r). \<lparr>cr_ContainerName = mcr_ContainerName x, cr_Target = p, cr_LowerBound = q, cr_UpperBound = r\<rparr>"
          and is_val = "\<lambda>x (p, q, r). \<lparr>cr_ContainerName = mcr_ContainerName x, cr_Target = p, cr_LowerBound = q, cr_UpperBound = r\<rparr>"])
     (simp_all add: DeepCopyInto_ContainerRecommendation_def read_ContainerRecommendation_def foot_ContainerRecommendation_def
       read_ResourceList_def both_def Let_def Un_assoc split: prod.splits)

interpretation ContainerResourcePolicy: copier "DeepCopyInto_ContainerResourcePolicy lc" "read_ContainerResourcePolicy lc"
    "read_ContainerResourcePolicy exact" foot_ContainerResourcePolicy for lc
  by (rule struct_copier[OF both_copier[OF ResourceList.ptr.copier_axioms[of lc]
          both_copier[OF ResourceList.ptr.copier_axioms[of lc] strings.ptr.copier_axioms]],
        where parts = "\<lambda>x. (mcrp_MinAllowed x, mcrp_MaxAllowed x, mcrp_ControlledResources x)"
          and build = "\<lambda>x (p, q, r). x\<lparr>mcrp_MinAllowed := p, mcrp_MaxAllowed := q, mcrp_ControlledResources := r\<rparr>"
          and known = "\<lambda>x (p, q, r). \<lparr>crp_ContainerName = mcrp_ContainerName x, crp_MinAllowed = p, crp_MaxAllowed = q,
                         crp_ControlledResources = contents r\<rparr>"
          and is_val = "\<lambda>x (p, q, r). \<lparr>crp_ContainerName = mcrp_ContainerName x, crp_MinAllowed = p, crp_MaxAllowed = q,
                         crp_ControlledResources = contents r\<rparr>"])
     (simp_all add: DeepCopyInto_ContainerResourcePolicy_def read_ContainerResourcePolicy_def foot_ContainerResourcePolicy_def
       read_ResourceList_def both_def Let_def Un_assoc split: prod.splits)

definition read_NamespaceConstraintsStatus ::
  "('s, 'q, 'l) heap \<Rightarrow> NamespaceConstraintsStatus_mem \<Rightarrow> NamespaceConstraintsStatus" where
  "read_NamespaceConstraintsStatus h x =
     \<lparr>ns_LimitRangeFound = mns_LimitRangeFound x, ns_ResourceQuotaFound = mns_ResourceQuotaFound x,
      ns_EffectiveMinCPU = mns_EffectiveMinCPU x, ns_EffectiveMaxCPU = mns_EffectiveMaxCPU x,
      ns_EffectiveMinMemory = mns_EffectiveMinMemory x, ns_EffectiveMaxMemory = mns_EffectiveMaxMemory x,
      ns_ClampReasons = contents (deref hp_strings (as_is (\<lambda>x. x)) h (mns_ClampReasons x))\<rparr>"

definition foot_NamespaceConstraintsStatus :: "('s, 'q, 'l) heap \<Rightarrow> NamespaceConstraintsStatus_mem \<Rightarrow> nat set" where
  "foot_NamespaceConstraintsStatus h x = ptr_foot hp_strings no_foot h (mns_ClampReasons x)"

definition read_Recommendation :: "('s, 'q, 'l) lib_copies \<Rightarrow> ('s, 'q, 'l) heap \<Rightarrow> Recommendation_mem \<Rightarrow> 'q Recommendation" where
  "read_Recommendation lc h x =
     contents (deref hp_ContainerRecommendations (\<lambda>h. map (read_ContainerRecommendation lc h)) h (mrec_ContainerRecommendations x))"

definition foot_Recommendation :: "('s, 'q, 'l) heap \<Rightarrow> Recommendation_mem \<Rightarrow> nat set" where
  "foot_Recommendation h x =
     ptr_foot hp_ContainerRecommendations (\<lambda>h xs. \<Union> (foot_ContainerRecommendation h ` set xs)) h (mrec_ContainerRecommendations x)"

definition read_ResourcePolicy :: "('s, 'q, 'l) lib_copies \<Rightarrow> ('s, 'q, 'l) heap \<Rightarrow> ResourcePolicy_mem \<Rightarrow> 'q ResourcePolicy" where
  "read_ResourcePolicy lc h x =
     \<lparr>rp_ContainerPolicies =
        contents (deref hp_ContainerPolicies (\<lambda>h. map (read_ContainerResourcePolicy lc h)) h (mrp_ContainerPolicies x))\<rparr>"

definition foot_ResourcePolicy :: "('s, 'q, 'l) heap \<Rightarrow> ResourcePolicy_mem \<Rightarrow> nat set" where
  "foot_ResourcePolicy h x =
     ptr_foot hp_ContainerPolicies (\<lambda>h xs. \<Union> (foot_ContainerResourcePolicy h ` set xs)) h (mrp_ContainerPolicies x)"

definition read_UpdatePolicy :: "('s, 'q, 'l) heap \<Rightarrow> UpdatePolicy_mem \<Rightarrow> UpdatePolicy" where
  "read_UpdatePolicy h x =
     \<lparr>up_UpdateMode = mup_UpdateMode x, up_MaxUnavailable = deref hp_int32 (as_is (\<lambda>x. x)) h (mup_MaxUnavailable x)\<rparr>"

definition foot_UpdatePolicy :: "('s, 'q, 'l) heap \<Rightarrow> UpdatePolicy_mem \<Rightarrow> nat set" where
  "foot_UpdatePolicy h x = ptr_foot hp_int32 no_foot h (mup_MaxUnavailable x)"

definition read_VPAPolicy :: "('s, 'q, 'l) heap \<Rightarrow> VPAPolicy_mem \<Rightarrow> VPAPolicy" where
  "read_VPAPolicy h x =
     \<lparr>vp_Enabled = deref hp_bool (as_is (\<lambda>x. x)) h (mvp_Enabled x), vp_VPAName = mvp_VPAName x, vp_StrictMode = mvp_StrictMode x\<rparr>"

definition foot_VPAPolicy :: "('s, 'q, 'l) heap \<Rightarrow> VPAPolicy_mem \<Rightarrow> nat set" where
  "foot_VPAPolicy h x = ptr_foot hp_bool no_foot h (mvp_Enabled x)"

interpretation ContainerRecommendations: slice "DeepCopyInto_ContainerRecommendation lc" "read_ContainerRecommendation lc"
    "read_ContainerRecommendation exact" foot_ContainerRecommendation hp_ContainerRecommendations put_ContainerRecommendations for lc
  by (intro slice.intro element.intro ContainerRecommendation.copier_axioms ContainerRecommendations_cell.cell_axioms)

interpretation ContainerPolicies: slice "DeepCopyInto_ContainerResourcePolicy lc" "read_ContainerResourcePolicy lc"
    "read_ContainerResourcePolicy exact" foot_ContainerResourcePolicy hp_ContainerPolicies put_ContainerPolicies for lc
  by (intro slice.intro element.intro ContainerResourcePolicy.copier_axioms ContainerPolicies_cell.cell_axioms)

interpretation NamespaceConstraintsStatus: pointee DeepCopyInto_NamespaceConstraintsStatus read_NamespaceConstraintsStatus
    read_NamespaceConstraintsStatus foot_NamespaceConstraintsStatus hp_NamespaceConstraintsStatus put_NamespaceConstraintsStatus
  by (rule pointee.intro[OF _ NamespaceConstraintsStatus_cell.cell_axioms], rule struct_copier[OF strings.ptr.copier_axioms,
        where parts = mns_ClampReasons and build = "\<lambda>x p. x\<lparr>mns_ClampReasons := p\<rparr>"
          and known = "\<lambda>x p. (read_NamespaceConstraintsStatus undefined x)\<lparr>ns_ClampReasons := contents p\<rparr>"
          and is_val = "\<lambda>x p. (read_NamespaceConstraintsStatus undefined x)\<lparr>ns_ClampReasons := contents p\<rparr>"])
     (simp_all add: DeepCopyInto_NamespaceConstraintsStatus_def read_NamespaceConstraintsStatus_def
       foot_NamespaceConstraintsStatus_def Let_def split: prod.splits)

interpretation Recommendation: pointee "DeepCopyInto_Recommendation lc" "read_Recommendation lc" "read_Recommendation exact"
    foot_Recommendation hp_Recommendation put_Recommendation for lc
  by (rule pointee.intro[OF _ Recommendation_cell.cell_axioms], rule struct_copier[OF ContainerRecommendations.array.ptr.copier_axioms[of lc],
        where parts = mrec_ContainerRecommendations and build = "\<lambda>x p. x\<lparr>mrec_ContainerRecommendations := p\<rparr>"
          and known = "\<lambda>x. contents" and is_val = "\<lambda>x. contents"])
     (simp_all add: DeepCopyInto_Recommendation_def read_Recommendation_def foot_Recommendation_def Let_def split: prod.splits)

interpretation ResourcePolicy: pointee "DeepCopyInto_ResourcePolicy lc" "read_ResourcePolicy lc" "read_ResourcePolicy exact"
    foot_ResourcePolicy hp_ResourcePolicy put_ResourcePolicy for lc
  by (rule pointee.intro[OF _ ResourcePolicy_cell.cell_axioms], rule struct_copier[OF ContainerPolicies.array.ptr.copier_axioms[of lc],
        where parts = mrp_ContainerPolicies and build = "\<lambda>x p. x\<lparr>mrp_ContainerPolicies := p\<rparr>"
          and known = "\<lambda>x p. \<lparr>rp_ContainerPolicies = contents p\<rparr>" and is_val = "\<lambda>x p. \<lparr>rp_ContainerPolicies = contents p\<rparr>"])
     (simp_all add: DeepCopyInto_ResourcePolicy_def read_ResourcePolicy_def foot_ResourcePolicy_def Let_def split: prod.splits)

interpretation UpdatePolicy: pointee DeepCopyInto_UpdatePolicy read_UpdatePolicy read_UpdatePolicy foot_UpdatePolicy
    hp_UpdatePolicy put_UpdatePolicy
  by (rule pointee.intro[OF _ UpdatePolicy_cell.cell_axioms], rule struct_copier[OF int32.ptr.copier_axioms,
        where parts = mup_MaxUnavailable and build = "\<lambda>x p. x\<lparr>mup_MaxUnavailable := p\<rparr>"
          and known = "\<lambda>x p. \<lparr>up_UpdateMode = mup_UpdateMode x, up_MaxUnavailable = p\<rparr>"
          and is_val = "\<lambda>x p. \<lparr>up_UpdateMode = mup_UpdateMode x, up_MaxUnavailable = p\<rparr>"])
     (simp_all add: DeepCopyInto_UpdatePolicy_def read_UpdatePolicy_def foot_UpdatePolicy_def Let_def split: prod.splits)

interpretation VPAPolicy: pointee DeepCopyInto_VPAPolicy read_VPAPolicy read_VPAPolicy foot_VPAPolicy hp_VPAPolicy put_VPAPolicy
  by (rule pointee.intro[OF _ VPAPolicy_cell.cell_axioms], rule struct_copier[OF bool.ptr.copier_axioms,
        where parts = mvp_Enabled and build = "\<lambda>x p. x\<lparr>mvp_Enabled := p\<rparr>"
          and known = "\<lambda>x p. \<lparr>vp_Enabled = p, vp_VPAName = mvp_VPAName x, vp_StrictMode = mvp_StrictMode x\<rparr>"
          and is_val = "\<lambda>x p. \<lparr>vp_Enabled = p, vp_VPAName = mvp_VPAName x, vp_StrictMode = mvp_StrictMode x\<rparr>"])
     (simp_all add: DeepCopyInto_VPAPolicy_def read_VPAPolicy_def foot_VPAPolicy_def Let_def split: prod.splits)

section \<open>Spec, status and the objects\<close>

definition read_PodAutoscalerSpec ::
  "('s, 'q, 'l) lib_copies \<Rightarrow> ('s, 'q, 'l) heap \<Rightarrow> PodAutoscalerSpec_mem \<Rightarrow> ('s option, 'q) PodAutoscalerSpec" where
  "read_PodAutoscalerSpec lc h x =
     \<lparr>sp_Selector = deref hp_LabelSelector (as_is (lc_LabelSelector lc)) h (msp_Selector x),
      sp_TargetRef = deref hp_CrossVersionObjectReference (as_is (\<lambda>x. x)) h (msp_TargetRef x),
      sp_ResourcePolicy = deref hp_ResourcePolicy (read_ResourcePolicy lc) h (msp_ResourcePolicy x),
      sp_UpdatePolicy = deref hp_UpdatePolicy read_UpdatePolicy h (msp_UpdatePolicy x),
      sp_MetricsCollectionIntervalSeconds = deref hp_int32 (as_is (\<lambda>x. x)) h (msp_MetricsCollectionIntervalSeconds x),
      sp_EvaluationWindowMinutes = deref hp_int32 (as_is (\<lambda>x. x)) h (msp_EvaluationWindowMinutes x),
      sp_VarianceThresholdPercent = deref hp_int32 (as_is (\<lambda>x. x)) h (msp_VarianceThresholdPercent x),
      sp_DryRun = msp_DryRun x,
      sp_VPAPolicy = deref hp_VPAPolicy read_VPAPolicy h (msp_VPAPolicy x)\<rparr>"

definition foot_PodAutoscalerSpec :: "('s, 'q, 'l) heap \<Rightarrow> PodAutoscalerSpec_mem \<Rightarrow> nat set" where
  "foot_PodAutoscalerSpec h x =
     ptr_foot hp_LabelSelector no_foot h (msp_Selector x)
     \<union> ptr_foot hp_CrossVersionObjectReference no_foot h (msp_TargetRef x)
     \<union> ptr_foot hp_ResourcePolicy foot_ResourcePolicy h (msp_ResourcePolicy x)
     \<union> ptr_foot hp_UpdatePolicy foot_UpdatePolicy h (msp_UpdatePolicy x)
     \<union> ptr_foot hp_int32 no_foot h (msp_MetricsCollectionIntervalSeconds x)
     \<union> ptr_foot hp_int32 no_foot h (msp_EvaluationWindowMinutes x)
     \<union> ptr_foot hp_int32 no_foot h (msp_VarianceThresholdPercent x)
     \<union> ptr_foot hp_VPAPolicy foot_VPAPolicy h (msp_VPAPolicy x)"

definition read_PodAutoscalerStatus ::
  "('s, 'q, 'l) lib_copies \<Rightarrow> ('s, 'q, 'l) heap \<Rightarrow> PodAutoscalerStatus_mem \<Rightarrow> 'q PodAutoscalerStatus" where
  "read_PodAutoscalerStatus lc h x =
     \<lparr>st_Phase = mst_Phase x,
      st_Conditions = contents (deref hp_Conditions (\<lambda>h. map (as_is (lc_Condition lc) h)) h (mst_Conditions x)),
      st_MonitoredPods = mst_MonitoredPods x,
      st_Recommendation = deref hp_Recommendation (read_Recommendation lc) h (mst_Recommendation x),
      st_LastEvaluationTime = deref hp_Time (as_is (lc_Time lc)) h (mst_LastEvaluationTime x),
      st_LastUpdateTime = deref hp_Time (as_is (lc_Time lc)) h (mst_LastUpdateTime x),
      st_TotalAdjustments = mst_TotalAdjustments x, st_ObservedGeneration = mst_ObservedGeneration x,
      st_VPAStatus = deref hp_VPAIntegrationStatus (as_is (\<lambda>x. x)) h (mst_VPAStatus x),
      st_NamespaceConstraints =
        deref hp_NamespaceConstraintsStatus read_NamespaceConstraintsStatus h (mst_NamespaceConstraints x)\<rparr>"

definition foot_PodAutoscalerStatus :: "('s, 'q, 'l) heap \<Rightarrow> PodAutoscalerStatus_mem \<Rightarrow> nat set" where
  "foot_PodAutoscalerStatus h x =
     ptr_foot hp_Conditions (\<lambda>h xs. \<Union> (no_foot h ` set xs)) h (mst_Conditions x)
     \<union> ptr_foot hp_Recommendation foot_Recommendation h (mst_Recommendation x)
     \<union> ptr_foot hp_Time no_foot h (mst_LastEvaluationTime x) \<union> ptr_foot hp_Time no_foot h (mst_LastUpdateTime x)
     \<union> ptr_foot hp_VPAIntegrationStatus no_foot h (mst_VPAStatus x)
     \<union> ptr_foot hp_NamespaceConstraintsStatus foot_NamespaceConstraintsStatus h (mst_NamespaceConstraints x)"

text \<open>The object as the controller sees it, and its type metadata.\<close>

definition as_PodAutoscaler ::
  "ObjectMeta \<Rightarrow> ('s, 'q) PodAutoscalerSpec \<Rightarrow> 'q PodAutoscalerStatus \<Rightarrow> ('s, 'q) PodAutoscaler" where
  "as_PodAutoscaler m sp st =
     \<lparr>pa_Name = om_Name m, pa_Namespace = om_Namespace m, pa_Generation = om_Generation m, pa_Deleting = om_Deleting m,
      pa_Finalizers = om_Finalizers m, pa_Spec = sp, pa_Status = st\<rparr>"

definition read_PodAutoscaler ::
  "('s, 'q, 'l) lib_copies \<Rightarrow> ('s, 'q, 'l) heap \<Rightarrow> PodAutoscaler_mem \<Rightarrow> TypeMeta \<times> ('s option, 'q) PodAutoscaler" where
  "read_PodAutoscaler lc h x =
     (mpa_TypeMeta x,
      as_PodAutoscaler (lc_ObjectMeta lc (mpa_ObjectMeta x)) (read_PodAutoscalerSpec lc h (mpa_Spec x))
        (read_PodAutoscalerStatus lc h (mpa_Status x)))"

definition foot_PodAutoscaler :: "('s, 'q, 'l) heap \<Rightarrow> PodAutoscaler_mem \<Rightarrow> nat set" where
  "foot_PodAutoscaler h x = foot_PodAutoscalerSpec h (mpa_Spec x) \<union> foot_PodAutoscalerStatus h (mpa_Status x)"

definition read_PodAutoscalerList ::
  "('s, 'q, 'l) lib_copies \<Rightarrow> ('s, 'q, 'l) heap \<Rightarrow> 'l PodAutoscalerList_mem
   \<Rightarrow> TypeMeta \<times> 'l \<times> (TypeMeta \<times> ('s option, 'q) PodAutoscaler) list" where
  "read_PodAutoscalerList lc h x =
     (mpl_TypeMeta x, lc_ListMeta lc (mpl_ListMeta x),
      contents (deref hp_PodAutoscalers (\<lambda>h. map (read_PodAutoscaler lc h)) h (mpl_Items x)))"

definition foot_PodAutoscalerList :: "('s, 'q, 'l) heap \<Rightarrow> 'l PodAutoscalerList_mem \<Rightarrow> nat set" where
  "foot_PodAutoscalerList h x = ptr_foot hp_PodAutoscalers (\<lambda>h xs. \<Union> (foot_PodAutoscaler h ` set xs)) h (mpl_Items x)"

lemmas Spec_fields = both_copier[OF LabelSelector.ptr.copier_axioms both_copier[OF Reference.ptr.copier_axioms
  both_copier[OF ResourcePolicy.ptr.copier_axioms both_copier[OF UpdatePolicy.ptr.copier_axioms
  both_copier[OF int32.ptr.copier_axioms both_copier[OF int32.ptr.copier_axioms
  both_copier[OF int32.ptr.copier_axioms VPAPolicy.ptr.copier_axioms]]]]]]]

definition spec_of where
  "spec_of x = (\<lambda>(a, b, c, d, e, f, g, i).
     \<lparr>sp_Selector = a, sp_TargetRef = b, sp_ResourcePolicy = c, sp_UpdatePolicy = d, sp_MetricsCollectionIntervalSeconds = e,
      sp_EvaluationWindowMinutes = f, sp_VarianceThresholdPercent = g, sp_DryRun = msp_DryRun x, sp_VPAPolicy = i\<rparr>)"

interpretation Spec: pointee "DeepCopyInto_PodAutoscalerSpec lc" "read_PodAutoscalerSpec lc" "read_PodAutoscalerSpec exact"
    foot_PodAutoscalerSpec hp_PodAutoscalerSpec put_PodAutoscalerSpec for lc
  by (rule pointee.intro[OF _ PodAutoscalerSpec_cell.cell_axioms], rule struct_copier[OF Spec_fields[of lc lc],
        where parts = "\<lambda>x. (msp_Selector x, msp_TargetRef x, msp_ResourcePolicy x, msp_UpdatePolicy x,
            msp_MetricsCollectionIntervalSeconds x, msp_EvaluationWindowMinutes x, msp_VarianceThresholdPercent x, msp_VPAPolicy x)"
          and build = "\<lambda>x (a, b, c, d, e, f, g, i). x\<lparr>msp_Selector := a, msp_TargetRef := b, msp_ResourcePolicy := c,
            msp_UpdatePolicy := d, msp_MetricsCollectionIntervalSeconds := e, msp_EvaluationWindowMinutes := f,
            msp_VarianceThresholdPercent := g, msp_VPAPolicy := i\<rparr>"
          and known = spec_of and is_val = spec_of])
     (simp_all add: DeepCopyInto_PodAutoscalerSpec_def read_PodAutoscalerSpec_def foot_PodAutoscalerSpec_def spec_of_def
       both_def Let_def Un_assoc split: prod.splits)

lemmas Status_fields = both_copier[OF Conditions.array.ptr.copier_axioms both_copier[OF Recommendation.ptr.copier_axioms
  both_copier[OF Time.ptr.copier_axioms both_copier[OF Time.ptr.copier_axioms
  both_copier[OF VPAStatus.ptr.copier_axioms NamespaceConstraintsStatus.ptr.copier_axioms]]]]]

definition status_of where
  "status_of x = (\<lambda>(a, b, c, d, e, f).
     \<lparr>st_Phase = mst_Phase x, st_Conditions = contents a, st_MonitoredPods = mst_MonitoredPods x, st_Recommendation = b,
      st_LastEvaluationTime = c, st_LastUpdateTime = d, st_TotalAdjustments = mst_TotalAdjustments x,
      st_ObservedGeneration = mst_ObservedGeneration x, st_VPAStatus = e, st_NamespaceConstraints = f\<rparr>)"

interpretation Status: pointee "DeepCopyInto_PodAutoscalerStatus lc" "read_PodAutoscalerStatus lc" "read_PodAutoscalerStatus exact"
    foot_PodAutoscalerStatus hp_PodAutoscalerStatus put_PodAutoscalerStatus for lc
  by (rule pointee.intro[OF _ PodAutoscalerStatus_cell.cell_axioms], rule struct_copier[OF Status_fields[of lc lc lc lc],
        where parts = "\<lambda>x. (mst_Conditions x, mst_Recommendation x, mst_LastEvaluationTime x, mst_LastUpdateTime x,
            mst_VPAStatus x, mst_NamespaceConstraints x)"
          and build = "\<lambda>x (a, b, c, d, e, f). x\<lparr>mst_Conditions := a, mst_Recommendation := b, mst_LastEvaluationTime := c,
            mst_LastUpdateTime := d, mst_VPAStatus := e, mst_NamespaceConstraints := f\<rparr>"
          and known = status_of and is_val = status_of])
     (simp_all add: DeepCopyInto_PodAutoscalerStatus_def read_PodAutoscalerStatus_def foot_PodAutoscalerStatus_def status_of_def
       both_def Let_def Un_assoc split: prod.splits)

interpretation PodAutoscaler: pointee "DeepCopyInto_PodAutoscaler lc" "read_PodAutoscaler lc" "read_PodAutoscaler exact"
    foot_PodAutoscaler hp_PodAutoscaler put_PodAutoscaler for lc
  by (rule pointee.intro[OF _ PodAutoscaler_cell.cell_axioms],
      rule struct_copier[OF both_copier[OF Spec.copier_axioms[of lc] Status.copier_axioms[of lc]],
        where parts = "\<lambda>x. (mpa_Spec x, mpa_Status x)"
          and build = "\<lambda>x (s, t). x\<lparr>mpa_ObjectMeta := lc_ObjectMeta lc (mpa_ObjectMeta x), mpa_Spec := s, mpa_Status := t\<rparr>"
          and known = "\<lambda>x (s, t). (mpa_TypeMeta x, as_PodAutoscaler (lc_ObjectMeta lc (mpa_ObjectMeta x)) s t)"
          and is_val = "\<lambda>x (s, t). (mpa_TypeMeta x, as_PodAutoscaler (mpa_ObjectMeta x) s t)"])
     (simp_all add: DeepCopyInto_PodAutoscaler_def read_PodAutoscaler_def foot_PodAutoscaler_def both_def Let_def split: prod.splits)

interpretation PodAutoscalers: slice "DeepCopyInto_PodAutoscaler lc" "read_PodAutoscaler lc" "read_PodAutoscaler exact"
    foot_PodAutoscaler hp_PodAutoscalers put_PodAutoscalers for lc
  by (intro slice.intro element.intro PodAutoscaler.copier_axioms PodAutoscalers_cell.cell_axioms)

interpretation PodAutoscalerList: pointee "DeepCopyInto_PodAutoscalerList lc" "read_PodAutoscalerList lc" "read_PodAutoscalerList exact"
    foot_PodAutoscalerList hp_PodAutoscalerList put_PodAutoscalerList for lc
  by (rule pointee.intro[OF _ PodAutoscalerList_cell.cell_axioms], rule struct_copier[OF PodAutoscalers.array.ptr.copier_axioms[of lc],
        where parts = mpl_Items
          and build = "\<lambda>x p. x\<lparr>mpl_ListMeta := lc_ListMeta lc (mpl_ListMeta x), mpl_Items := p\<rparr>"
          and known = "\<lambda>x p. (mpl_TypeMeta x, lc_ListMeta lc (mpl_ListMeta x), contents p)"
          and is_val = "\<lambda>x p. (mpl_TypeMeta x, mpl_ListMeta x, contents p)"])
     (simp_all add: DeepCopyInto_PodAutoscalerList_def read_PodAutoscalerList_def foot_PodAutoscalerList_def Let_def split: prod.splits)

section \<open>The copies of objects\<close>

definition pa_at :: "('s, 'q, 'l) heap \<Rightarrow> ptr \<Rightarrow> (TypeMeta \<times> ('s option, 'q) PodAutoscaler) option" where
  "pa_at h p = deref hp_PodAutoscaler (read_PodAutoscaler exact) h p"

definition pa_cells :: "('s, 'q, 'l) heap \<Rightarrow> ptr \<Rightarrow> nat set" where
  "pa_cells h p = ptr_foot hp_PodAutoscaler foot_PodAutoscaler h p"

definition list_at ::
  "('s, 'q, 'l) heap \<Rightarrow> ptr \<Rightarrow> (TypeMeta \<times> 'l \<times> (TypeMeta \<times> ('s option, 'q) PodAutoscaler) list) option" where
  "list_at h p = deref hp_PodAutoscalerList (read_PodAutoscalerList exact) h p"

definition list_cells :: "('s, 'q, 'l) heap \<Rightarrow> ptr \<Rightarrow> nat set" where
  "list_cells h p = ptr_foot hp_PodAutoscalerList foot_PodAutoscalerList h p"

text \<open>Anything may have been written, but only at addresses of \<open>S\<close>.\<close>

definition writes_only :: "nat set \<Rightarrow> ('s, 'q, 'l) heap \<Rightarrow> ('s, 'q, 'l) heap \<Rightarrow> bool" where
  "writes_only S h h' \<longleftrightarrow> (\<forall>a. a \<notin> S \<longrightarrow> same_at a h h')"

text \<open>
  C12. A deep copy of a PodAutoscaler equals it, leaves it as it was, and is independent of it: the
  two share no cell, and whatever is written to the cells of one of them afterwards (to its
  maps, slices and structs at any depth) does not show in the other.
\<close>

theorem DeepCopy_PodAutoscaler_independent:
  assumes "faithful lc" and "pa_cells h p \<subseteq> allocated h" and "DeepCopy_PodAutoscaler lc p h = (q, h')"
  shows "pa_at h' q = pa_at h p \<and> pa_at h' p = pa_at h p
       \<and> pa_cells h' p \<inter> pa_cells h' q = {} \<and> pa_cells h' q \<inter> allocated h = {}
       \<and> (\<forall>h2. writes_only (pa_cells h' q) h' h2 \<longrightarrow> pa_at h2 p = pa_at h p)
       \<and> (\<forall>h2. writes_only (pa_cells h' p) h' h2 \<longrightarrow> pa_at h2 q = pa_at h p)"
proof -
  have lc: "lc = exact" using assms(1) by (rule faithful_exact)
  note c = assms(2)[unfolded pa_cells_def] assms(3)[unfolded DeepCopy_PodAutoscaler_def lc]
  note I = PodAutoscaler.ptr.copy_independent[OF c, folded pa_at_def pa_cells_def]
  have "pa_cells h' q \<inter> allocated h = {}"
    using PodAutoscaler.ptr.copies[OF c] by (auto simp: pa_cells_def)
  then show ?thesis using I by (simp add: writes_only_def)
qed

text \<open>
  A PodAutoscaler with an update policy and a recommendation for one container: five cells.
\<close>

definition sample_object :: PodAutoscaler_mem where
  "sample_object =
     \<lparr>mpa_TypeMeta = \<lparr>tm_Kind = ''PodAutoscaler'', tm_APIVersion = ''autoscaling.podfather.io/v1alpha1''\<rparr>,
         mpa_ObjectMeta = \<lparr>om_Name = ''web'', om_Namespace = ''prod'', om_Generation = 1, om_Deleting = False, om_Finalizers = []\<rparr>,
         mpa_Spec = \<lparr>msp_Selector = None, msp_TargetRef = None, msp_ResourcePolicy = None, msp_UpdatePolicy = Some 1,
           msp_MetricsCollectionIntervalSeconds = None, msp_EvaluationWindowMinutes = None,
           msp_VarianceThresholdPercent = None, msp_DryRun = False, msp_VPAPolicy = None\<rparr>,
         mpa_Status = \<lparr>mst_Phase = PhaseActive, mst_Conditions = None, mst_MonitoredPods = 1, mst_Recommendation = Some 2,
           mst_LastEvaluationTime = None, mst_LastUpdateTime = None, mst_TotalAdjustments = 0, mst_ObservedGeneration = 1,
           mst_VPAStatus = None, mst_NamespaceConstraints = None\<rparr>\<rparr>"

definition sample_heap :: "(string, int, unit) heap" where
  "sample_heap =
     \<lparr>hp_next = 5, hp_ResourceList = (\<lambda>a. [''cpu'' \<mapsto> 250]), hp_strings = (\<lambda>a. []), hp_int32 = (\<lambda>a. 0), hp_bool = (\<lambda>a. False),
      hp_Time = (\<lambda>a. 0), hp_LabelSelector = (\<lambda>a. []), hp_Conditions = (\<lambda>a. []),
      hp_ContainerRecommendation = (\<lambda>a. \<lparr>mcr_ContainerName = [], mcr_Target = None, mcr_LowerBound = None, mcr_UpperBound = None\<rparr>),
      hp_ContainerRecommendations = (\<lambda>a. [\<lparr>mcr_ContainerName = ''app'', mcr_Target = Some 4, mcr_LowerBound = None, mcr_UpperBound = None\<rparr>]),
      hp_ContainerResourcePolicy = (\<lambda>a. \<lparr>mcrp_ContainerName = [], mcrp_MinAllowed = None, mcrp_MaxAllowed = None, mcrp_ControlledResources = None\<rparr>),
      hp_ContainerPolicies = (\<lambda>a. []),
      hp_CrossVersionObjectReference = (\<lambda>a. \<lparr>ref_Kind = [], ref_Name = [], ref_APIVersion = []\<rparr>),
      hp_NamespaceConstraintsStatus = (\<lambda>a. \<lparr>mns_LimitRangeFound = False, mns_ResourceQuotaFound = False, mns_EffectiveMinCPU = [],
        mns_EffectiveMaxCPU = [], mns_EffectiveMinMemory = [], mns_EffectiveMaxMemory = [], mns_ClampReasons = None\<rparr>),
      hp_PodAutoscaler = (\<lambda>a. sample_object),
      hp_PodAutoscalers = (\<lambda>a. [sample_object]),
      hp_PodAutoscalerList = (\<lambda>a. \<lparr>mpl_TypeMeta = \<lparr>tm_Kind = [], tm_APIVersion = []\<rparr>, mpl_ListMeta = (), mpl_Items = Some 0\<rparr>),
      hp_PodAutoscalerSpec = (\<lambda>a. mpa_Spec sample_object), hp_PodAutoscalerStatus = (\<lambda>a. mpa_Status sample_object),
      hp_Recommendation = (\<lambda>a. \<lparr>mrec_ContainerRecommendations = Some 3\<rparr>),
      hp_ResourcePolicy = (\<lambda>a. \<lparr>mrp_ContainerPolicies = None\<rparr>),
      hp_UpdatePolicy = (\<lambda>a. \<lparr>mup_UpdateMode = ''Auto'', mup_MaxUnavailable = None\<rparr>),
      hp_VPAIntegrationStatus = (\<lambda>a. \<lparr>vs_VPAInstalled = False, vs_MatchingVPAName = [], vs_VPAUpdateMode = [],
        vs_UsingVPARecommendations = False, vs_VPAConflict = []\<rparr>), hp_VPAPolicy = (\<lambda>a. \<lparr>mvp_Enabled = None, mvp_VPAName = [], mvp_StrictMode = False\<rparr>)\<rparr>"

lemma sample_cells: "pa_cells sample_heap (Some 0) \<subseteq> allocated sample_heap"
  by (simp add: pa_cells_def foot_PodAutoscaler_def foot_PodAutoscalerSpec_def foot_PodAutoscalerStatus_def foot_UpdatePolicy_def
      foot_Recommendation_def foot_ContainerRecommendation_def no_foot_def sample_heap_def sample_object_def allocated_def)

theorem DeepCopy_PodAutoscaler_independent_witness:
  "\<exists>b h'. DeepCopy_PodAutoscaler exact (Some 0) sample_heap = (Some b, h') \<and> b \<noteq> 0
     \<and> map_option (st_Recommendation \<circ> pa_Status \<circ> snd) (pa_at h' (Some b)) =
         Some (Some [\<lparr>cr_ContainerName = ''app'', cr_Target = Some [''cpu'' \<mapsto> 250], cr_LowerBound = None, cr_UpperBound = None\<rparr>])"
proof -
  obtain q h' where c: "DeepCopy_PodAutoscaler exact (Some 0) sample_heap = (q, h')" by (metis surj_pair)
  have "faithful (exact :: (string, int, unit) lib_copies)" by (simp add: faithful_def)
  note I = DeepCopy_PodAutoscaler_independent[OF this sample_cells c]
  have v: "map_option (st_Recommendation \<circ> pa_Status \<circ> snd) (pa_at sample_heap (Some 0)) =
      Some (Some [\<lparr>cr_ContainerName = ''app'', cr_Target = Some [''cpu'' \<mapsto> 250], cr_LowerBound = None, cr_UpperBound = None\<rparr>])"
    by (simp add: pa_at_def read_PodAutoscaler_def as_PodAutoscaler_def read_PodAutoscalerStatus_def read_Recommendation_def
        read_ContainerRecommendation_def read_ResourceList_def contents_def as_is_def sample_heap_def sample_object_def)
  moreover obtain b where "q = Some b" using I by (cases q) (auto simp: pa_at_def)
  moreover have "b \<noteq> 0" using I \<open>q = Some b\<close> by (auto simp: pa_cells_def)
  ultimately show ?thesis using I c by auto
qed

text \<open>
  C22. The copy a list object hands out as a \<^verbatim>\<open>runtime.Object\<close> is nil exactly for a nil list; otherwise
  it is a list again, with the same items in the same order, in cells of its own, and neither of the
  two shows what is written to the other.
\<close>

theorem DeepCopyObject_list:
  assumes "faithful lc" and "list_cells h p \<subseteq> allocated h" and "DeepCopyObject_PodAutoscalerList lc p h = (ob, h')"
  shows "case p of
      None \<Rightarrow> ob = None \<and> h' = h
    | Some a \<Rightarrow> \<exists>b. ob = Some (OPodAutoscalerList b) \<and> list_at h' (Some b) = list_at h p \<and> list_at h' p = list_at h p
        \<and> list_cells h' (Some b) \<inter> allocated h = {}
        \<and> (\<forall>h2. writes_only (list_cells h' (Some b)) h' h2 \<longrightarrow> list_at h2 p = list_at h p)
        \<and> (\<forall>h2. writes_only (list_cells h' p) h' h2 \<longrightarrow> list_at h2 (Some b) = list_at h p)"
proof -
  have lc: "lc = exact" using assms(1) by (rule faithful_exact)
  obtain q h1 where d: "DeepCopy_PodAutoscalerList lc p h = (q, h1)" by (metis surj_pair)
  note c = assms(2)[unfolded list_cells_def] d[unfolded DeepCopy_PodAutoscalerList_def lc]
  note I = PodAutoscalerList.ptr.copy_independent[OF c, folded list_at_def list_cells_def]
  have f: "list_cells h1 q \<inter> allocated h = {}"
    using PodAutoscalerList.ptr.copies[OF c] by (auto simp: list_cells_def)
  show ?thesis
  proof (cases p)
    case None
    then have "q = None" "h1 = h" using c(2) by (simp_all add: new_copy_def)
    then show ?thesis using None assms(3) d by (auto simp: DeepCopyObject_PodAutoscalerList_def)
  next
    case (Some a)
    then obtain b where q: "q = Some b" using I(1) by (cases q) (auto simp: list_at_def)
    then have "ob = Some (OPodAutoscalerList b)" "h' = h1"
      using assms(3) by (simp_all add: DeepCopyObject_PodAutoscalerList_def d)
    then show ?thesis using Some I f by (simp add: q writes_only_def)
  qed
qed

theorem DeepCopyObject_list_witness:
  "\<exists>b h'. DeepCopyObject_PodAutoscalerList exact (Some 4) sample_heap = (Some (OPodAutoscalerList b), h')
     \<and> list_at h' (Some b) = list_at sample_heap (Some 4)
     \<and> map_option (map (pa_Name \<circ> snd) \<circ> snd \<circ> snd) (list_at h' (Some b)) = Some [''web'']"
proof -
  obtain ob h' where c: "DeepCopyObject_PodAutoscalerList exact (Some 4) sample_heap = (ob, h')" by (metis surj_pair)
  have f: "faithful (exact :: (string, int, unit) lib_copies)" by (simp add: faithful_def)
  have w: "list_cells sample_heap (Some 4) \<subseteq> allocated sample_heap"
    by (simp add: list_cells_def foot_PodAutoscalerList_def foot_PodAutoscaler_def foot_PodAutoscalerSpec_def
        foot_PodAutoscalerStatus_def foot_UpdatePolicy_def foot_Recommendation_def foot_ContainerRecommendation_def no_foot_def
        sample_heap_def sample_object_def allocated_def)
  have "map_option (map (pa_Name \<circ> snd) \<circ> snd \<circ> snd) (list_at sample_heap (Some 4)) = Some [''web'']"
    by (simp add: list_at_def read_PodAutoscalerList_def read_PodAutoscaler_def as_PodAutoscaler_def contents_def sample_heap_def
        sample_object_def)
  with DeepCopyObject_list[OF f w c] c show ?thesis by auto
qed

end
