(* ===== verification/Telemetry.thy ===== *)
theory Telemetry
  imports GoFmt
begin

text \<open>
  Package \<^verbatim>\<open>internal/telemetry\<close>: the tracing pipeline.  The OpenTelemetry SDK is a record of functions
  over the outside world.
\<close>

abbreviation tracerName :: string where "tracerName \<equiv> ''github.com/des57/podfather''"

datatype otlp_option = WithEndpoint string | WithInsecure

text \<open>\<open>'e\<close>: exporters, \<open>'r\<close>: resources, \<open>'p\<close>: tracer providers, \<open>'t\<close>: tracers.\<close>

record ('w, 'e, 'r, 'p, 't) otel =
  NewExporter :: "otlp_option list \<Rightarrow> 'w \<Rightarrow> (goerr + 'e) \<times> 'w"
  NewResource :: "(string \<times> string) list \<Rightarrow> 'w \<Rightarrow> (goerr + 'r) \<times> 'w"
  NewTracerProvider :: "'e \<Rightarrow> 'r \<Rightarrow> 'w \<Rightarrow> 'p \<times> 'w"
  SetTracerProvider :: "'p \<Rightarrow> 'w \<Rightarrow> 'w"
  Shutdown :: "'p \<Rightarrow> 'w \<Rightarrow> goerr option \<times> 'w"
  NamedTracer :: "string \<Rightarrow> 'w \<Rightarrow> 't \<times> 'w"

definition InitProvider ::
  "('w, 'e, 'r, 'p, 't) otel \<Rightarrow> string \<Rightarrow> 'w \<Rightarrow> (goerr + ('w \<Rightarrow> goerr option \<times> 'w)) \<times> 'w" where
  "InitProvider ot endpoint w =
     (case NewExporter ot [WithEndpoint endpoint, WithInsecure] w of
        (Inl err, w) \<Rightarrow> (Inl (Wrapf ''failed to create OTLP exporter'' err), w)
      | (Inr exporter, w) \<Rightarrow>
          (case NewResource ot [(''service.name'', ''podfather''), (''service.version'', ''0.1.0'')] w of
             (Inl err, w) \<Rightarrow> (Inl (Wrapf ''failed to create OTel resource'' err), w)
           | (Inr res, w) \<Rightarrow>
               (let (tp, w) = NewTracerProvider ot exporter res w;
                    w = SetTracerProvider ot tp w
                in (Inr (Shutdown ot tp), w))))"

definition Tracer :: "('w, 'e, 'r, 'p, 't) otel \<Rightarrow> 'w \<Rightarrow> 't \<times> 'w" where
  "Tracer ot w = NamedTracer ot tracerName w"

end
