(* ===== verification/GoRuntime.thy ===== *)
theory GoRuntime
  imports GoFmt
begin

text \<open>
  Two more pieces of Go that \<^verbatim>\<open>cmd/main.go\<close> uses: slices with their shared backing arrays, and
  \<^verbatim>\<open>filepath.Join\<close>.
\<close>

section \<open>Slices\<close>

text \<open>
  A slice header; the nil slice has no capacity.  Arrays live in a store; a cell that was never
  written holds \<open>None\<close>, the zero value.
\<close>

record slice_header =
  sl_array :: nat
  sl_len :: nat
  sl_cap :: nat

record 'a arrays =
  ar_next :: nat
  ar_cells :: "nat \<Rightarrow> nat \<Rightarrow> 'a option"

definition nil_slice :: slice_header where
  "nil_slice = \<lparr>sl_array = 0, sl_len = 0, sl_cap = 0\<rparr>"

definition no_arrays :: "'a arrays" where
  "no_arrays = \<lparr>ar_next = 0, ar_cells = (\<lambda>a i. None)\<rparr>"

text \<open>
  \<^verbatim>\<open>append(s, x)\<close>: in place while there is capacity, else into a new array.  The language leaves the
  new capacity to the implementation: \<open>grow old needed\<close> is a parameter.
\<close>

definition append_to :: "(nat \<Rightarrow> nat \<Rightarrow> nat) \<Rightarrow> slice_header \<Rightarrow> 'a \<Rightarrow> 'a arrays \<Rightarrow> slice_header \<times> 'a arrays" where
  "append_to grow s x st =
     (let n = sl_len s; cells = ar_cells st (sl_array s) in
      if n < sl_cap s
      then (s\<lparr>sl_len := Suc n\<rparr>, st\<lparr>ar_cells := (ar_cells st)(sl_array s := cells(n := Some x))\<rparr>)
      else (let b = ar_next st in
            (\<lparr>sl_array = b, sl_len = Suc n, sl_cap = grow (sl_cap s) (Suc n)\<rparr>,
             \<lparr>ar_next = Suc b,
              ar_cells = (ar_cells st)(b := (\<lambda>i. if i < n then cells i else if i = n then Some x else None))\<rparr>)))"

definition elements :: "'a arrays \<Rightarrow> slice_header \<Rightarrow> 'a option list" where
  "elements st s = map (ar_cells st (sl_array s)) [0..<sl_len s]"

section \<open>Paths\<close>

fun segments :: "string \<Rightarrow> string list" where
  "segments [] = [[]]"
| "segments (c # cs) =
     (if c = CHR ''/'' then [] # segments cs
      else case segments cs of [] \<Rightarrow> [[c]] | x # xs \<Rightarrow> (c # x) # xs)"

fun join_with :: "char \<Rightarrow> string list \<Rightarrow> string" where
  "join_with sep [] = []"
| "join_with sep [x] = x"
| "join_with sep (x # y # xs) = x @ sep # join_with sep (y # xs)"

text \<open>\<open>out\<close> holds the segments kept so far, the last one first.\<close>

definition clean_step :: "bool \<Rightarrow> string list \<Rightarrow> string \<Rightarrow> string list" where
  "clean_step rooted out seg =
     (if seg = [] \<or> seg = ''.'' then out
      else if seg = ''..'' then
        (case out of
           [] \<Rightarrow> if rooted then [] else [''..'']
         | x # xs \<Rightarrow> if x = ''..'' then ''..'' # out else xs)
      else seg # out)"

definition Clean :: "string \<Rightarrow> string" where
  "Clean path =
     (if path = [] then ''.''
      else let rooted = (hd path = CHR ''/'');
               body = join_with CHR ''/'' (rev (foldl (clean_step rooted) [] (segments path)))
           in if rooted then CHR ''/'' # body else if body = [] then ''.'' else body)"

definition Join :: "string list \<Rightarrow> string" where
  "Join elems =
     (case dropWhile (\<lambda>e. e = []) elems of [] \<Rightarrow> [] | es \<Rightarrow> Clean (join_with CHR ''/'' es))"

lemma Join_examples:
  "Join [''/tmp/certs'', ''tls.crt''] = ''/tmp/certs/tls.crt''"
  "Join [''/tmp/../certs//'', ''tls.key''] = ''/certs/tls.key''"
  "Join [''../a/./b'', ''..''] = ''../a''"
  "Join [[], []] = []"
  by (simp_all add: Join_def Clean_def clean_step_def)

end
