(* ===== verification/Startup.thy ===== *)
theory Startup
  imports Controller Telemetry GoRuntime
begin

text \<open>
  \<^verbatim>\<open>cmd/main.go\<close>: registration of the types, the start of the manager and its error exits, and the TLS
  options of the two servers; with \<^verbatim>\<open>api/v1alpha1/groupversion_info.go\<close>, \<^verbatim>\<open>RegisterMetrics\<close> and
  \<^verbatim>\<open>SetupWithManager\<close>, which it calls.  Parsing the command line is left to \<^verbatim>\<open>flag\<close>: \<open>main\<close> starts from
  the parsed flags.  The lines of \<^verbatim>\<open>setupLog\<close> are all a failing start leaves behind, so they are kept.
\<close>

section \<open>Flags\<close>

record flags =
  fl_metricsAddr :: string
  fl_probeAddr :: string
  fl_enableLeaderElection :: bool
  fl_secureMetrics :: bool
  fl_webhookCertPath :: string
  fl_webhookCertName :: string
  fl_webhookCertKey :: string
  fl_metricsCertPath :: string
  fl_metricsCertName :: string
  fl_metricsCertKey :: string
  fl_enableHTTP2 :: bool
  fl_otelEndpoint :: string

definition default_flags :: flags where
  "default_flags =
     \<lparr>fl_metricsAddr = ''0'', fl_probeAddr = '':8081'', fl_enableLeaderElection = False, fl_secureMetrics = True,
      fl_webhookCertPath = [], fl_webhookCertName = ''tls.crt'', fl_webhookCertKey = ''tls.key'',
      fl_metricsCertPath = [], fl_metricsCertName = ''tls.crt'', fl_metricsCertKey = ''tls.key'',
      fl_enableHTTP2 = False, fl_otelEndpoint = []\<rparr>"

section \<open>The libraries\<close>

datatype scheme_part = ClientGoScheme | MetricsScheme | TypesScheme string string "string list"
  \<comment> \<open>group, version and kinds of a \<^verbatim>\<open>scheme.Builder\<close>\<close>

text \<open>The closures \<^verbatim>\<open>func(*tls.Config)\<close> of \<^verbatim>\<open>main\<close>, by what they do.\<close>

datatype 'cw tls_option = DisableHTTP2 | GetCertificateFrom 'cw

record 'cw manager_options =
  mo_MetricsBindAddress :: string
  mo_MetricsSecureServing :: bool
  mo_MetricsAuthFilter :: bool  \<comment> \<open>\<^verbatim>\<open>FilterProvider\<close> is set to \<^verbatim>\<open>WithAuthenticationAndAuthorization\<close>\<close>
  mo_MetricsTLSOpts :: "'cw tls_option option list"
  mo_WebhookTLSOpts :: "'cw tls_option option list"
  mo_HealthProbeBindAddress :: string
  mo_LeaderElection :: bool
  mo_LeaderElectionID :: string

text \<open>\<open>'cw\<close>: certificate watchers, \<open>'c\<close>: rest configurations, \<open>'m\<close>: managers.\<close>

record ('w, 'cw, 'c, 'm, 's, 't, 'q) runtime =
  AddToScheme :: "scheme_part \<Rightarrow> 'w \<Rightarrow> goerr option \<times> 'w"
  MustRegister :: "string list \<Rightarrow> 'w \<Rightarrow> goerr option \<times> 'w"  \<comment> \<open>an error stands for its panic\<close>
  NewCertWatcher :: "string \<Rightarrow> string \<Rightarrow> 'w \<Rightarrow> (goerr + 'cw) \<times> 'w"
  GetConfig :: "'w \<Rightarrow> (goerr + 'c) \<times> 'w"  \<comment> \<open>an error stands for the exit of \<^verbatim>\<open>GetConfigOrDie\<close>\<close>
  NewManager :: "'c \<Rightarrow> 'cw manager_options \<Rightarrow> 'w \<Rightarrow> (goerr + 'm) \<times> 'w"
  GetClient :: "'m \<Rightarrow> ('w, 's, 't, 'q) cluster"
  QuantityOps :: "'q quantity_ops"
  UnstructuredOps :: unstructured_ops
  Complete :: "'m \<Rightarrow> string \<Rightarrow> string \<Rightarrow> ('w, 's, 't, 'q) reconciler \<Rightarrow> 'w \<Rightarrow> goerr option \<times> 'w"
    \<comment> \<open>kind, controller name and reconciler\<close>
  AddRunnable :: "'m \<Rightarrow> 'cw \<Rightarrow> 'w \<Rightarrow> goerr option \<times> 'w"
  AddHealthzCheck :: "'m \<Rightarrow> string \<Rightarrow> 'w \<Rightarrow> goerr option \<times> 'w"
  AddReadyzCheck :: "'m \<Rightarrow> string \<Rightarrow> 'w \<Rightarrow> goerr option \<times> 'w"
  StartManager :: "'m \<Rightarrow> 'w \<Rightarrow> goerr option \<times> 'w"

section \<open>The process\<close>

datatype log_line = LogInfo string | LogError string goerr

datatype outcome = Returned | Exit nat | Panic goerr

record 'w proc =
  pr_world :: 'w
  pr_log :: "log_line list"

definition log_to :: "log_line \<Rightarrow> 'w proc \<Rightarrow> 'w proc" where
  "log_to l s = s\<lparr>pr_log := pr_log s @ [l]\<rparr>"

text \<open>A step of the start either goes on with a value or ends the process.\<close>

type_synonym ('w, 'a) step = "'w proc \<Rightarrow> (outcome + 'a) \<times> 'w proc"

definition go_on :: "'a \<Rightarrow> ('w, 'a) step" where
  "go_on a s = (Inr a, s)"

definition and_then :: "('w, 'a) step \<Rightarrow> ('a \<Rightarrow> ('w, 'b) step) \<Rightarrow> ('w, 'b) step" where
  "and_then m f s = (case m s of (Inl e, s) \<Rightarrow> (Inl e, s) | (Inr a, s) \<Rightarrow> f a s)"

definition info :: "string \<Rightarrow> ('w, unit) step" where
  "info msg s = (Inr (), log_to (LogInfo msg) s)"

text \<open>\<^verbatim>\<open>if err != nil { setupLog.Error(err, msg); os.Exit(1) }\<close> after a call.\<close>

definition or_exit :: "string \<Rightarrow> ('w \<Rightarrow> (goerr + 'a) \<times> 'w) \<Rightarrow> ('w, 'a) step" where
  "or_exit msg f s =
     (case f (pr_world s) of
        (Inl err, w) \<Rightarrow> (Inl (Exit 1), log_to (LogError msg err) (s\<lparr>pr_world := w\<rparr>))
      | (Inr a, w) \<Rightarrow> (Inr a, s\<lparr>pr_world := w\<rparr>))"

definition or_panic :: "('w \<Rightarrow> (goerr + 'a) \<times> 'w) \<Rightarrow> ('w, 'a) step" where
  "or_panic f s =
     (case f (pr_world s) of
        (Inl err, w) \<Rightarrow> (Inl (Panic err), s\<lparr>pr_world := w\<rparr>)
      | (Inr a, w) \<Rightarrow> (Inr a, s\<lparr>pr_world := w\<rparr>))"

text \<open>A call that only returns an error.\<close>

definition err_only :: "('w \<Rightarrow> goerr option \<times> 'w) \<Rightarrow> 'w \<Rightarrow> (goerr + unit) \<times> 'w" where
  "err_only f w = (case f w of (Some err, w) \<Rightarrow> (Inl err, w) | (None, w) \<Rightarrow> (Inr (), w))"

section \<open>Registration\<close>

definition GroupVersion :: "string \<times> string" where
  "GroupVersion = (''autoscaling.podfather.io'', ''v1alpha1'')"

text \<open>The kinds that the \<^verbatim>\<open>init\<close> of the types registers, and the builder after it has run.\<close>

definition registered_types :: "string list" where
  "registered_types = [''PodAutoscaler'', ''PodAutoscalerList'']"

definition SchemeBuilder :: scheme_part where
  "SchemeBuilder = TypesScheme (fst GroupVersion) (snd GroupVersion) registered_types"

definition main_init :: "('w, 'cw, 'c, 'm, 's, 't, 'q) runtime \<Rightarrow> ('w, unit) step" where
  "main_init rt =
     and_then (or_panic (err_only (AddToScheme rt ClientGoScheme))) (\<lambda>_.
     and_then (or_panic (err_only (AddToScheme rt SchemeBuilder))) (\<lambda>_.
     or_panic (err_only (AddToScheme rt MetricsScheme))))"

definition RegisterMetrics :: "('w, 'cw, 'c, 'm, 's, 't, 'q) runtime \<Rightarrow> ('w, unit) step" where
  "RegisterMetrics rt =
     or_panic (err_only (MustRegister rt
       [''podfather_pods_monitored'', ''podfather_resource_adjustments_total'', ''podfather_metrics_collection_errors_total'',
        ''podfather_evaluation_duration_seconds'', ''podfather_pod_starvation_events_total'',
        ''podfather_recommendation_variance_percent'']))"

definition SetupWithManager ::
  "('w, 'cw, 'c, 'm, 's, 't, 'q) runtime \<Rightarrow> 'm \<Rightarrow> ('w, 's, 't, 'q) reconciler \<Rightarrow> 'w \<Rightarrow> goerr option \<times> 'w" where
  "SetupWithManager rt mgr r = Complete rt mgr ''PodAutoscaler'' ''podautoscaler'' r"

section \<open>TLS options\<close>

text \<open>
  The two slices as the servers get them: \<^verbatim>\<open>webhookTLSOpts := tlsOpts\<close> shares \<^verbatim>\<open>tlsOpts\<close>' array, and both
  are appended to.  No append follows, so what the servers read later is what the slices hold now.
\<close>

definition tls_options ::
  "(nat \<Rightarrow> nat \<Rightarrow> nat) \<Rightarrow> bool \<Rightarrow> 'cw option \<Rightarrow> 'cw option \<Rightarrow> 'cw tls_option option list \<times> 'cw tls_option option list" where
  "tls_options grow enableHTTP2 webhookCertWatcher metricsCertWatcher =
     (let (tlsOpts, st) =
            (if \<not> enableHTTP2 then append_to grow nil_slice DisableHTTP2 no_arrays else (nil_slice, no_arrays));
          webhookTLSOpts = tlsOpts;
          (webhookTLSOpts, st) =
            (case webhookCertWatcher of
               None \<Rightarrow> (webhookTLSOpts, st)
             | Some cw \<Rightarrow> append_to grow webhookTLSOpts (GetCertificateFrom cw) st);
          metricsTLSOpts = tlsOpts;
          (metricsTLSOpts, st) =
            (case metricsCertWatcher of
               None \<Rightarrow> (metricsTLSOpts, st)
             | Some cw \<Rightarrow> append_to grow metricsTLSOpts (GetCertificateFrom cw) st)
      in (elements st webhookTLSOpts, elements st metricsTLSOpts))"

section \<open>The start\<close>

text \<open>The optional tracing; the value is the deferred shutdown.\<close>

definition init_telemetry ::
  "('w, 'e, 'r, 'p, 'x) otel \<Rightarrow> flags \<Rightarrow> ('w, ('w \<Rightarrow> goerr option \<times> 'w) option) step" where
  "init_telemetry ot fl =
     (if fl_otelEndpoint fl \<noteq> []
      then and_then (or_exit ''Failed to initialise OpenTelemetry'' (InitProvider ot (fl_otelEndpoint fl))) (\<lambda>shutdown.
           and_then (info ''OpenTelemetry tracing enabled'') (\<lambda>_.
           go_on (Some shutdown)))
      else go_on None)"

definition cert_watcher ::
  "('w, 'cw, 'c, 'm, 's, 't, 'q) runtime \<Rightarrow> string \<Rightarrow> string \<Rightarrow> string \<Rightarrow> string \<Rightarrow> string \<Rightarrow> ('w, 'cw option) step" where
  "cert_watcher rt path name key msg failed =
     (if path \<noteq> []
      then and_then (info msg) (\<lambda>_.
           and_then (or_exit failed (NewCertWatcher rt (Join [path, name]) (Join [path, key]))) (\<lambda>cw.
           go_on (Some cw)))
      else go_on None)"

definition add_watcher ::
  "('w, 'cw, 'c, 'm, 's, 't, 'q) runtime \<Rightarrow> 'm \<Rightarrow> 'cw option \<Rightarrow> string \<Rightarrow> string \<Rightarrow> ('w, unit) step" where
  "add_watcher rt mgr watcher msg failed =
     (case watcher of
        Some cw \<Rightarrow> and_then (info msg) (\<lambda>_. or_exit failed (err_only (AddRunnable rt mgr cw)))
      | None \<Rightarrow> go_on ())"

definition options_of ::
  "(nat \<Rightarrow> nat \<Rightarrow> nat) \<Rightarrow> flags \<Rightarrow> 'cw option \<Rightarrow> 'cw option \<Rightarrow> 'cw manager_options" where
  "options_of grow fl webhookCertWatcher metricsCertWatcher =
     (let (webhookTLSOpts, metricsTLSOpts) = tls_options grow (fl_enableHTTP2 fl) webhookCertWatcher metricsCertWatcher
      in \<lparr>mo_MetricsBindAddress = fl_metricsAddr fl, mo_MetricsSecureServing = fl_secureMetrics fl,
          mo_MetricsAuthFilter = fl_secureMetrics fl, mo_MetricsTLSOpts = metricsTLSOpts, mo_WebhookTLSOpts = webhookTLSOpts,
          mo_HealthProbeBindAddress = fl_probeAddr fl, mo_LeaderElection = fl_enableLeaderElection fl,
          mo_LeaderElectionID = ''853c2c68.podfather.io''\<rparr>)"

definition new_reconciler :: "('w, 'cw, 'c, 'm, 's, 't, 'q) runtime \<Rightarrow> 'm \<Rightarrow> ('w, 's, 't, 'q) reconciler" where
  "new_reconciler rt mgr =
     \<lparr>rc_Client = GetClient rt mgr, rc_ops = QuantityOps rt, rc_uops = UnstructuredOps rt,
      rc_VPAClient = True, rc_NamespaceLimitsFetcher = True\<rparr>"

definition get_config :: "('w, 'cw, 'c, 'm, 's, 't, 'q) runtime \<Rightarrow> ('w, 'c) step" where
  "get_config rt = or_exit ''unable to get kubeconfig'' (GetConfig rt)"

text \<open>From the certificates to the end of \<^verbatim>\<open>mgr.Start\<close>.\<close>

definition serve ::
  "('w, 'cw, 'c, 'm, 's, 't, 'q) runtime \<Rightarrow> (nat \<Rightarrow> nat \<Rightarrow> nat) \<Rightarrow> flags \<Rightarrow> ('w, unit) step" where
  "serve rt grow fl =
     and_then (cert_watcher rt (fl_webhookCertPath fl) (fl_webhookCertName fl) (fl_webhookCertKey fl)
       ''Initializing webhook certificate watcher using provided certificates''
       ''Failed to initialize webhook certificate watcher'') (\<lambda>webhookCertWatcher.
     and_then (cert_watcher rt (fl_metricsCertPath fl) (fl_metricsCertName fl) (fl_metricsCertKey fl)
       ''Initializing metrics certificate watcher using provided certificates''
       ''to initialize metrics certificate watcher'') (\<lambda>metricsCertWatcher.
     and_then (get_config rt) (\<lambda>cfg.
     and_then (or_exit ''unable to start manager''
       (NewManager rt cfg (options_of grow fl webhookCertWatcher metricsCertWatcher))) (\<lambda>mgr.
     and_then (or_exit ''unable to create controller'' (err_only (SetupWithManager rt mgr (new_reconciler rt mgr)))) (\<lambda>_.
     and_then (add_watcher rt mgr metricsCertWatcher
       ''Adding metrics certificate watcher to manager'' ''unable to add metrics certificate watcher to manager'') (\<lambda>_.
     and_then (add_watcher rt mgr webhookCertWatcher
       ''Adding webhook certificate watcher to manager'' ''unable to add webhook certificate watcher to manager'') (\<lambda>_.
     and_then (or_exit ''unable to set up health check'' (err_only (AddHealthzCheck rt mgr ''healthz''))) (\<lambda>_.
     and_then (or_exit ''unable to set up ready check'' (err_only (AddReadyzCheck rt mgr ''readyz''))) (\<lambda>_.
     and_then (info ''starting manager'') (\<lambda>_.
     or_exit ''problem running manager'' (err_only (StartManager rt mgr))))))))))))"

text \<open>The deferred call: it runs when \<^verbatim>\<open>main\<close> returns, and \<^verbatim>\<open>os.Exit\<close> runs no deferred calls.\<close>

definition run_deferred :: "('w \<Rightarrow> goerr option \<times> 'w) option \<Rightarrow> 'w proc \<Rightarrow> 'w proc" where
  "run_deferred deferred s =
     (case deferred of
        None \<Rightarrow> s
      | Some shutdown \<Rightarrow>
          (case shutdown (pr_world s) of
             (None, w) \<Rightarrow> s\<lparr>pr_world := w\<rparr>
           | (Some sErr, w) \<Rightarrow> log_to (LogError ''Failed to shut down OpenTelemetry'' sErr) (s\<lparr>pr_world := w\<rparr>)))"

definition main ::
  "('w, 'cw, 'c, 'm, 's, 't, 'q) runtime \<Rightarrow> ('w, 'e, 'r, 'p, 'x) otel \<Rightarrow> (nat \<Rightarrow> nat \<Rightarrow> nat) \<Rightarrow> flags
   \<Rightarrow> 'w proc \<Rightarrow> outcome \<times> 'w proc" where
  "main rt ot grow fl s =
     (case RegisterMetrics rt s of
        (Inl ended, s) \<Rightarrow> (ended, s)
      | (Inr _, s) \<Rightarrow>
          (case init_telemetry ot fl s of
             (Inl ended, s) \<Rightarrow> (ended, s)
           | (Inr deferred, s) \<Rightarrow>
               (case serve rt grow fl s of
                  (Inl ended, s) \<Rightarrow> (ended, s)
                | (Inr _, s) \<Rightarrow> (Returned, run_deferred deferred s))))"

definition run_program ::
  "('w, 'cw, 'c, 'm, 's, 't, 'q) runtime \<Rightarrow> ('w, 'e, 'r, 'p, 'x) otel \<Rightarrow> (nat \<Rightarrow> nat \<Rightarrow> nat) \<Rightarrow> flags
   \<Rightarrow> 'w proc \<Rightarrow> outcome \<times> 'w proc" where
  "run_program rt ot grow fl s =
     (case main_init rt s of (Inl ended, s) \<Rightarrow> (ended, s) | (Inr _, s) \<Rightarrow> main rt ot grow fl s)"

end
