(* ===== verification/StartupProps.thy ===== *)
theory StartupProps
  imports Startup
begin

text \<open>
  The start of the program: the calls are made in a fixed order that the flags determine, the first
  failure stops it, and the two servers get their own TLS options.
\<close>

section \<open>The calls, in order\<close>

datatype startup_call =
    CAddToScheme scheme_part | CMustRegister
  | CNewExporter "otlp_option list" | CNewResource | CSetTracerProvider | CShutdown
  | CNewCertWatcher string string | CGetConfig | CNewManager | CComplete string string
  | CAddRunnable | CAddHealthzCheck string | CAddReadyzCheck string | CStartManager

text \<open>A library call that notes itself in a record of the world.\<close>

definition notes_call :: "('w \<Rightarrow> 'd list) \<Rightarrow> 'd \<Rightarrow> ('w \<Rightarrow> 'a \<times> 'w) \<Rightarrow> bool" where
  "notes_call rec c f \<longleftrightarrow> (\<forall>w. rec (snd (f w)) = rec w @ [c])"

lemma notes_callD: "notes_call rec c f \<Longrightarrow> f w = (x, w') \<Longrightarrow> rec w' = rec w @ [c]"
  by (metis notes_call_def snd_conv)

text \<open>A world that keeps a record \<open>rec\<close> of the calls made to the libraries.\<close>

locale recording =
  fixes rec :: "'w \<Rightarrow> startup_call list"
    and rt :: "('w, 'cw, 'c, 'm, 's, 't, 'q) runtime" and ot :: "('w, 'e, 'r, 'p, 'x) otel"
  assumes rec_scheme: "notes_call rec (CAddToScheme p) (AddToScheme rt p)"
    and rec_register: "notes_call rec (CMustRegister) (MustRegister rt ms)"
    and rec_exporter: "notes_call rec (CNewExporter os) (NewExporter ot os)"
    and rec_resource: "notes_call rec (CNewResource) (NewResource ot kvs)"
    and rec_provider: "NewTracerProvider ot ex res w = (tp, w') \<Longrightarrow> rec w' = rec w"
    and rec_set: "rec (SetTracerProvider ot tp w) = rec w @ [CSetTracerProvider]"
    and rec_shutdown: "notes_call rec (CShutdown) (Shutdown ot tp)"
    and rec_watcher: "notes_call rec (CNewCertWatcher a b) (NewCertWatcher rt a b)"
    and rec_config: "notes_call rec (CGetConfig) (GetConfig rt)"
    and rec_manager: "notes_call rec (CNewManager) (NewManager rt cfg mo)"
    and rec_complete: "notes_call rec (CComplete kind name) (Complete rt m kind name rcl)"
    and rec_add: "notes_call rec (CAddRunnable) (AddRunnable rt m cw)"
    and rec_healthz: "notes_call rec (CAddHealthzCheck n) (AddHealthzCheck rt m n)"
    and rec_readyz: "notes_call rec (CAddReadyzCheck n) (AddReadyzCheck rt m n)"
    and rec_start: "notes_call rec (CStartManager) (StartManager rt m)"

definition error_logged :: "'w proc \<Rightarrow> bool" where
  "error_logged s \<longleftrightarrow> (\<exists>log msg err. pr_log s = log @ [LogError msg err])"

text \<open>
  A step that makes the calls \<open>ps\<close> and yields a value with \<open>Q\<close>, or makes the first few of them and
  ends the process.
\<close>

definition makes ::
  "('w \<Rightarrow> 'd list) \<Rightarrow> (outcome \<Rightarrow> 'w proc \<Rightarrow> bool) \<Rightarrow> 'd list \<Rightarrow> ('a \<Rightarrow> bool) \<Rightarrow> ('w, 'a) step \<Rightarrow> bool" where
  "makes rec stop ps Q m \<longleftrightarrow>
     (\<forall>s. case m s of
        (Inr a, s') \<Rightarrow> rec (pr_world s') = rec (pr_world s) @ ps \<and> Q a
      | (Inl e, s') \<Rightarrow> stop e s' \<and> (\<exists>n. 0 < n \<and> n \<le> length ps \<and> rec (pr_world s') = rec (pr_world s) @ take n ps))"

lemma makesD:
  assumes "makes rec stop ps Q m"
  shows "m s = (Inr a, s') \<Longrightarrow> rec (pr_world s') = rec (pr_world s) @ ps \<and> Q a"
    and "m s = (Inl e, s') \<Longrightarrow>
      stop e s' \<and> (\<exists>n. 0 < n \<and> n \<le> length ps \<and> rec (pr_world s') = rec (pr_world s) @ take n ps)"
  using assms[unfolded makes_def, THEN spec, of s] by simp_all

lemma makes_then:
  assumes m: "makes rec stop ps P m" and f: "\<And>a. P a \<Longrightarrow> makes rec stop qs Q (f a)"
  shows "makes rec stop (ps @ qs) Q (and_then m f)"
  unfolding makes_def
proof (intro allI)
  fix s
  obtain x s1 where x: "m s = (x, s1)" by (metis surj_pair)
  show "case and_then m f s of
      (Inr a, s') \<Rightarrow> rec (pr_world s') = rec (pr_world s) @ (ps @ qs) \<and> Q a
    | (Inl e, s') \<Rightarrow> stop e s' \<and> (\<exists>n. 0 < n \<and> n \<le> length (ps @ qs) \<and> rec (pr_world s') = rec (pr_world s) @ take n (ps @ qs))"
  proof (cases x)
    case (Inl e)
    from makesD(2)[OF m x[unfolded Inl]] obtain n where
      "stop e s1" "0 < n" "n \<le> length ps" "rec (pr_world s1) = rec (pr_world s) @ take n ps" by blast
    then show ?thesis by (auto simp: and_then_def x Inl intro!: exI[of _ n])
  next
    case (Inr a)
    note a = makesD(1)[OF m x[unfolded Inr]]
    obtain y s2 where y: "f a s1 = (y, s2)" by (metis surj_pair)
    show ?thesis
    proof (cases y)
      case (Inl e)
      from makesD(2)[OF f y[unfolded Inl]] a obtain n where
        "stop e s2" "0 < n" "n \<le> length qs" "rec (pr_world s2) = rec (pr_world s1) @ take n qs" by blast
      then show ?thesis using a by (auto simp: and_then_def x Inr y Inl intro!: exI[of _ "length ps + n"])
    next
      case (Inr b)
      show ?thesis using makesD(1)[OF f y[unfolded Inr]] a by (simp add: and_then_def x \<open>x = Inr a\<close> y Inr)
    qed
  qed
qed

lemma makes_seq:
  "makes rec stop ps (\<lambda>_. True) m \<Longrightarrow> (\<And>a. makes rec stop qs Q (f a)) \<Longrightarrow> makes rec stop (ps @ qs) Q (and_then m f)"
  by (rule makes_then)

lemma makes_go_on: "Q a \<Longrightarrow> makes rec stop [] Q (go_on a)"
  by (simp add: makes_def go_on_def)

lemma makes_info: "makes rec stop [] (\<lambda>_. True) (info msg)"
  by (simp add: makes_def info_def log_to_def)

lemma makes_or_exit:
  assumes "\<And>w a w'. f w = (Inr a, w') \<Longrightarrow> rec w' = rec w @ ps \<and> Q a"
    and "\<And>w e w'. f w = (Inl e, w') \<Longrightarrow> \<exists>n. 0 < n \<and> n \<le> length ps \<and> rec w' = rec w @ take n ps"
  shows "makes rec (\<lambda>e s. e = Exit 1 \<and> error_logged s) ps Q (or_exit msg f)"
  using assms
  by (auto simp: makes_def or_exit_def log_to_def error_logged_def split: prod.splits sum.splits)

lemma makes_or_exit1:
  assumes "notes_call rec p f"
  shows "makes rec (\<lambda>e s. e = Exit 1 \<and> error_logged s) [p] (\<lambda>_. True) (or_exit msg f)"
proof (rule makes_or_exit)
  show "rec w' = rec w @ [p] \<and> True" if "f w = (Inr a, w')" for w a w'
    using assms that by (simp add: notes_callD)
  show "\<exists>n. 0 < n \<and> n \<le> length [p] \<and> rec w' = rec w @ take n [p]" if "f w = (Inl e, w')" for w e w'
    using assms that by (intro exI[of _ 1]) (simp add: notes_callD)
qed

lemma makes_or_panic:
  assumes "notes_call rec p f"
  shows "makes rec (\<lambda>e s. \<exists>err. e = Panic err) [p] (\<lambda>_. True) (or_panic f)"
  unfolding makes_def
proof
  fix s :: "'a proc"
  show "case or_panic f s of
      (Inr a, s') \<Rightarrow> rec (pr_world s') = rec (pr_world s) @ [p] \<and> True
    | (Inl e, s') \<Rightarrow> (\<exists>err. e = Panic err) \<and> (\<exists>n. 0 < n \<and> n \<le> length [p] \<and> rec (pr_world s') = rec (pr_world s) @ take n [p])"
    using assms
    by (cases "f (pr_world s)") (auto simp: or_panic_def notes_callD intro: exI[of _ 1] split: sum.splits)
qed

lemma err_only_rec: "notes_call rec p f \<Longrightarrow> notes_call rec p (err_only f)"
  by (auto simp: notes_call_def err_only_def split: prod.splits option.splits) (metis snd_conv)+

section \<open>The whole start\<close>

definition registration_calls :: "startup_call list" where
  "registration_calls = [CAddToScheme ClientGoScheme, CAddToScheme SchemeBuilder, CAddToScheme MetricsScheme, CMustRegister]"

definition telemetry_calls :: "flags \<Rightarrow> startup_call list" where
  "telemetry_calls fl =
     (if fl_otelEndpoint fl = [] then []
      else [CNewExporter [WithEndpoint (fl_otelEndpoint fl), WithInsecure], CNewResource, CSetTracerProvider])"

definition watcher_calls :: "string \<Rightarrow> string \<Rightarrow> string \<Rightarrow> startup_call list" where
  "watcher_calls path name key = (if path = [] then [] else [CNewCertWatcher (Join [path, name]) (Join [path, key])])"

definition serve_calls :: "flags \<Rightarrow> startup_call list" where
  "serve_calls fl =
     watcher_calls (fl_webhookCertPath fl) (fl_webhookCertName fl) (fl_webhookCertKey fl)
     @ watcher_calls (fl_metricsCertPath fl) (fl_metricsCertName fl) (fl_metricsCertKey fl)
     @ [CGetConfig, CNewManager, CComplete ''PodAutoscaler'' ''podautoscaler'']
     @ (if fl_metricsCertPath fl = [] then [] else [CAddRunnable])
     @ (if fl_webhookCertPath fl = [] then [] else [CAddRunnable])
     @ [CAddHealthzCheck ''healthz'', CAddReadyzCheck ''readyz'', CStartManager]"

context recording
begin

abbreviation exits :: "outcome \<Rightarrow> 'w proc \<Rightarrow> bool" where
  "exits \<equiv> \<lambda>e s. e = Exit 1 \<and> error_logged s"

lemma init_calls:
  "makes rec (\<lambda>e s. \<exists>err. e = Panic err)
     ([CAddToScheme ClientGoScheme] @ [CAddToScheme SchemeBuilder] @ [CAddToScheme MetricsScheme]) (\<lambda>_. True) (main_init rt)"
  unfolding main_init_def by (intro makes_seq makes_or_panic err_only_rec rec_scheme)

lemma register_calls: "makes rec (\<lambda>e s. \<exists>err. e = Panic err) [CMustRegister] (\<lambda>_. True) (RegisterMetrics rt)"
  unfolding RegisterMetrics_def by (intro makes_or_panic err_only_rec rec_register)

lemma InitProvider_calls:
  assumes "InitProvider ot endpoint w = (x, w')"
  defines "ps \<equiv> [CNewExporter [WithEndpoint endpoint, WithInsecure], CNewResource, CSetTracerProvider]"
  shows "case x of Inl err \<Rightarrow> (\<exists>n. 0 < n \<and> n \<le> 3 \<and> rec w' = rec w @ take n ps) | Inr sh \<Rightarrow> rec w' = rec w @ ps \<and> (\<exists>tp. sh = Shutdown ot tp)"
proof -
  obtain y w1 where e: "NewExporter ot [WithEndpoint endpoint, WithInsecure] w = (y, w1)" by (metis surj_pair)
  obtain z w2 where r: "NewResource ot [(''service.name'', ''podfather''), (''service.version'', ''0.1.0'')] w1 = (z, w2)"
    by (metis surj_pair)
  note c = notes_callD[OF rec_exporter e] notes_callD[OF rec_resource r]
  show ?thesis
  proof (cases y)
    case (Inl err)
    then show ?thesis using assms(1) e c(1) by (auto simp: InitProvider_def ps_def intro!: exI[of _ 1])
  next
    case y: (Inr ex)
    show ?thesis
    proof (cases z)
      case (Inl err)
      then show ?thesis using assms(1) e y r c by (auto simp: InitProvider_def ps_def intro!: exI[of _ 2])
    next
      case (Inr res)
      obtain tp w3 where t: "NewTracerProvider ot ex res w2 = (tp, w3)" by (metis surj_pair)
      show ?thesis using assms(1) e y r Inr t c rec_provider[OF t] rec_set[of tp w3]
        by (auto simp: InitProvider_def ps_def)
    qed
  qed
qed

definition deferred_ok :: "flags \<Rightarrow> ('w \<Rightarrow> goerr option \<times> 'w) option \<Rightarrow> bool" where
  "deferred_ok fl d \<longleftrightarrow> (if fl_otelEndpoint fl = [] then d = None else \<exists>tp. d = Some (Shutdown ot tp))"

lemma telemetry_start: "makes rec exits (telemetry_calls fl) (deferred_ok fl) (init_telemetry ot fl)"
proof (cases "fl_otelEndpoint fl = []")
  case True
  then show ?thesis by (simp add: init_telemetry_def telemetry_calls_def deferred_ok_def makes_go_on)
next
  case False
  let ?ps = "[CNewExporter [WithEndpoint (fl_otelEndpoint fl), WithInsecure], CNewResource, CSetTracerProvider]"
  have m: "makes rec exits ?ps (\<lambda>sh. \<exists>tp. sh = Shutdown ot tp)
      (or_exit ''Failed to initialise OpenTelemetry'' (InitProvider ot (fl_otelEndpoint fl)))"
    using InitProvider_calls[of "fl_otelEndpoint fl"] by (intro makes_or_exit) fastforce+
  have "makes rec exits (?ps @ [] @ []) (deferred_ok fl) (init_telemetry ot fl)"
    unfolding init_telemetry_def if_P[OF False]
    by (rule makes_then[OF m], intro makes_seq makes_info makes_go_on) (simp add: deferred_ok_def False)
  then show ?thesis by (simp add: telemetry_calls_def False)
qed

lemma cert_watcher_start:
  "makes rec exits (watcher_calls path name key) (\<lambda>cw. cw = None \<longleftrightarrow> path = []) (cert_watcher rt path name key msg failed)"
proof (cases "path = []")
  case True
  then show ?thesis by (simp add: cert_watcher_def watcher_calls_def makes_go_on)
next
  case False
  let ?c = "CNewCertWatcher (Join [path, name]) (Join [path, key])"
  have "makes rec exits ([] @ [?c] @ []) (\<lambda>cw. cw \<noteq> None) (cert_watcher rt path name key msg failed)"
    unfolding cert_watcher_def if_P[OF False]
    by (intro makes_seq makes_info makes_or_exit1 rec_watcher makes_go_on) simp
  then show ?thesis by (simp add: watcher_calls_def False)
qed

lemma add_watcher_start:
  "makes rec exits (if cw = None then [] else [CAddRunnable]) (\<lambda>_. True) (add_watcher rt mgr cw msg failed)"
proof (cases cw)
  case (Some c)
  have "makes rec exits ([] @ [CAddRunnable]) (\<lambda>_. True) (add_watcher rt mgr cw msg failed)"
    unfolding add_watcher_def Some option.case
    by (intro makes_seq makes_info makes_or_exit1 err_only_rec rec_add)
  then show ?thesis by (simp add: Some)
qed (simp add: add_watcher_def makes_go_on)

lemma serve_start: "makes rec exits (serve_calls fl) (\<lambda>_. True) (serve rt grow fl)"
proof -
  have "makes rec exits
    (watcher_calls (fl_webhookCertPath fl) (fl_webhookCertName fl) (fl_webhookCertKey fl)
     @ watcher_calls (fl_metricsCertPath fl) (fl_metricsCertName fl) (fl_metricsCertKey fl)
     @ [CGetConfig] @ [CNewManager] @ [CComplete ''PodAutoscaler'' ''podautoscaler'']
     @ (if fl_metricsCertPath fl = [] then [] else [CAddRunnable])
     @ (if fl_webhookCertPath fl = [] then [] else [CAddRunnable])
     @ [CAddHealthzCheck ''healthz''] @ [CAddReadyzCheck ''readyz''] @ [] @ [CStartManager]) (\<lambda>_. True) (serve rt grow fl)"
    unfolding serve_def
  proof (rule makes_then[OF cert_watcher_start], rule makes_then[OF cert_watcher_start], goal_cases)
    case (1 wcw mcw)
    note a = add_watcher_start[of mcw, unfolded 1(2)] add_watcher_start[of wcw, unfolded 1(1)]
    show ?case
      unfolding get_config_def SetupWithManager_def
      by (intro makes_seq a makes_info makes_or_exit1 err_only_rec rec_config rec_manager rec_complete rec_healthz rec_readyz rec_start)
  qed
  then show ?thesis by (simp add: serve_calls_def)
qed

text \<open>The program as registration, which may panic, and the rest, which may exit.\<close>

lemma run_program_split:
  "run_program rt ot grow fl s =
     (case and_then (main_init rt) (\<lambda>_. RegisterMetrics rt) s of
        (Inl ended, s) \<Rightarrow> (ended, s)
      | (Inr _, s) \<Rightarrow>
          (case and_then (init_telemetry ot fl) (\<lambda>d. and_then (serve rt grow fl) (\<lambda>_. go_on d)) s of
             (Inl ended, s) \<Rightarrow> (ended, s)
           | (Inr d, s) \<Rightarrow> (Returned, run_deferred d s)))"
  by (auto simp: run_program_def main_def and_then_def go_on_def split: prod.splits sum.splits)

lemma deferred_call:
  "deferred_ok fl d \<Longrightarrow>
     rec (pr_world (run_deferred d s)) = rec (pr_world s) @ (if fl_otelEndpoint fl = [] then [] else [CShutdown])"
  by (auto simp: deferred_ok_def run_deferred_def log_to_def notes_callD[OF rec_shutdown] split: if_splits prod.splits option.splits)

lemma run_calls:
  assumes "run_program rt ot grow fl s = (out, s')"
  defines "plan \<equiv> registration_calls @ telemetry_calls fl @ serve_calls fl"
  shows "case out of
      Returned \<Rightarrow> rec (pr_world s') = rec (pr_world s) @ plan @ (if fl_otelEndpoint fl = [] then [] else [CShutdown])
    | Exit c \<Rightarrow> c = 1 \<and> error_logged s' \<and> (\<exists>n. 4 < n \<and> n \<le> length plan \<and> rec (pr_world s') = rec (pr_world s) @ take n plan)
    | Panic err \<Rightarrow> (\<exists>n. 0 < n \<and> n \<le> 4 \<and> rec (pr_world s') = rec (pr_world s) @ take n plan)"
proof -
  let ?w = "\<lambda>s. rec (pr_world s)"
  have r: "makes rec (\<lambda>e s. \<exists>err. e = Panic err) registration_calls (\<lambda>_. True) (and_then (main_init rt) (\<lambda>_. RegisterMetrics rt))"
    using makes_seq[OF init_calls register_calls] by (simp add: registration_calls_def)
  have m: "makes rec exits (telemetry_calls fl @ serve_calls fl @ []) (deferred_ok fl)
      (and_then (init_telemetry ot fl) (\<lambda>d. and_then (serve rt grow fl) (\<lambda>_. go_on d)))"
    by (rule makes_then[OF telemetry_start], rule makes_seq[OF serve_start], rule makes_go_on)
  have len: "length registration_calls = 4" by (simp add: registration_calls_def)
  obtain x s1 where x: "and_then (main_init rt) (\<lambda>_. RegisterMetrics rt) s = (x, s1)" by (metis surj_pair)
  obtain y s2 where y: "and_then (init_telemetry ot fl) (\<lambda>d. and_then (serve rt grow fl) (\<lambda>_. go_on d)) s1 = (y, s2)"
    by (metis surj_pair)
  show ?thesis
  proof (cases x)
    case (Inl e)
    from makesD(2)[OF r x[unfolded Inl]] obtain err n where
      "e = Panic err" "0 < n" "n \<le> 4" "?w s1 = ?w s @ take n registration_calls" by (auto simp: len)
    then show ?thesis using assms(1) x Inl by (auto simp: run_program_split plan_def len intro!: exI[of _ n])
  next
    case i: (Inr u)
    note c = makesD(1)[OF r x[unfolded i]]
    show ?thesis
    proof (cases y)
      case (Inl e)
      from makesD(2)[OF m y[unfolded Inl]] obtain n where
        "e = Exit 1" "error_logged s2" "0 < n" "n \<le> length (telemetry_calls fl @ serve_calls fl)"
        "?w s2 = ?w s1 @ take n (telemetry_calls fl @ serve_calls fl)" by auto
      then show ?thesis using assms(1) x i y Inl c
        by (auto simp: run_program_split plan_def len intro!: exI[of _ "4 + n"])
    next
      case (Inr d)
      note d = makesD(1)[OF m y[unfolded Inr]]
      then show ?thesis using assms(1) x i y Inr c deferred_call[of fl d s2] by (simp add: run_program_split plan_def)
    qed
  qed
qed

end

section \<open>A library that records\<close>

text \<open>A cluster nobody can reach, over any world.\<close>

definition offline_cluster :: "('w, 's, 't, 'q) cluster" where
  "offline_cluster =
     (let e = \<lparr>ae_text = ''connection refused'', ae_not_found = False\<rparr>
      in \<lparr>GetPodAutoscaler = (\<lambda>ns n w. (Inl e, w)), UpdatePodAutoscaler = (\<lambda>pa w. (Inl e, w)),
          UpdateStatus = (\<lambda>pa w. (Inl e, w)), ListPods = (\<lambda>ns sel w. (Inl e, w)), PatchPod = (\<lambda>b p w. (Inl e, w)),
          EvictPod = (\<lambda>ns n w. (Some e, w)), GetPodMetricsObject = (\<lambda>ns n w. (Inl e, w)), ListLimitRanges = (\<lambda>ns w. (Inl e, w)),
          ListResourceQuotas = (\<lambda>ns w. (Inl e, w)), ListVPAsLimit = (\<lambda>n w. (Inl e, w)), ListVPAs = (\<lambda>ns w. (Inl e, w)),
          GetVPAObject = (\<lambda>ns n w. (Inl e, w)), Now = (\<lambda>w. (0, w)), LabelSelectorAsSelector = (\<lambda>s. Inl (ApiErr e)),
          ContainsFinalizer = (\<lambda>fs f. f \<in> set fs), AddFinalizer = (\<lambda>fs f. fs @ [f]), RemoveFinalizer = (\<lambda>fs f. removeAll f fs)\<rparr>)"

text \<open>The world is the record; a call of \<open>fails\<close> fails.\<close>

definition attempt :: "(startup_call \<Rightarrow> bool) \<Rightarrow> startup_call \<Rightarrow> startup_call list \<Rightarrow> goerr option \<times> startup_call list" where
  "attempt fails c w = ((if fails c then Some (Errorf ''failed'') else None), w @ [c])"

definition attempt_new :: "(startup_call \<Rightarrow> bool) \<Rightarrow> startup_call \<Rightarrow> 'a \<Rightarrow> startup_call list \<Rightarrow> (goerr + 'a) \<times> startup_call list" where
  "attempt_new fails c a w = ((if fails c then Inl (Errorf ''failed'') else Inr a), w @ [c])"

definition recorder :: "(startup_call \<Rightarrow> bool) \<Rightarrow> (startup_call list, string, unit, unit, string, string, int) runtime" where
  "recorder fails =
     \<lparr>AddToScheme = (\<lambda>p. attempt fails (CAddToScheme p)), MustRegister = (\<lambda>ms. attempt fails CMustRegister),
      NewCertWatcher = (\<lambda>a b. attempt_new fails (CNewCertWatcher a b) a), GetConfig = attempt_new fails CGetConfig (),
      NewManager = (\<lambda>cfg mo. attempt_new fails CNewManager ()), GetClient = (\<lambda>m. offline_cluster), QuantityOps = milli_ops,
      UnstructuredOps = plain_unstructured, Complete = (\<lambda>m kind name r. attempt fails (CComplete kind name)),
      AddRunnable = (\<lambda>m cw. attempt fails CAddRunnable), AddHealthzCheck = (\<lambda>m n. attempt fails (CAddHealthzCheck n)),
      AddReadyzCheck = (\<lambda>m n. attempt fails (CAddReadyzCheck n)), StartManager = (\<lambda>m. attempt fails CStartManager)\<rparr>"

definition otel_recorder :: "(startup_call \<Rightarrow> bool) \<Rightarrow> (startup_call list, unit, unit, unit, unit) otel" where
  "otel_recorder fails =
     \<lparr>NewExporter = (\<lambda>os. attempt_new fails (CNewExporter os) ()), NewResource = (\<lambda>kvs. attempt_new fails CNewResource ()),
      NewTracerProvider = (\<lambda>e r w. ((), w)), SetTracerProvider = (\<lambda>p w. w @ [CSetTracerProvider]),
      Shutdown = (\<lambda>p. attempt fails CShutdown), NamedTracer = (\<lambda>n w. ((), w))\<rparr>"

interpretation recorded: recording "\<lambda>w. w" "recorder fails" "otel_recorder fails" for fails
  by unfold_locales (auto simp: recorder_def otel_recorder_def notes_call_def attempt_def attempt_new_def)

text \<open>The calls of a whole start, which the flags determine.\<close>

definition startup_plan :: "flags \<Rightarrow> startup_call list" where
  "startup_plan fl = registration_calls @ telemetry_calls fl @ serve_calls fl"

text \<open>
  C11. The start makes its calls in the order the flags determine and stops at the first failure: the
  manager starts after everything else has succeeded, with the types registered, the controller
  set up and the health checks in place.  A failure in the registrations panics; any later one
  is logged and exits with code 1, and then the tracer is not shut down, also if tracing was on:
  only a manager that ends without an error leads to the deferred shutdown.
\<close>

theorem run_program_sequence:
  assumes "recording rec rt ot" and "run_program rt ot grow fl s = (out, s')"
  shows "case out of
      Returned \<Rightarrow> rec (pr_world s') = rec (pr_world s) @ startup_plan fl @ (if fl_otelEndpoint fl = [] then [] else [CShutdown])
    | Exit c \<Rightarrow> c = 1 \<and> error_logged s'
        \<and> (\<exists>n. 4 < n \<and> n \<le> length (startup_plan fl) \<and> rec (pr_world s') = rec (pr_world s) @ take n (startup_plan fl))
    | Panic err \<Rightarrow> (\<exists>n. 0 < n \<and> n \<le> 4 \<and> rec (pr_world s') = rec (pr_world s) @ take n (startup_plan fl))"
  using recording.run_calls[OF assms] unfolding startup_plan_def .

theorem run_program_sequence_witness:
  "let fl = default_flags\<lparr>fl_otelEndpoint := ''localhost:4317''\<rparr>;
       (out, s') = run_program (recorder (\<lambda>c. c = CAddReadyzCheck ''readyz'')) (otel_recorder (\<lambda>c. c = CAddReadyzCheck ''readyz''))
                     (\<lambda>old needed. needed) fl \<lparr>pr_world = [], pr_log = []\<rparr>
   in out = Exit 1 \<and> CStartManager \<notin> set (pr_world s') \<and> CShutdown \<notin> set (pr_world s') \<and> CSetTracerProvider \<in> set (pr_world s')"
proof -
  let ?f = "\<lambda>c. c = CAddReadyzCheck ''readyz''" and ?fl = "default_flags\<lparr>fl_otelEndpoint := ''localhost:4317''\<rparr>"
  obtain out s' where r: "run_program (recorder ?f) (otel_recorder ?f) (\<lambda>old needed. needed) ?fl \<lparr>pr_world = [], pr_log = []\<rparr> = (out, s')"
    by (metis surj_pair)
  have "out = Exit 1 \<and> length (pr_world s') = 12"
    using r[symmetric]
    by (simp add: run_program_def main_init_def and_then_def or_panic_def err_only_def recorder_def otel_recorder_def attempt_def
        attempt_new_def main_def RegisterMetrics_def init_telemetry_def or_exit_def InitProvider_def info_def log_to_def go_on_def
        serve_def cert_watcher_def get_config_def SetupWithManager_def add_watcher_def default_flags_def)
  moreover from this run_program_sequence[OF recorded.recording_axioms r]
  obtain n where "pr_world s' = take n (startup_plan ?fl)" by auto
  moreover have pl: "startup_plan ?fl = [CAddToScheme ClientGoScheme, CAddToScheme SchemeBuilder, CAddToScheme MetricsScheme,
      CMustRegister, CNewExporter [WithEndpoint ''localhost:4317'', WithInsecure], CNewResource, CSetTracerProvider, CGetConfig,
      CNewManager, CComplete ''PodAutoscaler'' ''podautoscaler'', CAddHealthzCheck ''healthz'', CAddReadyzCheck ''readyz'', CStartManager]"
    by (simp add: startup_plan_def registration_calls_def telemetry_calls_def serve_calls_def watcher_calls_def default_flags_def)
  ultimately have "pr_world s' = take 12 (startup_plan ?fl)" by (simp add: min_def split: if_splits)
  then show ?thesis using r \<open>out = Exit 1 \<and> length (pr_world s') = 12\<close> by (simp add: pl)
qed

section \<open>TLS options\<close>

text \<open>A \<^verbatim>\<open>tls.Config\<close> as far as \<^verbatim>\<open>main\<close> sets it, and what a server does with its options.\<close>

record 'cw tls_config =
  NextProtos :: "string list"
  GetCertificate :: "'cw option"

fun apply_option :: "'cw tls_config \<Rightarrow> 'cw tls_option option \<Rightarrow> 'cw tls_config" where
  "apply_option c (Some DisableHTTP2) = c\<lparr>NextProtos := [''http/1.1'']\<rparr>"
| "apply_option c (Some (GetCertificateFrom cw)) = c\<lparr>GetCertificate := Some cw\<rparr>"
| "apply_option c None = c"

definition configure :: "'cw tls_option option list \<Rightarrow> 'cw tls_config \<Rightarrow> 'cw tls_config" where
  "configure opts c = foldl apply_option c opts"

text \<open>
  C23. What the servers make of their TLS options.  With HTTP/2 disabled both negotiate HTTP/1.1 only,
  whatever certificates are configured; else the protocols are left alone.  Each server serves its own
  certificate, but for one case that rests on the growth of slices, which the language leaves open:
  had the first append more room than for one element, the two slices would share the array behind
  them, and the webhook server would serve the metrics server's certificate.
\<close>

theorem servers_tls:
  assumes "1 \<le> grow 0 1"
    and "mo_WebhookTLSOpts (options_of grow fl wcw mcw) = webhook" and "mo_MetricsTLSOpts (options_of grow fl wcw mcw) = metrics"
  shows "NextProtos (configure webhook c) = (if fl_enableHTTP2 fl then NextProtos c else [''http/1.1''])
       \<and> NextProtos (configure metrics c) = (if fl_enableHTTP2 fl then NextProtos c else [''http/1.1''])
       \<and> GetCertificate (configure metrics c) = (case mcw of None \<Rightarrow> GetCertificate c | Some m \<Rightarrow> Some m)
       \<and> GetCertificate (configure webhook c) =
           (case (wcw, mcw) of
              (None, _) \<Rightarrow> GetCertificate c
            | (Some w, None) \<Rightarrow> Some w
            | (Some w, Some m) \<Rightarrow> Some (if fl_enableHTTP2 fl \<or> grow 0 1 = 1 then w else m))"
  using assms
  by (auto simp: options_of_def tls_options_def configure_def elements_def append_to_def nil_slice_def no_arrays_def Let_def
      upt_rec split: option.splits if_splits)

theorem servers_tls_witness:
  "GetCertificate (configure (mo_WebhookTLSOpts (options_of (\<lambda>old needed. needed) default_flags (Some ''w'') (Some ''m'')))
     \<lparr>NextProtos = [''h2''], GetCertificate = None\<rparr>) = Some ''w''
   \<and> GetCertificate (configure (mo_WebhookTLSOpts (options_of (\<lambda>old needed. 2 * needed) default_flags (Some ''w'') (Some ''m'')))
     \<lparr>NextProtos = [''h2''], GetCertificate = None\<rparr>) = Some ''m''"
  using servers_tls[of "\<lambda>old needed. needed", OF _ refl refl, of default_flags "Some ''w''" "Some ''m''"]
    servers_tls[of "\<lambda>old needed. 2 * needed", OF _ refl refl, of default_flags "Some ''w''" "Some ''m''"]
  by (simp add: default_flags_def)

end
