(* ===== verification/Spec2Isabelle.thy ===== *)
theory Spec2Isabelle
  imports Calculator NamespaceProps VpaRoundtrip PodMetrics UpdaterProps ControllerProps ReconcileProps System
    Convergence Report Deletion Eviction Fallback PatchFailures VpaConflict WriteBound DeepCopyProps StartupProps
begin

text \<open>
  Podfather: a verification development.

  Podfather is a Kubernetes controller.  For every PodAutoscaler object it finds the running pods
  a label selector matches, takes a resource recommendation for each container, either from a
  VerticalPodAutoscaler or computed from the container's usage, fits it into the namespace's
  LimitRange and ResourceQuota bounds, and applies it by resizing the pod in place or by evicting
  it.  The program is the Go code under \<^verbatim>\<open>src/internal\<close>, the types under \<^verbatim>\<open>src/api/v1alpha1\<close> and
  the entry point \<^verbatim>\<open>src/cmd/main.go\<close>.

  The parts and their theories

  \<^item> \<open>Prelude\<close>: the collection \<open>float_eval\<close> and two contracts on accumulating loops.
    \<open>extremum_scan\<close> is a loop that keeps the best value seen: the LimitRange minima and maxima, the
    quota headroom and its two keys are nine interpretations of it.  \<open>untouched\<close> is a loop that
    leaves a quantity alone: the frame properties of gathering and the balance of adjustments
    and events are interpretations of it.

  \<^item> \<open>Rounding\<close>, \<open>GoFloat\<close>, \<open>GoFmt\<close>, \<open>GoJson\<close>: what the program uses of the language.  A
    \<^verbatim>\<open>float64\<close> is NaN, an infinity or a sign with a rational magnitude; every operator rounds its
    exact result once, to nearest and ties to even, with 53 bits, gradual underflow and overflow
    to infinity.  The lemmas show that rounding is monotone, idempotent and accurate to half a
    unit, and lift this to the operators.  Also the verbs of \<^verbatim>\<open>fmt\<close>, error values with wrapping, and
    \<^verbatim>\<open>encoding/json\<close> for one struct; the search for the shortest decimal tries up to seventeen
    significant digits, which determine a \<^verbatim>\<open>float64\<close>.

  \<^item> \<open>Calculator\<close> (\<^verbatim>\<open>internal/calculator/calculator.go\<close>): the recommendation algorithm
    \<open>Calculate\<close>.  The locale \<open>float_clamp\<close> is the contract of a clamp; it is interpreted on
    \<^verbatim>\<open>clamp\<close> here and on the controller's \<^verbatim>\<open>clampFloat\<close>.  Shown: bounds, limits that cover requests,
    requests that cover usage, monotonicity, stability, the unset allocation.

  \<^item> \<open>Kube\<close>, \<open>ApiTypes\<close>, \<open>Cluster\<close>: the Kubernetes objects as far as the program reads them, the
    PodAutoscaler resource (\<^verbatim>\<open>api/v1alpha1/podautoscaler_types.go\<close>), and the calls to the API
    server.  Quantities, unstructured accessors, label selectors, finalizer helpers and the API
    server are code outside the repository: they are the records \<open>quantity_ops\<close>,
    \<open>unstructured_ops\<close> and \<open>cluster\<close>, which the definitions take as arguments.  The server acts on an
    arbitrary state of the world, so anything may happen between two calls.  An answer to a
    status update is taken to carry the texts that were sent.

  \<^item> \<open>NamespaceLimits\<close>, \<open>NamespaceProps\<close> (\<^verbatim>\<open>internal/namespacelimits/namespacelimits.go\<close>):
    gathering bounds, \<open>ClampRecommendation\<close> as a pipeline of five steps per resource with the
    texts of its reasons, \<open>ToCalculatorConstraints\<close>.  Shown: gathering finds the tightest bounds;
    which bounds a clamped pair keeps, and under what conditions; nothing changes unreported.

  \<^item> \<open>Vpa\<close>, \<open>VpaRoundtrip\<close> (\<^verbatim>\<open>internal/vpa/vpa.go\<close>): substring search, parsing of unstructured
    objects, matching and validation.  Shown: the search decides the substring relation, the loop
    over its index ends (measure: the positions left), parsing takes exactly the parseable entries,
    matching returns the first target, validation accepts exactly \<^verbatim>\<open>Off\<close>.  \<open>render_vpa\<close> is the object
    that shows a parsed form; the locale \<open>printed_quantities\<close> (quantities that print and parse) carries
    the proof that the parser reads it back, and is interpreted on \<open>milli_ops\<close>.

  \<^item> \<open>PodMetrics\<close> (\<^verbatim>\<open>internal/metrics/metrics.go\<close>): the Prometheus variables as a state, the
    collector, the current allocations.  Their registration is in \<open>Startup\<close>.

  \<^item> \<open>Updater\<close>, \<open>UpdaterProps\<close> (\<^verbatim>\<open>internal/updater/updater.go\<close>): the in-place patch, the
    annotation and eviction, the mode switch; a pod is returned as it is left in memory, also
    after a failure.  Shown: which container changes, which calls each mode makes, and that the
    reported strategy is what happened.

  \<^item> \<open>Controller\<close>, \<open>Reconcile\<close> (\<^verbatim>\<open>internal/controller/podautoscaler_controller.go\<close>): the
    reconciler.  Its state \<open>rstate\<close> is the world, the emitted events and the Prometheus metrics.
    \<open>Reconcile\<close> runs \<open>handleFinalizer\<close>, \<open>discoverRunningPods\<close>, and with running pods
    \<open>reconcile_pods\<close>: \<open>checkVPAIntegration\<close>, \<open>fetch_constraints\<close>, one \<open>cycle_step\<close> per pod
    (\<open>evaluateVPAPod\<close> or \<open>evaluatePodMetrics\<close>, which call \<open>applyRecommendation\<close>), \<open>finish_cycle\<close>.

  \<^item> \<open>Trace\<close>, \<open>ReconcileTrace\<close>, \<open>ControllerProps\<close>, \<open>ReconcileProps\<close>: a cluster that records the
    writes it is asked for.  Since the program is modelled for any cluster it runs on a traced one;
    the locale \<open>trace_loop\<close>, interpreted on the loops over containers, recommendations and pods,
    carries what an iteration may write to the whole cycle.  Shown: dry-run and modes are
    respected, a strict VPA conflict halts, the finalizer's life cycle, the single final status
    update and what it reports, the balance of adjustments and events, the requeue intervals,
    and the safety of a recommendation across calculator and namespace bounds; a recommendation taken from
    a VPA lies inside the calculator's bounds.

  \<^item> \<open>ReconcileInv\<close>, \<open>System\<close>: a contract for invariants of the outside world, in three parts: what the reads
    keep (\<open>read_inv\<close>), what the updates of the object and of its status keep (\<open>object_inv\<close>), what listing,
    patching and evicting pods keep (\<open>reconcile_inv\<close>); then a whole reconciliation keeps it.
    \<open>system_step\<close> lets reconciliations of any objects alternate with steps of an environment; by rule
    induction over \<open>reachable\<close> every stored status is coherent.  A second use of the contract shows that
    only selected, running pods are written.

  \<^item> \<open>PodStore\<close>, \<open>PodCycle\<close>, \<open>Report\<close>: a reconciliation against a store of pods.  \<open>plan\<close> lists the recommendations that are
    significant for a pod, one after the other, \<open>apply_plan\<close> is the pod after them and \<open>plan_calls\<close> their
    patches.  The contract \<open>pod_server\<close> says of a healthy server that listing and patching act on a list of
    pods and that no other call but an eviction does, and nothing of one that is not healthy; \<open>pod_store\<close> adds
    the answers about usage and about the object.  Both are interpreted on a server that starts with an outage.  \<open>planned_loop\<close>
    is a loop over the containers that follows a plan; both paths, metrics and VPA, interpret it.  Shown:
    a reconciliation in the modes that resize in place refines the update of the store by the plans of the
    selected running pods; it writes the patches of the plans and one status, whose numbers are those of
    the patches.

  \<^item> \<open>Settling\<close>, \<open>Truncation\<close>, \<open>Convergence\<close>: what the next evaluation reads from a resized pod.  The resize
    refines an update of the table of allocations, and by error bounds on the roundings what is read back is
    within eleven percent although only whole millicores are written.  Shown: with thresholds from eleven
    percent on, once the server is healthy one reconciliation settles the pods, whatever failed before, and
    later ones change nothing; with a threshold
    that is smaller than what the truncation cuts off, or on the path from metrics when the namespace has cut the recommendation
    back, a pod is resized for ever.

  \<^item> \<open>Deletion\<close>, \<open>Eviction\<close>, \<open>PatchFailures\<close>, \<open>Fallback\<close>: further uses of the store and of the plans.  A deletion removes the
    annotation from every selected pod; mode \<^verbatim>\<open>Recreate\<close> evicts once per container and again in each cycle,
    since nothing reads the annotation; when the server refuses a patch (\<open>patch_server\<close>, where a patch carries the
    list of containers as a whole) the refused change is applied by the next patch that it accepts; on one
    that never resizes (\<open>no_resize_server\<close>) mode \<^verbatim>\<open>Auto\<close> only evicts, again in each cycle.

  \<^item> \<open>VpaConflict\<close>: the condition \<^verbatim>\<open>VPAConflict\<close> against what the check for a VPA has found.

  \<^item> \<open>WriteBound\<close>: the locale \<open>loop_cost\<close> adds up what iterations cost; a reconciliation ends
    within a number of writes that the sizes of the answers determine.

  \<^item> \<open>Memory\<close>, \<open>DeepCopy\<close>, \<open>DeepCopyProps\<close> (\<^verbatim>\<open>api/v1alpha1/zz_generated.deepcopy.go\<close>): the generated
    copies on a heap with one typed store per kind of cell.  Elsewhere the objects are values;
    here they are structs with pointers, maps and slices (the records \<open>*_mem\<close>).  The contract \<open>copier\<close> says
    that a copy reads like its original and lies in new cells; \<open>pointee\<close>, \<open>element\<close>, \<open>slice\<close> and
    \<open>struct_copier\<close> derive it for pointers, slices and structs, and every type of the API interprets it.
    Values of library types (quantities, label selectors, metadata, conditions, times) are values also
    here, with their own deep copies as parameters.

  \<^item> \<open>Telemetry\<close>, \<open>GoRuntime\<close>, \<open>Startup\<close>, \<open>StartupProps\<close> (\<^verbatim>\<open>internal/telemetry\<close>, \<^verbatim>\<open>cmd/main.go\<close>,
    \<^verbatim>\<open>api/v1alpha1/groupversion_info.go\<close>, \<^verbatim>\<open>RegisterMetrics\<close>, \<^verbatim>\<open>SetupWithManager\<close>): the start of the process from
    the parsed flags on.  A step goes on with a value or ends the process with an exit, a panic
    or a return; the lines of \<^verbatim>\<open>setupLog\<close> and the deferred shutdown are part of the state.  Slices have
    their backing arrays, since two of them share one here.  The locale \<open>recording\<close>, for libraries that
    record the calls made, is interpreted on \<open>recorder\<close>.  Shown: the sequence of calls and where it stops,
    and what TLS configuration the two servers end up with.

  Loops are structural recursions and folds over the lists the program iterates over, so
  they end; no fuel is needed but for the seventeen digits above.

  Not modelled: log calls but for those of \<^verbatim>\<open>setupLog\<close>, the parsing of the command line and the zap
  options (left to \<^verbatim>\<open>flag\<close> and \<^verbatim>\<open>zap\<close>), the constructors that only wrap a client (\<^verbatim>\<open>NewClient\<close>,
  \<^verbatim>\<open>NewFetcher\<close>, \<^verbatim>\<open>NewCollector\<close>, \<^verbatim>\<open>NewPodUpdater\<close>: the client is an argument of the operations), the JSON and
  validation tags of the types.

  What could be added: the convergence of the modes that resize in place assumes that, from some point on,
  every patch is accepted.  A server that keeps refusing patches is treated only in \<open>PatchFailures\<close> and
  \<open>Fallback\<close>, one that changes pods during a reconciliation only by the invariants of \<open>System\<close>.
\<close>

end
